(* ===== verification/Prelude.thy ===== *)
theory Prelude
  imports Main "HOL-Library.Word" "HOL-Library.Code_Target_Numeral"
begin

text \<open>
  Shared vocabulary of the development: the machine types of the Rust sources
  (bytes, 256-bit words, 160-bit addresses, \<open>usize\<close> and \<open>i64\<close>), the result type
  that carries an \<open>Err\<close>, a panic or an exhausted fuel, the state-and-error monad the
  executor is written in, big-endian byte strings, and the \<open>Vec\<close>/slice operations of
  the standard library with their out-of-range behaviour written out.

  \<open>usize\<close> values are \<open>nat\<close> below \<open>2 ^ 64\<close> (the 64-bit targets); additions that
  may leave that range go through \<open>usize_add\<close>. \<open>i64\<close> values are \<open>int\<close>.
\<close>

named_theorems exec_simps "unfolding of the executor's monadic primitives"
named_theorems quiet_intros "computations that leave the gas meter alone"

section \<open>Machine types\<close>

type_synonym byte = "8 word"
type_synonym bytes = "byte list"
type_synonym u64 = "64 word"
type_synonym u256 = "256 word"
type_synonym addr160 = "160 word"

abbreviation usize_bound :: nat where "usize_bound \<equiv> 18446744073709551616"

abbreviation i64_max :: int where "i64_max \<equiv> 9223372036854775807"

lemma usize_bound_pow: "usize_bound = 2 ^ 64"
  by simp

section \<open>Results\<close>

text \<open>
  \<open>Err\<close> is the Rust \<open>Result::Err\<close>; \<open>Panic\<close> is a Rust panic (the process or task
  ends); \<open>OutOfFuel\<close> belongs to the model alone: the fuel that bounds the interpreter
  loop ran out.
\<close>

datatype ('a, 'e) res = Ok 'a | Err 'e | Panic | OutOfFuel

fun is_Ok :: "('a, 'e) res \<Rightarrow> bool" where
  "is_Ok (Ok _) = True"
| "is_Ok _ = False"

fun res_bind :: "('a, 'e) res \<Rightarrow> ('a \<Rightarrow> ('b, 'e) res) \<Rightarrow> ('b, 'e) res" where
  "res_bind (Ok a) f = f a"
| "res_bind (Err e) f = Err e"
| "res_bind Panic f = Panic"
| "res_bind OutOfFuel f = OutOfFuel"

lemma res_bind_assoc [simp]:
  "res_bind (res_bind m f) g = res_bind m (\<lambda>x. res_bind (f x) g)"
  by (cases m) auto

lemma res_bind_Ok_iff:
  "res_bind m f = Ok b \<longleftrightarrow> (\<exists>a. m = Ok a \<and> f a = Ok b)"
  by (cases m) auto

section \<open>The state and error monad\<close>

text \<open>
  A computation of the executor takes the machine state and returns a result together
  with the state reached: an \<open>Err\<close> keeps every change made before it, as the
  \<open>&mut\<close> references of the source do.
\<close>

type_synonym ('s, 'e, 'a) monad = "'s \<Rightarrow> ('a, 'e) res \<times> 's"

definition returnM :: "'a \<Rightarrow> ('s, 'e, 'a) monad" where
  "returnM a = (\<lambda>s. (Ok a, s))"

definition bindM :: "('s, 'e, 'a) monad \<Rightarrow> ('a \<Rightarrow> ('s, 'e, 'b) monad) \<Rightarrow> ('s, 'e, 'b) monad" where
  "bindM m f = (\<lambda>s. case m s of
       (Ok a, s') \<Rightarrow> f a s'
     | (Err e, s') \<Rightarrow> (Err e, s')
     | (Panic, s') \<Rightarrow> (Panic, s')
     | (OutOfFuel, s') \<Rightarrow> (OutOfFuel, s'))"

definition seqM :: "('s, 'e, 'a) monad \<Rightarrow> ('s, 'e, 'b) monad \<Rightarrow> ('s, 'e, 'b) monad" where
  "seqM m k = bindM m (\<lambda>_. k)"

definition throwM :: "'e \<Rightarrow> ('s, 'e, 'a) monad" where
  "throwM e = (\<lambda>s. (Err e, s))"

definition panicM :: "('s, 'e, 'a) monad" where
  "panicM = (\<lambda>s. (Panic, s))"

definition getsM :: "('s \<Rightarrow> 'a) \<Rightarrow> ('s, 'e, 'a) monad" where
  "getsM f = (\<lambda>s. (Ok (f s), s))"

definition modifyM :: "('s \<Rightarrow> 's) \<Rightarrow> ('s, 'e, unit) monad" where
  "modifyM f = (\<lambda>s. (Ok (), f s))"

definition liftM :: "('a, 'e) res \<Rightarrow> ('s, 'e, 'a) monad" where
  "liftM r = (\<lambda>s. (r, s))"

text \<open>A \<open>match\<close> on the outcome: an \<open>Err\<close> is handled, a panic goes through.\<close>

definition catchM ::
    "('s, 'e, 'a) monad \<Rightarrow> ('a \<Rightarrow> ('s, 'e, 'b) monad) \<Rightarrow> ('e \<Rightarrow> ('s, 'e, 'b) monad) \<Rightarrow> ('s, 'e, 'b) monad" where
  "catchM m f h = (\<lambda>s. case m s of
       (Ok a, s') \<Rightarrow> f a s'
     | (Err e, s') \<Rightarrow> h e s'
     | (Panic, s') \<Rightarrow> (Panic, s')
     | (OutOfFuel, s') \<Rightarrow> (OutOfFuel, s'))"

lemmas monad_defs = returnM_def bindM_def seqM_def throwM_def panicM_def getsM_def
  modifyM_def liftM_def catchM_def

lemma bindM_return [simp]: "bindM (returnM a) f = f a"
  by (simp add: monad_defs)

lemma bindM_returnM_right [simp]: "bindM m returnM = m"
  by (rule ext) (simp add: monad_defs split: prod.split res.split)

lemma bindM_assoc: "bindM (bindM m f) g = bindM m (\<lambda>x. bindM (f x) g)"
  by (rule ext) (simp add: monad_defs split: prod.split res.split)

lemma bindM_Ok: "m s = (Ok a, s') \<Longrightarrow> bindM m f s = f a s'"
  by (simp add: bindM_def)

lemma bindM_not_Ok:
  "m s = (Err e, s') \<Longrightarrow> bindM m f s = (Err e, s')"
  "m s = (Panic, s') \<Longrightarrow> bindM m f s = (Panic, s')"
  "m s = (OutOfFuel, s') \<Longrightarrow> bindM m f s = (OutOfFuel, s')"
  by (simp_all add: bindM_def)

lemma bindM_Ok_iff:
  "bindM m f s = (Ok b, s'') \<longleftrightarrow> (\<exists>a s'. m s = (Ok a, s') \<and> f a s' = (Ok b, s''))"
  by (cases "m s"; cases "fst (m s)") (auto simp: bindM_def split: res.splits prod.splits)

lemma bindM_outcome:
  assumes "bindM c f m = (r, m')"
  obtains (ok) a m1 where "c m = (Ok a, m1)" "f a m1 = (r, m')"
        | (err) e where "c m = (Err e, m')" "r = Err e"
        | (panic) "c m = (Panic, m')" "r = Panic"
        | (fuel) "c m = (OutOfFuel, m')" "r = OutOfFuel"
  using assms by (cases "c m"; cases "fst (c m)") (auto simp: bindM_def)

section \<open>Big-endian byte strings\<close>

definition be_nat :: "bytes \<Rightarrow> nat" where
  "be_nat bs = foldl (\<lambda>acc b. acc * 256 + unat b) 0 bs"

fun to_be :: "nat \<Rightarrow> nat \<Rightarrow> bytes" where
  "to_be 0 x = []"
| "to_be (Suc n) x = to_be n (x div 256) @ [of_nat x]"

lemma be_nat_Nil [simp]: "be_nat [] = 0"
  by (simp add: be_nat_def)

lemma be_nat_snoc [simp]: "be_nat (bs @ [b]) = be_nat bs * 256 + unat b"
  by (simp add: be_nat_def)

lemma length_to_be [simp]: "length (to_be n x) = n"
  by (induction n arbitrary: x) auto

lemma unat_byte_lt [simp]: "unat (b :: byte) < 256"
  using unsigned_less [of b, where 'a = nat] by simp

lemma unat_of_nat_byte [simp]: "unat (of_nat x :: byte) = x mod 256"
  by (simp add: unat_of_nat)

lemma be_nat_to_be: "be_nat (to_be n x) = x mod 256 ^ n"
proof (induction n arbitrary: x)
  case 0
  then show ?case by simp
next
  case (Suc n)
  have "x mod (256 * 256 ^ n) = 256 * (x div 256 mod 256 ^ n) + x mod 256"
    by (rule mod_mult2_eq)
  then show ?case by (simp add: Suc.IH mult.commute)
qed

lemma be_nat_lt: "be_nat bs < 256 ^ length bs"
proof (induction bs rule: rev_induct)
  case Nil
  then show ?case by simp
next
  case (snoc b bs)
  have "be_nat bs * 256 + unat b < be_nat bs * 256 + 256" by simp
  also have "\<dots> = (be_nat bs + 1) * 256" by simp
  also have "\<dots> \<le> 256 ^ length bs * 256" using snoc by (intro mult_right_mono) auto
  finally show ?case by (simp add: mult.commute)
qed

lemma to_be_be_nat: "to_be (length bs) (be_nat bs) = bs"
proof (induction bs rule: rev_induct)
  case Nil
  then show ?case by simp
next
  case (snoc b bs)
  have "(be_nat bs * 256 + unat b) div 256 = be_nat bs" by simp
  moreover have "(of_nat (be_nat bs * 256 + unat b) :: byte) = b"
    by (rule word_unat_eq_iff [THEN iffD2], subst unat_of_nat_byte) simp
  ultimately show ?case using snoc by simp
qed

lemma be_nat_append: "be_nat (xs @ ys) = be_nat xs * 256 ^ length ys + be_nat ys"
proof (induction ys rule: rev_induct)
  case Nil
  then show ?case by simp
next
  case (snoc y ys)
  have "be_nat (xs @ ys @ [y]) = be_nat (xs @ ys) * 256 + unat y"
    by (metis append_assoc be_nat_snoc)
  then show ?case using snoc by (simp add: algebra_simps)
qed

lemma be_nat_replicate_zero [simp]: "be_nat (replicate n 0) = 0"
  by (induction n) (auto simp: be_nat_def)

lemma be_nat_zeros_append: "be_nat (replicate n 0 @ bs) = be_nat bs"
  by (simp add: be_nat_append)

text \<open>\<open>u8::leading_zeros\<close>.\<close>

definition leading_zeros :: "byte \<Rightarrow> nat" where
  "leading_zeros b = length (takeWhile (\<lambda>i. \<not> bit b i) [7, 6, 5, 4, 3, 2, 1, 0])"

lemma leading_zeros_le: "leading_zeros b \<le> 8"
  using length_takeWhile_le [of "\<lambda>i. \<not> bit b i" "[7, 6, 5, 4, 3, 2, 1, 0]"]
  by (simp add: leading_zeros_def)

section \<open>Vectors and slices of the standard library\<close>

text \<open>\<open>usize::div_ceil\<close>.\<close>

definition div_ceil :: "nat \<Rightarrow> nat \<Rightarrow> nat" where
  "div_ceil a b = (a + b - 1) div b"

lemma div_ceil_32_mono: "a \<le> b \<Longrightarrow> div_ceil a 32 \<le> div_ceil b 32"
  by (simp add: div_ceil_def div_le_mono)

text \<open>\<open>Vec::resize(n, 0)\<close>: longer vectors are cut, shorter ones padded with zeros.\<close>

definition resize0 :: "nat \<Rightarrow> bytes \<Rightarrow> bytes" where
  "resize0 n xs = (if n \<le> length xs then take n xs else xs @ replicate (n - length xs) 0)"

lemma length_resize0 [simp]: "length (resize0 n xs) = n"
  by (simp add: resize0_def)

text \<open>
  A slice \<open>&xs[a..b]\<close>: it panics unless \<open>a \<le> b \<le> len\<close>.
  \<open>splice_at\<close> is \<open>xs[a..a + |ys|].copy_from_slice(ys)\<close> once the range is known to fit.
\<close>

definition slice_ok :: "nat \<Rightarrow> nat \<Rightarrow> 'a list \<Rightarrow> bool" where
  "slice_ok a b xs = (a \<le> b \<and> b \<le> length xs)"

definition sub_list :: "nat \<Rightarrow> nat \<Rightarrow> 'a list \<Rightarrow> 'a list" where
  "sub_list a b xs = take (b - a) (drop a xs)"

definition splice_at :: "nat \<Rightarrow> 'a list \<Rightarrow> 'a list \<Rightarrow> 'a list" where
  "splice_at a ys xs = take a xs @ ys @ drop (a + length ys) xs"

lemma length_sub_list [simp]: "slice_ok a b xs \<Longrightarrow> length (sub_list a b xs) = b - a"
  by (auto simp: slice_ok_def sub_list_def)

lemma length_splice_at [simp]:
  "a + length ys \<le> length xs \<Longrightarrow> length (splice_at a ys xs) = length xs"
  by (simp add: splice_at_def)

lemma sub_list_splice_at:
  "a + length ys \<le> length xs \<Longrightarrow> sub_list a (a + length ys) (splice_at a ys xs) = ys"
  by (simp add: sub_list_def splice_at_def)

lemma splice_at_nth_other:
  assumes "a + length ys \<le> length xs" and "i < a \<or> a + length ys \<le> i"
  shows "splice_at a ys xs ! i = xs ! i"
  using assms by (auto simp: splice_at_def nth_append)

end
