(* ===== verification/EvmWord.thy ===== *)
theory EvmWord
  imports Prelude
begin

text \<open>
  The 256-bit words of \<open>evm-common/src/word.rs\<close>. The Rust \<open>Word\<close> wraps the
  256-bit unsigned integer of the \<open>primitive-types\<close> crate; it is the type
  \<^typ>\<open>u256\<close> here. The operators \<open>+\<close>, \<open>-\<close>, \<open>*\<close> of that crate panic
  on overflow and \<open>/\<close>, \<open>%\<close> panic on a zero divisor; the \<open>overflowing_*\<close> methods
  wrap and report; the casts \<open>as_u64\<close>, \<open>as_usize\<close> panic when the value does not fit.
  Each is a result-valued definition below. \<open>from_bytes\<close> takes at most 32 bytes at
  every call site (fixed arrays, \<open>chunks(32)\<close>, 32-byte slices, \<open>PUSH\<close> arguments).
\<close>

unbundle bit_operations_syntax

section \<open>Conversions\<close>

definition into_bytes :: "u256 \<Rightarrow> bytes" where
  "into_bytes w = to_be 32 (unat w)"

definition from_bytes :: "bytes \<Rightarrow> u256" where
  "from_bytes bs = of_nat (be_nat bs)"

definition is_zero :: "u256 \<Rightarrow> bool" where
  "is_zero w = (w = 0)"

definition as_u64 :: "u256 \<Rightarrow> (u64, 'e) res" where
  "as_u64 w = (if unat w < 2 ^ 64 then Ok (ucast w) else Panic)"

text \<open>\<open>self.0.as_u64() as i64\<close>: the bits are reread as two's complement.\<close>

definition as_i64 :: "u256 \<Rightarrow> (int, 'e) res" where
  "as_i64 w = res_bind (as_u64 w) (\<lambda>x. Ok (sint x))"

text \<open>\<open>as_usize\<close> on 64-bit targets, and its saturating variant for 32-bit WASM.\<close>

definition as_usize :: "u256 \<Rightarrow> (nat, 'e) res" where
  "as_usize w = (if unat w < usize_bound then Ok (unat w) else Panic)"

definition as_usize_wasm32 :: "u256 \<Rightarrow> nat" where
  "as_usize_wasm32 w = (if unat w > 4294967295 then 4294967295 else unat w)"

definition word_of_i64 :: "int \<Rightarrow> (u256, 'e) res" where
  "word_of_i64 n = (if n < 0 then Panic else Ok (of_int n))"

definition word_of_usize :: "nat \<Rightarrow> u256" where
  "word_of_usize n = of_nat n"

section \<open>Arithmetic\<close>

definition overflowing_add :: "u256 \<Rightarrow> u256 \<Rightarrow> u256 \<times> bool" where
  "overflowing_add a b = (a + b, 2 ^ 256 \<le> unat a + unat b)"

definition overflowing_mul :: "u256 \<Rightarrow> u256 \<Rightarrow> u256 \<times> bool" where
  "overflowing_mul a b = (a * b, 2 ^ 256 \<le> unat a * unat b)"

definition overflowing_sub :: "u256 \<Rightarrow> u256 \<Rightarrow> u256 \<times> bool" where
  "overflowing_sub a b = (a - b, a < b)"

definition saturating_sub :: "u256 \<Rightarrow> u256 \<Rightarrow> u256" where
  "saturating_sub a b = (if a < b then 0 else a - b)"

definition word_add :: "u256 \<Rightarrow> u256 \<Rightarrow> (u256, 'e) res" where
  "word_add a b = (if snd (overflowing_add a b) then Panic else Ok (a + b))"

definition word_sub :: "u256 \<Rightarrow> u256 \<Rightarrow> (u256, 'e) res" where
  "word_sub a b = (if snd (overflowing_sub a b) then Panic else Ok (a - b))"

definition word_mul :: "u256 \<Rightarrow> u256 \<Rightarrow> (u256, 'e) res" where
  "word_mul a b = (if snd (overflowing_mul a b) then Panic else Ok (a * b))"

definition word_div :: "u256 \<Rightarrow> u256 \<Rightarrow> (u256, 'e) res" where
  "word_div a b = (if b = 0 then Panic else Ok (a div b))"

definition word_rem :: "u256 \<Rightarrow> u256 \<Rightarrow> (u256, 'e) res" where
  "word_rem a b = (if b = 0 then Panic else Ok (a mod b))"

definition word_pow :: "u256 \<Rightarrow> u256 \<Rightarrow> u256" where
  "word_pow a e = a ^ unat e"

definition word_bit :: "u256 \<Rightarrow> nat \<Rightarrow> (bool, 'e) res" where
  "word_bit w i = (if i < 256 then Ok (bit w i) else Panic)"

definition word_shl :: "u256 \<Rightarrow> nat \<Rightarrow> u256" where
  "word_shl w n = push_bit n w"

definition word_shr :: "u256 \<Rightarrow> nat \<Rightarrow> u256" where
  "word_shr w n = drop_bit n w"

text \<open>
  Both modular operations work on 512-bit intermediates (\<open>full_mul\<close>) and keep the
  low 32 of the 64 result bytes.
\<close>

definition mul_modulo :: "u256 \<Rightarrow> u256 \<Rightarrow> u256 \<Rightarrow> (u256, 'e) res" where
  "mul_modulo a b m =
     (if m = 0 then Panic
      else Ok (from_bytes (drop 32 (to_be 64 ((unat a * unat b) mod unat m)))))"

definition add_modulo :: "u256 \<Rightarrow> u256 \<Rightarrow> u256 \<Rightarrow> (u256, 'e) res" where
  "add_modulo a b m =
     (if m = 0 then Panic
      else let a' = unat a * 1; b' = unat b * 1; m' = unat m * 1
           in Ok (from_bytes (drop 32 (to_be 64 ((a' + b') mod m')))))"

section \<open>Reading an ABI-encoded revert reason\<close>

text \<open>\<open>String::from_utf8\<close> of the standard library: well-formed UTF-8 (RFC 3629).\<close>

definition utf8_cont :: "byte \<Rightarrow> bool" where
  "utf8_cont b = (0x80 \<le> b \<and> b \<le> 0xBF)"

fun utf8_valid :: "bytes \<Rightarrow> bool" where
  "utf8_valid [] = True"
| "utf8_valid (b0 # r0) =
     (if b0 < 0x80 then utf8_valid r0
      else case r0 of [] \<Rightarrow> False | b1 # r1 \<Rightarrow>
        (if 0xC2 \<le> b0 \<and> b0 \<le> 0xDF then utf8_cont b1 \<and> utf8_valid r1
         else case r1 of [] \<Rightarrow> False | b2 # r2 \<Rightarrow>
           (if 0xE0 \<le> b0 \<and> b0 \<le> 0xEF then
              (if b0 = 0xE0 then 0xA0 \<le> b1 \<and> b1 \<le> 0xBF
               else if b0 = 0xED then 0x80 \<le> b1 \<and> b1 \<le> 0x9F
               else utf8_cont b1) \<and> utf8_cont b2 \<and> utf8_valid r2
            else case r2 of [] \<Rightarrow> False | b3 # r3 \<Rightarrow>
              (if 0xF0 \<le> b0 \<and> b0 \<le> 0xF4 then
                 (if b0 = 0xF0 then 0x90 \<le> b1 \<and> b1 \<le> 0xBF
                  else if b0 = 0xF4 then 0x80 \<le> b1 \<and> b1 \<le> 0x8F
                  else utf8_cont b1) \<and> utf8_cont b2 \<and> utf8_cont b3 \<and> utf8_valid r3
               else False))))"

definition from_utf8 :: "bytes \<Rightarrow> bytes option" where
  "from_utf8 bs = (if utf8_valid bs then Some bs else None)"

definition decode_error_string :: "bytes \<Rightarrow> (bytes option, 'e) res" where
  "decode_error_string ret =
     (if length ret < 4 + 32 + 32 then Ok None
      else let offset = from_bytes (sub_list 4 (4 + 32) ret) in
        if offset > word_of_usize (length ret) then Ok None
        else res_bind (as_usize offset) (\<lambda>off.
          let offset = 4 + 32 + off;
              size = from_bytes (sub_list (4 + 32) (4 + 32 + 32) ret) in
          if size > word_of_usize (length ret) then Ok None
          else res_bind (as_usize size) (\<lambda>size.
            if offset + size > length ret then Ok None
            else Ok (from_utf8 (sub_list offset (offset + size) ret)))))"

section \<open>Lemmas\<close>

lemma length_into_bytes [simp]: "length (into_bytes w) = 32"
  by (simp add: into_bytes_def)

lemma pow256_32: "(256 :: nat) ^ 32 = 2 ^ 256"
  by (simp add: power_mult [symmetric] flip: power_mult)

lemma unat_u256_lt: "unat (w :: u256) < 2 ^ 256"
  using unsigned_less [of w, where 'a = nat] by simp

lemma from_bytes_into_bytes [simp]: "from_bytes (into_bytes w) = w"
proof -
  have "be_nat (into_bytes w) = unat w"
    using unat_u256_lt [of w] by (simp add: into_bytes_def be_nat_to_be pow256_32)
  then show ?thesis by (simp add: from_bytes_def)
qed

lemma unat_from_bytes:
  assumes "length bs \<le> 32"
  shows "unat (from_bytes bs) = be_nat bs"
proof -
  have "be_nat bs < 256 ^ length bs" by (rule be_nat_lt)
  also have "\<dots> \<le> 256 ^ 32" using assms by (intro power_increasing) auto
  finally have "be_nat bs < 2 ^ 256" by (simp only: pow256_32)
  then show ?thesis by (simp add: from_bytes_def unat_of_nat)
qed

lemma into_bytes_from_bytes [simp]:
  "length bs = 32 \<Longrightarrow> into_bytes (from_bytes bs) = bs"
  using to_be_be_nat [of bs] by (simp add: into_bytes_def unat_from_bytes)

lemma be_nat_drop_to_be:
  "be_nat (drop k (to_be (k + n) x)) = x mod 256 ^ n"
proof -
  have "drop k (to_be (k + n) x) = to_be n x" for x
    by (induction n arbitrary: x) auto
  then show ?thesis by (simp add: be_nat_to_be)
qed

lemma low_half_of_512:
  "x < 2 ^ 256 \<Longrightarrow> unat (from_bytes (drop 32 (to_be 64 x))) = x"
  using be_nat_drop_to_be [of 32 32 x] unat_from_bytes [of "drop 32 (to_be 64 x)"]
  by (simp add: pow256_32)

lemma word_add_Ok_iff: "word_add a b = Ok c \<longleftrightarrow> unat a + unat b < 2 ^ 256 \<and> c = a + b"
  by (auto simp: word_add_def overflowing_add_def)

lemma word_sub_Ok_iff: "word_sub a b = Ok c \<longleftrightarrow> b \<le> a \<and> c = a - b"
  by (auto simp: word_sub_def overflowing_sub_def)

lemma word_mul_Ok_iff: "word_mul a b = Ok c \<longleftrightarrow> unat a * unat b < 2 ^ 256 \<and> c = a * b"
  by (auto simp: word_mul_def overflowing_mul_def)

lemma as_usize_Ok_iff: "as_usize w = Ok n \<longleftrightarrow> n = unat w \<and> n < usize_bound"
  by (auto simp: as_usize_def)

end
