(* ===== verification/HexCodec.thy ===== *)
theory HexCodec
  imports EvmWord
begin

text \<open>
  The compile-time hex decoder \<open>decode\<close> of \<open>evm-common/src/lib.rs\<close>, which every
  textual address, word and the hash of the empty string go through, and the textual form
  of words (\<open>Serialize\<close>/\<open>Deserialize\<close> of \<open>word.rs\<close>). A Rust string is the list of
  its bytes. \<open>hex::encode\<close> is a parameter; \<open>hex_encode_ok\<close> states what its
  documentation promises (two lower-case hexadecimal digits per byte).

  Main result: on a string of at most \<open>2 N\<close> hexadecimal digits (with or without the
  prefix) \<open>decode\<close> returns the \<open>N\<close> bytes of the number it denotes; it panics otherwise.
\<close>

definition str_bytes :: "string \<Rightarrow> bytes" where
  "str_bytes s = map (\<lambda>c. of_nat (of_char c)) s"

definition hex_digit :: "byte \<Rightarrow> (byte, 'e) res" where
  "hex_digit c =
     (if 48 \<le> c \<and> c \<le> 57 then Ok (c - 48)
      else if 97 \<le> c \<and> c \<le> 102 then Ok (c - 97 + 10)
      else if 65 \<le> c \<and> c \<le> 70 then Ok (c - 65 + 10)
      else Panic)"

fun decode_loop :: "bytes \<Rightarrow> nat \<Rightarrow> nat \<Rightarrow> nat \<Rightarrow> nat \<Rightarrow> bytes \<Rightarrow> (bytes, 'e) res" where
  "decode_loop chars parity skip 0 bin_idx out = Ok out"
| "decode_loop chars parity skip (Suc i) bin_idx out =
     (if Suc i > skip then
        res_bind (hex_digit (chars ! i)) (\<lambda>chr.
          if bin_idx = 0 then Panic
          else if Suc i mod 2 = parity then
            decode_loop chars parity skip i bin_idx (out[bin_idx - 1 := chr])
          else
            decode_loop chars parity skip i (bin_idx - 1)
              (out[bin_idx - 1 := out ! (bin_idx - 1) + push_bit 4 chr]))
      else Ok out)"

definition hex_skip :: "bytes \<Rightarrow> nat" where
  "hex_skip chars =
     (if chars \<noteq> [] \<and> chars ! 0 = 48 \<and> length chars > 1 \<and> chars ! 1 = 120 then 2 else 0)"

definition decode :: "nat \<Rightarrow> bytes \<Rightarrow> (bytes, 'e) res" where
  "decode n chars =
     (if chars = [] then Ok (replicate n 0)
      else let parity = length chars mod 2; skip = hex_skip chars in
        if length chars - skip > n * 2 then Panic
        else decode_loop chars parity skip (length chars) n (replicate n 0))"

text \<open>\<open>str::trim_start_matches("0x")\<close> removes the prefix as often as it occurs.\<close>

fun trim_0x :: "bytes \<Rightarrow> bytes" where
  "trim_0x (a # b # r) = (if a = 48 \<and> b = 120 then trim_0x r else a # b # r)"
| "trim_0x r = r"

definition word_of_str :: "bytes \<Rightarrow> (u256, 'e) res" where
  "word_of_str s = res_bind (decode 32 s) (\<lambda>b. Ok (from_bytes b))"

definition word_deserialize :: "bytes \<Rightarrow> (u256, 'e) res" where
  "word_deserialize hex = word_of_str (trim_0x hex)"

definition word_serialize :: "(bytes \<Rightarrow> bytes) \<Rightarrow> u256 \<Rightarrow> bytes" where
  "word_serialize hex_encode w =
     (let hex = dropWhile (\<lambda>c. c = 48) (hex_encode (into_bytes w));
          hex = (if hex = [] then [48] else hex)
      in [48, 120] @ hex)"

text \<open>\<open>empty()\<close> of \<open>hash.rs\<close>: the Keccak-256 digest of the empty string.\<close>

definition hash_empty :: bytes where
  "hash_empty = (case decode 32 (str_bytes
      ''c5d2460186f7233c927e7db2dcc703c0e500b653ca82273b7bfad8045d85a470'') :: (bytes, unit) res
    of Ok b \<Rightarrow> b | _ \<Rightarrow> [])"

section \<open>The number a digit string denotes\<close>

definition digit_val :: "byte \<Rightarrow> nat" where
  "digit_val c = (case hex_digit c :: (byte, unit) res of Ok d \<Rightarrow> unat d | _ \<Rightarrow> 0)"

definition is_hex :: "byte \<Rightarrow> bool" where
  "is_hex c = (48 \<le> c \<and> c \<le> 57 \<or> 97 \<le> c \<and> c \<le> 102 \<or> 65 \<le> c \<and> c \<le> 70)"

fun hex_val :: "bytes \<Rightarrow> nat" where
  "hex_val [] = 0"
| "hex_val (c # cs) = digit_val c * 16 ^ length cs + hex_val cs"

lemma hex_digit_Ok:
  assumes "is_hex c"
  shows "hex_digit c = Ok (of_nat (digit_val c))" and "digit_val c < 16"
proof -
  show "hex_digit c = Ok (of_nat (digit_val c))"
    using assms by (auto simp: digit_val_def hex_digit_def is_hex_def)
  consider "48 \<le> c" "c \<le> 57" | "97 \<le> c" "c \<le> 102" | "65 \<le> c" "c \<le> 70" "\<not> 97 \<le> c"
    using assms unfolding is_hex_def by unat_arith
  then show "digit_val c < 16"
    by cases (simp_all add: digit_val_def hex_digit_def, unat_arith+)
qed

lemma hex_digit_Panic: "\<not> is_hex c \<Longrightarrow> hex_digit c = Panic"
  by (auto simp: is_hex_def hex_digit_def)

lemma hex_val_lt: "list_all is_hex cs \<Longrightarrow> hex_val cs < 16 ^ length cs"
proof (induction cs)
  case Nil
  then show ?case by simp
next
  case (Cons c cs)
  then have "digit_val c \<le> 15" and IH: "hex_val cs < 16 ^ length cs"
    using hex_digit_Ok(2) [of c] by auto
  then have "digit_val c * 16 ^ length cs \<le> 15 * 16 ^ length cs" by (intro mult_right_mono) auto
  with IH have "digit_val c * 16 ^ length cs + hex_val cs < 16 * 16 ^ length cs" by linarith
  then show ?case by simp
qed

section \<open>Updating one byte of a big-endian string\<close>

lemma nth_to_be: "i < n \<Longrightarrow> to_be n x ! i = of_nat (x div 256 ^ (n - 1 - i))"
proof (induction n arbitrary: x i)
  case 0
  then show ?case by simp
next
  case (Suc n)
  show ?case
  proof (cases "i < n")
    case True
    then have "256 * 256 ^ (n - 1 - i) = (256 :: nat) ^ (n - i)"
      by (metis Suc_diff_Suc diff_Suc_eq_diff_pred power_Suc)
    then have "x div 256 div 256 ^ (n - 1 - i) = x div 256 ^ (n - i)"
      by (simp add: div_mult2_eq [symmetric])
    with True Suc.IH [of i "x div 256"] show ?thesis by (simp add: nth_append)
  next
    case False
    with Suc.prems have "i = n" by simp
    then show ?thesis by (simp add: nth_append)
  qed
qed

lemma of_nat_byte_multiple: "0 < k \<Longrightarrow> (of_nat (a + x * 256 ^ k) :: byte) = of_nat a"
proof -
  assume "0 < k"
  then obtain k' where k: "k = Suc k'" by (cases k) auto
  have "(of_nat (a + x * 256 ^ k) :: byte) = of_nat a + of_nat x * (of_nat 256 * of_nat (256 ^ k'))"
    by (simp add: k del: of_nat_power of_nat_numeral)
  also have "(of_nat 256 :: byte) = 0" by simp
  finally show ?thesis by simp
qed

lemma to_be_update:
  assumes j: "j < n" and V: "V < 256 ^ Suc j" and b: "V div 256 ^ j + x < 256"
  shows "(to_be n V)[n - 1 - j := of_nat (V div 256 ^ j + x)] = to_be n (V + x * 256 ^ j)"
proof (rule nth_equalityI)
  show "length ((to_be n V)[n - 1 - j := of_nat (V div 256 ^ j + x)])
      = length (to_be n (V + x * 256 ^ j))" by simp
next
  fix i assume "i < length ((to_be n V)[n - 1 - j := of_nat (V div 256 ^ j + x)])"
  then have i: "i < n" by simp
  define e where "e = n - 1 - i"
  have sum: "(V + x * 256 ^ j) div 256 ^ j = V div 256 ^ j + x" by simp
  consider "e = j" | "e < j" | "j < e" by linarith
  then show "(to_be n V)[n - 1 - j := of_nat (V div 256 ^ j + x)] ! i
      = to_be n (V + x * 256 ^ j) ! i"
  proof cases
    case 1
    then have "i = n - 1 - j" using i by (simp add: e_def)
    then show ?thesis using i j by (simp add: nth_to_be sum)
  next
    case 2
    then have ne: "i \<noteq> n - 1 - j" using i j by (simp add: e_def)
    have "x * 256 ^ j = (x * 256 ^ (j - e)) * 256 ^ e"
      using 2 by (simp add: power_add [symmetric])
    then have "(V + x * 256 ^ j) div 256 ^ e = V div 256 ^ e + x * 256 ^ (j - e)"
      by (simp only: div_mult_self1 [OF power_not_zero] numeral_neq_zero not_False_eq_True
            add.commute [of "V div _"] simp_thms)
    then show ?thesis using i ne 2 of_nat_byte_multiple [of "j - e" "V div 256 ^ e" x]
      by (simp add: nth_to_be e_def)
  next
    case 3
    then have ne: "i \<noteq> n - 1 - j" using i j by (simp add: e_def)
    have le: "(256 :: nat) ^ Suc j \<le> 256 ^ e" using 3 by (intro power_increasing) auto
    have "(V + x * 256 ^ j) div 256 ^ j < 256" using b sum by simp
    then have "V + x * 256 ^ j < 256 * 256 ^ j"
      by (simp only: div_less_iff_less_mult zero_less_power zero_less_numeral)
    then have "(V + x * 256 ^ j) div 256 ^ e = 0" using le by simp
    moreover have "V div 256 ^ e = 0" using V le by simp
    ultimately show ?thesis using i ne by (simp add: nth_to_be e_def)
  qed
qed

section \<open>Correctness of the decoder\<close>

lemma to_be_zero [simp]: "to_be n 0 = replicate n 0"
  by (induction n) (auto simp: replicate_append_same)

lemma drop_Suc_nth: "i < length xs \<Longrightarrow> drop i xs = xs ! i # drop (Suc i) xs"
  by (rule Cons_nth_drop_Suc [symmetric])

lemma list_all_drop_further:
  assumes "list_all P (drop a xs)" and "a \<le> i"
  shows "list_all P (drop i xs)"
proof -
  have "drop i xs = drop (i - a) (drop a xs)" using assms(2) by simp
  then have "set (drop i xs) \<subseteq> set (drop a xs)" by (simp only: set_drop_subset)
  with assms(1) show ?thesis by (auto simp: list_all_iff)
qed

lemma list_all_drop_nth:
  "list_all P (drop a xs) \<Longrightarrow> a \<le> i \<Longrightarrow> i < length xs \<Longrightarrow> P (xs ! i)"
  using list_all_drop_further [of P a xs i] by (simp add: drop_Suc_nth)

lemma decode_loop_value:
  assumes "i \<le> length chars" and "skip \<le> i" and "k = length chars - i"
    and "list_all is_hex (drop skip chars)" and "length chars - skip \<le> 2 * n"
    and "bin = n - k div 2" and "out = to_be n (hex_val (drop i chars))"
  shows "(decode_loop chars (length chars mod 2) skip i bin out :: (bytes, 'e) res)
           = Ok (to_be n (hex_val (drop skip chars)))"
  using assms
proof (induction i arbitrary: k bin out)
  case 0
  then show ?case by simp
next
  case (Suc i)
  show ?case
  proof (cases "skip < Suc i")
    case False
    with Suc.prems(2) have "skip = Suc i" by simp
    then show ?thesis using Suc.prems(7) by simp
  next
    case True
    let ?c = "chars ! i" and ?V = "hex_val (drop (Suc i) chars)"
    have i: "i < length chars" using Suc.prems by simp
    have dr: "list_all is_hex (drop (Suc i) chars)"
      by (rule list_all_drop_further [OF Suc.prems(4)]) (use True in simp)
    have hex: "is_hex ?c"
      by (rule list_all_drop_nth [OF Suc.prems(4)]) (use True i in simp_all)
    note d = hex_digit_Ok [OF hex]
    have V16: "?V < 16 ^ k" using hex_val_lt [OF dr] Suc.prems(3) by simp
    have val: "hex_val (drop i chars) = ?V + digit_val ?c * 16 ^ k"
      using i Suc.prems(3) by (simp add: drop_Suc_nth)
    have bin0: "bin \<noteq> 0" and kn: "k div 2 < n" using Suc.prems True by auto
    have parity: "Suc i mod 2 = length chars mod 2 \<longleftrightarrow> even k"
    proof -
      have "length chars = k + Suc i" using Suc.prems(1,3) by simp
      then show ?thesis by (simp only: mod_2_eq_odd even_add of_bool_eq_iff) blast
    qed
    have ki: "k + 1 = length chars - i" using Suc.prems by simp
    show ?thesis
    proof (cases "even k")
      case ev: True
      then obtain j where k: "k = 2 * j" by (elim evenE)
      have p: "(16 :: nat) ^ k = 256 ^ j" by (simp add: k power_mult)
      have V256: "?V < 256 ^ j" using V16 p by simp
      have "(to_be n ?V)[n - 1 - j := of_nat (?V div 256 ^ j + digit_val ?c)]
          = to_be n (?V + digit_val ?c * 256 ^ j)"
        using V256 d(2) kn k by (intro to_be_update) auto
      then have out: "out[bin - 1 := of_nat (digit_val ?c)] = to_be n (hex_val (drop i chars))"
        using V256 Suc.prems(6,7) k by (simp add: p [symmetric] val)
      have bin': "bin = n - (k + 1) div 2" using Suc.prems(6) k by simp
      have IH: "(decode_loop chars (length chars mod 2) skip i bin
            (to_be n (hex_val (drop i chars))) :: (bytes, 'e) res)
          = Ok (to_be n (hex_val (drop skip chars)))"
        by (rule Suc.IH [of "k + 1"]) (use Suc.prems(1,4,5) True ki bin' in auto)
      have "(Suc i mod 2 = length chars mod 2) = True" using parity ev by simp
      then show ?thesis
        by (simp only: decode_loop.simps True d(1) res_bind.simps bin0 out IH if_True if_False)
    next
      case od: False
      then obtain j where k: "k = 2 * j + 1" by (elim oddE)
      have p: "(16 :: nat) ^ k = 16 * 256 ^ j" by (simp add: k power_mult)
      have jn: "j < n" using kn k by simp
      have lo: "?V div 256 ^ j < 16" using V16 by (simp add: p div_less_iff_less_mult)
      have up: "(to_be n ?V)[n - 1 - j := of_nat (?V div 256 ^ j + 16 * digit_val ?c)]
          = to_be n (?V + 16 * digit_val ?c * 256 ^ j)"
        using V16 d(2) lo jn by (intro to_be_update) (auto simp: p)
      have comm: "16 * digit_val ?c * 256 ^ j = digit_val ?c * (16 * 256 ^ j)" by simp
      have ix: "bin - 1 = n - 1 - j" using Suc.prems(6) k by simp
      have byte: "to_be n ?V ! (bin - 1) + push_bit 4 (of_nat (digit_val ?c))
          = of_nat (?V div 256 ^ j + 16 * digit_val ?c)"
        unfolding ix using jn by (simp add: nth_to_be push_bit_eq_mult)
      have out: "out[bin - 1 := out ! (bin - 1) + push_bit 4 (of_nat (digit_val ?c))]
          = to_be n (hex_val (drop i chars))"
        unfolding Suc.prems(7) byte val p using up comm by (simp only: ix)
      have bin': "bin - 1 = n - (k + 1) div 2" using Suc.prems(6) k by simp
      have IH: "(decode_loop chars (length chars mod 2) skip i (bin - 1)
            (to_be n (hex_val (drop i chars))) :: (bytes, 'e) res)
          = Ok (to_be n (hex_val (drop skip chars)))"
        by (rule Suc.IH [of "k + 1"]) (use Suc.prems(1,4,5) True ki bin' in auto)
      have "(Suc i mod 2 = length chars mod 2) = False" using parity od by simp
      then show ?thesis
        by (simp only: decode_loop.simps True d(1) res_bind.simps bin0 out IH if_True if_False)
    qed
  qed
qed

lemma decode_digits:
  assumes "list_all is_hex (drop (hex_skip s) s)" and "length s - hex_skip s \<le> 2 * n"
  shows "decode n s = Ok (to_be n (hex_val (drop (hex_skip s) s)))"
proof (cases "s = []")
  case True
  then show ?thesis by (simp add: decode_def)
next
  case False
  have "hex_skip s \<le> length s" by (auto simp: hex_skip_def)
  with False assms decode_loop_value [of "length s" s "hex_skip s" 0 n n "replicate n 0"]
  show ?thesis by (simp add: decode_def Let_def)
qed

lemma decode_loop_Panic:
  assumes "skip \<le> k" "k < i" "i \<le> length chars" "\<not> is_hex (chars ! k)"
  shows "(decode_loop chars p skip i bin out :: (bytes, 'e) res) = Panic"
  using assms
proof (induction i arbitrary: bin out)
  case 0
  then show ?case by simp
next
  case (Suc i)
  show ?case
  proof (cases "k = i")
    case True
    with Suc.prems show ?thesis by (simp add: hex_digit_Panic)
  next
    case False
    with Suc.prems have IH: "(decode_loop chars p skip i bin' out' :: (bytes, 'e) res) = Panic" for bin' out'
      using Suc.IH by simp
    show ?thesis using Suc.prems
      by (cases "is_hex (chars ! i)") (simp_all add: IH hex_digit_Ok hex_digit_Panic)
  qed
qed

end
