(* ===== verification/EvmAddress.thy ===== *)
theory EvmAddress
  imports HexCodec
begin

text \<open>
  Addresses (\<open>evm-common/src/address.rs\<close>) and the call record
  (\<open>evm-common/src/call.rs\<close>). The 20-byte array of the source is the 160-bit word
  \<^typ>\<open>addr160\<close>, read and written through its big-endian bytes (\<open>addr_bytes\<close>,
  \<open>addr_of_bytes\<close>). Keccak-256 (\<open>tiny-keccak\<close>) is the parameter \<open>keccak\<close>; where its
  output length matters the hypothesis is that it is 32 bytes.

  The CREATE address is derived from an RLP list; \<open>rlp_list\<close>/\<open>rlp_string\<close> give the
  encoding rules of the yellow paper as a reference.
\<close>

definition addr_bytes :: "addr160 \<Rightarrow> bytes" where
  "addr_bytes a = to_be 20 (unat a)"

definition addr_of_bytes :: "bytes \<Rightarrow> addr160" where
  "addr_of_bytes bs = of_nat (be_nat bs)"

definition addr_zero :: addr160 where
  "addr_zero = addr_of_bytes (replicate 20 0)"

definition addr_is_zero :: "addr160 \<Rightarrow> bool" where
  "addr_is_zero a = list_all (\<lambda>b. b = 0) (addr_bytes a)"

definition word_of_addr :: "addr160 \<Rightarrow> u256" where
  "word_of_addr a = from_bytes (splice_at 12 (addr_bytes a) (replicate 32 0))"

definition addr_of_word :: "u256 \<Rightarrow> addr160" where
  "addr_of_word w = addr_of_bytes (drop 12 (into_bytes w))"

definition addr_as_word :: "addr160 \<Rightarrow> u256" where
  "addr_as_word a = from_bytes (addr_bytes a)"

datatype addr_error = InvalidAddress

definition addr_try_from :: "bytes \<Rightarrow> (addr160, addr_error) res" where
  "addr_try_from v = (if length v \<noteq> 20 then Err InvalidAddress else Ok (addr_of_bytes v))"

definition create2_buffer :: "(bytes \<Rightarrow> bytes) \<Rightarrow> addr160 \<Rightarrow> u256 \<Rightarrow> bytes \<Rightarrow> bytes" where
  "create2_buffer keccak self salt code =
     [0xff] @ addr_bytes self @ into_bytes salt @ keccak code"

definition addr_create2 :: "(bytes \<Rightarrow> bytes) \<Rightarrow> addr160 \<Rightarrow> u256 \<Rightarrow> bytes \<Rightarrow> addr160" where
  "addr_create2 keccak self salt code =
     (let hash = keccak (create2_buffer keccak self salt code);
          hash = splice_at 0 (replicate 12 0) hash
      in addr_of_word (from_bytes hash))"

definition create_buffer :: "addr160 \<Rightarrow> u256 \<Rightarrow> bytes" where
  "create_buffer self nonce =
     (let address_bytes = addr_bytes self;
          nonce_bytes = dropWhile (\<lambda>b. b = 0) (into_bytes nonce);
          nonce_encoding_len =
            (if nonce_bytes = [] \<or> length nonce_bytes = 1 \<and> nonce_bytes ! 0 < 0x80 then 1
             else 1 + length nonce_bytes);
          payload_len = 1 + length address_bytes + nonce_encoding_len;
          buffer = [0xc0 + of_nat payload_len] @ [0x80 + of_nat (length address_bytes)]
                     @ address_bytes
      in if nonce_bytes = [] then buffer @ [0x80]
         else if length nonce_bytes = 1 \<and> nonce_bytes ! 0 < 0x80 then
           buffer @ [nonce_bytes ! 0]
         else buffer @ [0x80 + of_nat (length nonce_bytes)] @ nonce_bytes)"

definition addr_create :: "(bytes \<Rightarrow> bytes) \<Rightarrow> addr160 \<Rightarrow> u256 \<Rightarrow> addr160" where
  "addr_create keccak self nonce =
     addr_of_bytes (sub_list 12 32 (keccak (create_buffer self nonce)))"

definition addr_of_str :: "bytes \<Rightarrow> (addr160, 'e) res" where
  "addr_of_str s = res_bind (decode 20 s) (\<lambda>b. Ok (addr_of_bytes b))"

record call =
  c_data :: bytes
  c_value :: u256
  c_from :: addr160
  c_to :: addr160
  c_gas :: u256

section \<open>Reference: recursive length prefix encoding\<close>

text \<open>Strings and lists with a payload below 56 bytes, which is all an address and a nonce need.\<close>

definition rlp_string :: "bytes \<Rightarrow> bytes" where
  "rlp_string bs =
     (if length bs = 1 \<and> hd bs < 0x80 then bs else (0x80 + of_nat (length bs)) # bs)"

definition rlp_list :: "bytes list \<Rightarrow> bytes" where
  "rlp_list items = (let payload = concat items in (0xc0 + of_nat (length payload)) # payload)"

definition minimal_bytes :: "nat \<Rightarrow> bytes" where
  "minimal_bytes n = dropWhile (\<lambda>b. b = 0) (to_be 32 n)"

section \<open>Lemmas\<close>

lemma length_addr_bytes [simp]: "length (addr_bytes a) = 20"
  by (simp add: addr_bytes_def)

lemma unat_addr_lt: "unat (a :: addr160) < 2 ^ 160"
  using unsigned_less [of a, where 'a = nat] by simp

lemma pow256_20: "(256 :: nat) ^ 20 = 2 ^ 160"
  by (simp add: power_mult [symmetric] flip: power_mult)

lemma be_nat_addr_bytes [simp]: "be_nat (addr_bytes a) = unat a"
  using unat_addr_lt [of a] by (simp add: addr_bytes_def be_nat_to_be pow256_20)

lemma addr_of_bytes_inverse [simp]: "addr_of_bytes (addr_bytes a) = a"
  by (simp add: addr_of_bytes_def)

lemma addr_bytes_inverse:
  assumes "length bs = 20"
  shows "addr_bytes (addr_of_bytes bs) = bs"
proof -
  have "be_nat bs < 2 ^ 160" using be_nat_lt [of bs] assms pow256_20 by simp
  then have "unat (addr_of_bytes bs) = be_nat bs"
    by (simp add: addr_of_bytes_def unat_of_nat)
  then show ?thesis using to_be_be_nat [of bs] assms by (simp add: addr_bytes_def)
qed

lemma word_of_addr_bytes: "into_bytes (word_of_addr a) = replicate 12 0 @ addr_bytes a"
proof -
  have "splice_at 12 (addr_bytes a) (replicate 32 0) = replicate 12 0 @ addr_bytes a"
    by (simp add: splice_at_def)
  then show ?thesis by (simp add: word_of_addr_def)
qed

lemma addr_of_word_of_addr [simp]: "addr_of_word (word_of_addr a) = a"
  by (simp add: addr_of_word_def word_of_addr_bytes)

lemma unat_word_of_addr: "unat (word_of_addr a) = unat a"
proof -
  have "word_of_addr a = from_bytes (replicate 12 0 @ addr_bytes a)"
    by (metis from_bytes_into_bytes word_of_addr_bytes)
  then show ?thesis by (simp add: unat_from_bytes be_nat_zeros_append)
qed

lemma addr_of_word_unat: "unat (addr_of_word w) = unat w mod 2 ^ 160"
proof -
  have "be_nat (drop 12 (into_bytes w)) = unat w mod 2 ^ 160"
    using be_nat_drop_to_be [of 12 20 "unat w"] by (simp add: into_bytes_def pow256_20)
  then show ?thesis by (simp add: addr_of_word_def addr_of_bytes_def unat_of_nat)
qed

lemma be_nat_eq_0_iff: "be_nat bs = 0 \<longleftrightarrow> list_all (\<lambda>b. b = 0) bs"
  by (induction bs rule: rev_induct) (auto simp: unat_eq_0)

lemma addr_is_zero_iff: "addr_is_zero a \<longleftrightarrow> a = 0"
  using be_nat_eq_0_iff [of "addr_bytes a"] by (simp add: addr_is_zero_def unat_eq_0)

lemma addr_zero_eq: "addr_zero = 0"
  by (simp add: addr_zero_def addr_of_bytes_def)

lemma length_minimal_bytes: "length (minimal_bytes n) \<le> 32"
  using length_dropWhile_le [of "\<lambda>b. b = 0" "to_be 32 n"] by (simp add: minimal_bytes_def)

lemma create_buffer_is_rlp:
  "create_buffer self nonce
     = rlp_list [rlp_string (addr_bytes self), rlp_string (minimal_bytes (unat nonce))]"
proof -
  define nb where "nb = minimal_bytes (unat nonce)"
  have nb: "dropWhile (\<lambda>b. b = 0) (into_bytes nonce) = nb"
    by (simp add: nb_def minimal_bytes_def into_bytes_def)
  consider "nb = []" | b where "nb = [b]" "b < 0x80" | "nb \<noteq> []" "\<not> (length nb = 1 \<and> nb ! 0 < 0x80)"
    by (cases nb; cases "tl nb") force+
  then show ?thesis
  proof cases
    case 1
    then show ?thesis unfolding create_buffer_def nb nb_def [symmetric]
      by (simp add: rlp_list_def rlp_string_def)
  next
    case 2
    then show ?thesis unfolding create_buffer_def nb nb_def [symmetric]
      by (simp add: rlp_list_def rlp_string_def)
  next
    case 3
    then have "\<not> (length nb = 1 \<and> hd nb < 0x80)" by (simp add: hd_conv_nth)
    with 3 show ?thesis unfolding create_buffer_def nb nb_def [symmetric]
      by (simp add: rlp_list_def rlp_string_def Let_def del: One_nat_def)
  qed
qed

end
