(* ===== verification/EvmBlock.thy ===== *)
theory EvmBlock
  imports EvmAddress
begin

text \<open>
  Block headers and transactions (\<open>evm-common/src/block.rs\<close>): the records, the
  effective gas price, and the blob gas price with its \<open>u128\<close> loop
  \<open>fake_exponential\<close>. The loop is a \<open>partial_function (option)\<close>; \<open>None\<close> would mean
  that it never ends, and \<open>fake_exp_loop_returns\<close> shows that it always ends for the
  64-bit factors the caller passes. \<open>checks\<close> says whether the build has arithmetic
  overflow checks (a panic) or not (wrap-around).
\<close>

record access_list_item =
  al_address :: addr160
  al_storage_keys :: "u256 list"

record tx_gas =
  tg_price :: "u256 option"
  tg_max_fee :: "u256 option"
  tg_max_priority_fee :: "u256 option"
  tg_max_fee_per_blob :: "u256 option"

record tx =
  tx_hash :: u256
  tx_index :: u256
  tx_from :: addr160
  tx_gas_limit :: u256
  tx_input :: bytes
  tx_to :: "addr160 option"
  tx_value :: u256
  tx_gas_info :: tx_gas
  tx_blob_versioned_hashes :: "u256 list option"
  tx_access_list :: "access_list_item list"

definition effective_gas_price :: "tx \<Rightarrow> u256 \<Rightarrow> (u256, 'e) res" where
  "effective_gas_price t base_fee =
     (case (tg_max_fee (tx_gas_info t), tg_max_priority_fee (tx_gas_info t)) of
        (Some max_fee, Some max_priority) \<Rightarrow>
          res_bind (word_add base_fee max_priority) (\<lambda>base_plus_priority.
            Ok (min max_fee base_plus_priority))
      | _ \<Rightarrow> Ok (case tg_price (tx_gas_info t) of Some p \<Rightarrow> p | None \<Rightarrow> 0))"

definition is_blob_transaction :: "tx \<Rightarrow> bool" where
  "is_blob_transaction t =
     (case tx_blob_versioned_hashes t of Some h \<Rightarrow> h \<noteq> [] | None \<Rightarrow> False)"

definition blob_count :: "tx \<Rightarrow> nat" where
  "blob_count t = (case tx_blob_versioned_hashes t of Some h \<Rightarrow> length h | None \<Rightarrow> 0)"

record header =
  h_number :: u256
  h_hash :: u256
  h_size :: u256
  h_timestamp :: u256
  h_base_fee :: u256
  h_state_root :: u256
  h_mix_hash :: u256
  h_parent_hash :: u256
  h_gas_limit :: u256
  h_gas_used :: u256
  h_blob_gas_used :: u256
  h_excess_blob_gas :: u256
  h_extra_data :: u256
  h_miner :: addr160

abbreviation u128_max :: nat where
  "u128_max \<equiv> 340282366920938463463374607431768211455"

definition sat_mul128 :: "nat \<Rightarrow> nat \<Rightarrow> nat" where
  "sat_mul128 a b = min (a * b) u128_max"

partial_function (option) fake_exp_loop ::
    "bool \<Rightarrow> nat \<Rightarrow> nat \<Rightarrow> nat \<Rightarrow> nat \<Rightarrow> nat \<Rightarrow> (nat, 'e) res option" where
  "fake_exp_loop checks factor denominator out numerator i =
     (if 0 < numerator then
        (if u128_max < out + numerator \<and> checks then Some Panic
         else if sat_mul128 denominator i = 0 then Some Panic
         else if i = u128_max \<and> checks then Some Panic
         else fake_exp_loop checks factor denominator
                ((out + numerator) mod (u128_max + 1))
                (sat_mul128 numerator factor div sat_mul128 denominator i)
                ((i + 1) mod (u128_max + 1)))
      else Some (Ok out))"

declare fake_exp_loop.simps [code]

definition fake_exponential :: "bool \<Rightarrow> nat \<Rightarrow> nat \<Rightarrow> (u256, 'e) res" where
  "fake_exponential checks factor denominator =
     (case fake_exp_loop checks factor denominator 0 denominator 1 of
        None \<Rightarrow> OutOfFuel
      | Some r \<Rightarrow> res_bind r (\<lambda>out.
          if denominator = 0 then Panic else Ok (of_nat (out div denominator))))"

definition blob_gas_price :: "bool \<Rightarrow> header \<Rightarrow> (u256, 'e) res" where
  "blob_gas_price checks h =
     (if h_excess_blob_gas h = 0 then Ok 1
      else res_bind (as_u64 (h_excess_blob_gas h)) (\<lambda>factor.
        fake_exponential checks (unat factor) 3338477))"

section \<open>The loop ends\<close>

lemma sat_mul128_ge:
  assumes "0 < d" "2 ^ 65 \<le> i"
  shows "2 ^ 65 \<le> sat_mul128 d i"
proof -
  have "1 * i \<le> d * i" using assms(1) by (intro mult_le_mono1) simp
  then have "2 ^ 65 \<le> d * i" using assms(2) by linarith
  then show ?thesis by (simp add: sat_mul128_def)
qed

lemma div_le_mono_both:
  "(x :: nat) \<le> X \<Longrightarrow> Y \<le> y \<Longrightarrow> 0 < Y \<Longrightarrow> x div y \<le> X div Y"
  by (meson div_le_mono div_le_mono2 order_trans)

lemma fake_exp_late:
  assumes "0 < d" "factor < 2 ^ 64" "2 ^ 65 \<le> i" "num < 2 ^ 64" "i + num < u128_max"
  shows "\<exists>r :: (nat, 'e) res. fake_exp_loop checks factor d out num i = Some r"
  using assms
proof (induction num arbitrary: out i rule: less_induct)
  case (less num)
  show ?case
  proof (cases "num = 0")
    case True
    then show ?thesis by (simp add: fake_exp_loop.simps)
  next
    case False
    let ?n = "sat_mul128 num factor div sat_mul128 d i"
    have di: "2 ^ 65 \<le> sat_mul128 d i" using less.prems(1,3) by (rule sat_mul128_ge)
    have "sat_mul128 num factor \<le> num * 2 ^ 64"
      using less.prems(2) by (simp add: sat_mul128_def min_le_iff_disj)
    then have "?n \<le> num * 2 ^ 64 div 2 ^ 65"
      using di by (intro div_le_mono_both) simp_all
    then have lt: "?n < num" using False by simp
    have i: "(i + 1) mod (u128_max + 1) = i + 1" using less.prems(5) by simp
    have "\<exists>r :: (nat, 'e) res. fake_exp_loop checks factor d ((out + num) mod (u128_max + 1)) ?n (i + 1) = Some r"
      using lt less.prems by (intro less.IH) auto
    then show ?thesis
      using False by (subst fake_exp_loop.simps) (simp only: i, simp)
  qed
qed

lemma fake_exp_turn:
  assumes "0 < d" "factor < 2 ^ 64" "2 ^ 65 \<le> i" "i \<le> 2 ^ 66"
  shows "\<exists>r :: (nat, 'e) res. fake_exp_loop checks factor d out num i = Some r"
proof (cases "num = 0")
  case True
  then show ?thesis by (simp add: fake_exp_loop.simps)
next
  case False
  let ?n = "sat_mul128 num factor div sat_mul128 d i"
  have "2 ^ 65 \<le> sat_mul128 d i" using assms(1,3) by (rule sat_mul128_ge)
  then have "?n \<le> u128_max div 2 ^ 65"
    by (intro div_le_mono_both) (simp_all add: sat_mul128_def)
  then have "?n < 2 ^ 64" by simp
  then have "\<exists>r :: (nat, 'e) res. fake_exp_loop checks factor d ((out + num) mod (u128_max + 1)) ?n (i + 1) = Some r"
    using assms by (intro fake_exp_late) auto
  moreover have "(i + 1) mod (u128_max + 1) = i + 1" using assms(4) by simp
  ultimately show ?thesis using False by (subst fake_exp_loop.simps) simp
qed

lemma fake_exp_loop_returns:
  assumes "0 < d" "factor < 2 ^ 64" "0 < i" "i \<le> 2 ^ 65"
  shows "\<exists>r :: (nat, 'e) res. fake_exp_loop checks factor d out num i = Some r"
  using assms
proof (induction "2 ^ 65 - i" arbitrary: i out num)
  case 0
  then show ?case by (intro fake_exp_turn) auto
next
  case (Suc k)
  show ?case
  proof (cases "num = 0")
    case True
    then show ?thesis by (simp add: fake_exp_loop.simps)
  next
    case False
    have i: "(i + 1) mod (u128_max + 1) = i + 1" using Suc.prems(4) by simp
    have "\<exists>r :: (nat, 'e) res. fake_exp_loop checks factor d ((out + num) mod (u128_max + 1))
        (sat_mul128 num factor div sat_mul128 d i) (i + 1) = Some r"
      using Suc.prems Suc.hyps(2) by (intro Suc.hyps(1)) auto
    then show ?thesis using False by (subst fake_exp_loop.simps) (simp only: i, simp)
  qed
qed

lemma fake_exp_loop_ge:
  "fake_exp_loop True factor d out num i = Some (Ok r :: (nat, 'e) res) \<Longrightarrow> out \<le> u128_max \<Longrightarrow>
     out + num \<le> r"
proof -
  assume "fake_exp_loop True factor d out num i = Some (Ok r :: (nat, 'e) res)" and "out \<le> u128_max"
  moreover have "\<forall>r. res = Ok r \<longrightarrow> checks \<longrightarrow> out \<le> u128_max \<longrightarrow> out + num \<le> r"
    if "fake_exp_loop checks factor d out num i = Some res" for checks and res :: "(nat, 'e) res"
  proof (rule fake_exp_loop.raw_induct [where P = "\<lambda>checks factor d out num i res.
      \<forall>r. res = Ok r \<longrightarrow> checks \<longrightarrow> out \<le> u128_max \<longrightarrow> out + num \<le> r", OF _ that])
    fix f :: "bool \<Rightarrow> nat \<Rightarrow> nat \<Rightarrow> nat \<Rightarrow> nat \<Rightarrow> nat \<Rightarrow> (nat, 'e) res option"
      and checks :: bool and factor d out num i :: nat and res :: "(nat, 'e) res"
    assume IH: "\<And>checks factor d out num i res. f checks factor d out num i = Some res \<Longrightarrow>
        \<forall>r. res = Ok r \<longrightarrow> checks \<longrightarrow> out \<le> u128_max \<longrightarrow> out + num \<le> r"
      and eq: "(if 0 < num then if u128_max < out + num \<and> checks then Some Panic
          else if sat_mul128 d i = 0 then Some Panic
          else if i = u128_max \<and> checks then Some Panic
          else f checks factor d ((out + num) mod (u128_max + 1))
             (sat_mul128 num factor div sat_mul128 d i) ((i + 1) mod (u128_max + 1))
        else Some (Ok out)) = Some res"
    show "\<forall>r. res = Ok r \<longrightarrow> checks \<longrightarrow> out \<le> u128_max \<longrightarrow> out + num \<le> r"
    proof (intro allI impI)
      fix r assume r: "res = Ok r" "checks" "out \<le> u128_max"
      show "out + num \<le> r"
      proof (cases "num = 0")
        case True
        with eq r show ?thesis by simp
      next
        case False
        with eq r have le: "out + num \<le> u128_max"
          and "f checks factor d ((out + num) mod (u128_max + 1))
             (sat_mul128 num factor div sat_mul128 d i) ((i + 1) mod (u128_max + 1)) = Some res"
          by (auto split: if_splits)
        from IH [OF this(2)] r le show ?thesis by auto
      qed
    qed
  qed
  ultimately show ?thesis by blast
qed

lemma fake_exp_loop_le:
  assumes "fake_exp_loop checks factor d out num i = Some (Ok r :: (nat, 'e) res)" "out \<le> u128_max"
  shows "r \<le> u128_max"
proof -
  have "\<forall>r. res = Ok r \<longrightarrow> out \<le> u128_max \<longrightarrow> r \<le> u128_max"
    if "fake_exp_loop checks factor d out num i = Some res" for res :: "(nat, 'e) res"
  proof (rule fake_exp_loop.raw_induct [where P = "\<lambda>_ _ _ out _ _ res.
      \<forall>r. res = Ok r \<longrightarrow> out \<le> u128_max \<longrightarrow> r \<le> u128_max", OF _ that])
    fix f :: "bool \<Rightarrow> nat \<Rightarrow> nat \<Rightarrow> nat \<Rightarrow> nat \<Rightarrow> nat \<Rightarrow> (nat, 'e) res option"
      and checks factor d out num i and res :: "(nat, 'e) res"
    assume IH: "\<And>checks factor d out num i res. f checks factor d out num i = Some res \<Longrightarrow>
        \<forall>r. res = Ok r \<longrightarrow> out \<le> u128_max \<longrightarrow> r \<le> u128_max"
      and eq: "(if 0 < num then if u128_max < out + num \<and> checks then Some Panic
          else if sat_mul128 d i = 0 then Some Panic
          else if i = u128_max \<and> checks then Some Panic
          else f checks factor d ((out + num) mod (u128_max + 1))
             (sat_mul128 num factor div sat_mul128 d i) ((i + 1) mod (u128_max + 1))
        else Some (Ok out)) = Some res"
    have "(out + num) mod (u128_max + 1) \<le> u128_max"
      using mod_less_divisor [of "u128_max + 1" "out + num"] by linarith
    with eq IH [of checks factor d "(out + num) mod (u128_max + 1)"]
    show "\<forall>r. res = Ok r \<longrightarrow> out \<le> u128_max \<longrightarrow> r \<le> u128_max"
      by (auto split: if_splits)
  qed
  with assms show ?thesis by blast
qed

lemma fake_exponential_fuel:
  assumes "factor < 2 ^ 64" "0 < d"
  shows "fake_exponential checks factor d \<noteq> (OutOfFuel :: (u256, 'e) res)"
proof -
  obtain r :: "(nat, 'e) res" where r: "fake_exp_loop checks factor d 0 d 1 = Some r"
    using fake_exp_loop_returns [of d factor 1 checks 0 d, where ?'e = 'e] assms by auto
  have "r \<noteq> OutOfFuel"
  proof (rule fake_exp_loop.raw_induct [where P = "\<lambda>_ _ _ _ _ _ r. r \<noteq> OutOfFuel", OF _ r])
    fix f :: "bool \<Rightarrow> nat \<Rightarrow> nat \<Rightarrow> nat \<Rightarrow> nat \<Rightarrow> nat \<Rightarrow> (nat, 'e) res option"
      and checks factor d out num i and res :: "(nat, 'e) res"
    assume "\<And>checks factor d out num i r. f checks factor d out num i = Some r \<Longrightarrow> r \<noteq> OutOfFuel"
      and "(if 0 < num then if u128_max < out + num \<and> checks then Some Panic
          else if sat_mul128 d i = 0 then Some Panic
          else if i = u128_max \<and> checks then Some Panic
          else f checks factor d ((out + num) mod (u128_max + 1))
             (sat_mul128 num factor div sat_mul128 d i) ((i + 1) mod (u128_max + 1))
        else Some (Ok out)) = Some res"
    then show "res \<noteq> OutOfFuel" by (auto split: if_splits)
  qed
  then show ?thesis using r by (cases r) (auto simp: fake_exponential_def)
qed

lemma blob_gas_price_fuel [simp]: "blob_gas_price checks h \<noteq> OutOfFuel"
proof -
  have "unat (f :: u64) < 2 ^ 64" for f using unsigned_less [of f, where 'a = nat] by simp
  then show ?thesis
    by (auto simp: blob_gas_price_def as_u64_def fake_exponential_fuel)
qed

end
