(* ===== verification/EvmEvent.thy ===== *)
theory EvmEvent
  imports EvmAddress
begin

text \<open>
  The trace events of \<open>evm-event/src/lib.rs\<close> and the tracers of \<open>src/tracer.rs\<close>.
  The \<open>debug\<close> JSON payload of \<open>OpCode\<close>, which its own \<open>PartialEq\<close> ignores, and the
  serialisation attributes are left out; \<open>Hex\<close> payloads are their bytes. The interface
  \<open>EventTracer\<close> is the locale \<open>event_tracer\<close>, with the default method \<open>join\<close>
  defined from \<open>push\<close> and \<open>take\<close>; the recording tracer \<open>LoggingTracer\<close> is its
  interpretation.
\<close>

datatype call_type =
  CT_Call | CT_Create | CT_Create2 | CT_Static | CT_Delegate | CT_Callcode | CT_Precompile addr160

datatype state_event =
  SE_Get addr160 u256 u256
| SE_Put addr160 u256 u256 u256 int

datatype account_event =
  AE_GetCode addr160 u256 bytes
| AE_Create addr160 addr160 u256 u256 u256 bytes
| AE_SetNonce addr160 u64 u64
| AE_SetValue addr160 u256 u256

datatype event_tag = ET_Block nat u256 | ET_Tx u256

datatype halt_reason = HR_InvalidOpcode | HR_OutOfGas

datatype hash_alg = HA_Keccak256

record opcode_event =
  oe_pc :: nat
  oe_op :: byte
  oe_name :: string
  oe_data :: "bytes option"
  oe_gas_cost :: int
  oe_gas_used :: int
  oe_gas_left :: int
  oe_gas_back :: int
  oe_stack :: "u256 list"
  oe_memory :: "u256 list"

datatype event_data =
  ED_Tag event_tag
| ED_Halt halt_reason
| ED_OpCode opcode_event
| ED_Hash bytes bytes hash_alg
| ED_State state_event
| ED_Account account_event
| ED_Call call_type bytes u256 addr160 addr160 u256
| ED_Return bool bytes "bytes option" int
| ED_Created addr160 bytes u256
| ED_SelfDestruct addr160 addr160 u256
| ED_Log addr160 "u256 list" bytes
| ED_Fee u256 u256 u256

record event =
  ev_data :: event_data
  ev_depth :: nat
  ev_reverted :: bool

section \<open>Tracers\<close>

text \<open>\<open>EventTracer::join\<close>: the events of the finished inner tracer, marked with its outcome.\<close>

definition mark_event :: "bool \<Rightarrow> event \<Rightarrow> event" where
  "mark_event r e = e\<lparr>ev_reverted := r\<rparr>"

definition tracer_join ::
    "('t \<Rightarrow> event \<Rightarrow> 't) \<Rightarrow> ('t \<Rightarrow> event list \<times> 't) \<Rightarrow> 't \<Rightarrow> 't \<Rightarrow> bool \<Rightarrow> 't" where
  "tracer_join push take_all self other reverted =
     foldl (\<lambda>t e. push t (mark_event reverted e)) self (fst (take_all other))"

text \<open>\<open>LoggingTracer(Vec<Event>)\<close>.\<close>

type_synonym trace = "event list"

definition log_push :: "trace \<Rightarrow> event \<Rightarrow> trace" where
  "log_push t e = t @ [e]"

definition log_peek :: "trace \<Rightarrow> event list" where
  "log_peek t = t"

definition log_take :: "trace \<Rightarrow> event list \<times> trace" where
  "log_take t = (t, [])"

definition log_fork :: "trace \<Rightarrow> trace" where
  "log_fork t = []"

definition log_join :: "trace \<Rightarrow> trace \<Rightarrow> bool \<Rightarrow> trace" where
  "log_join = tracer_join log_push log_take"

locale event_tracer =
  fixes push :: "'t \<Rightarrow> event \<Rightarrow> 't"
    and peek :: "'t \<Rightarrow> event list"
    and take_all :: "'t \<Rightarrow> event list \<times> 't"
    and fork :: "'t \<Rightarrow> 't"
  assumes peek_push: "peek (push t e) = peek t @ [e]"
    and take_events: "fst (take_all t) = peek t"
    and take_empties: "peek (snd (take_all t)) = []"
    and fork_empty: "peek (fork t) = []"
begin

lemma peek_foldl_push:
  "peek (foldl (\<lambda>t e. push t (f e)) t es) = peek t @ map f es"
  by (induction es arbitrary: t) (simp_all add: peek_push)

lemma peek_join:
  "peek (tracer_join push take_all t u r) = peek t @ map (mark_event r) (peek u)"
  by (simp add: tracer_join_def peek_foldl_push take_events)

lemma join_marks_all:
  "e \<in> set (drop (length (peek t)) (peek (tracer_join push take_all t u r))) \<Longrightarrow>
    ev_reverted e = r"
  by (auto simp: peek_join mark_event_def)

lemma join_keeps_data:
  "map ev_data (peek (tracer_join push take_all t u r)) = map ev_data (peek t) @ map ev_data (peek u)"
  by (simp add: peek_join mark_event_def)

end

interpretation logging: event_tracer log_push log_peek log_take log_fork
  by unfold_locales (simp_all add: log_push_def log_peek_def log_take_def log_fork_def)

lemma log_join_eq: "log_join t u r = t @ map (mark_event r) u"
  using logging.peek_join [of t u r] by (simp add: log_join_def log_peek_def)

end
