(* ===== verification/Host.thy ===== *)
theory Host
  imports EvmBlock EvmEvent
begin

text \<open>
  What the executor takes from outside the repository: the build (arithmetic overflow
  checks, the \<open>tracing\<close> cargo feature) and third-party functions (Keccak-256 of
  \<open>tiny-keccak\<close>, the arithmetic shift of the \<open>i256\<close> crate, and the cryptography
  behind the precompiled contracts). They are the fields of the record \<open>host\<close>, an
  argument of every definition that needs one of them; \<open>host_ok\<close> states the documented
  behaviour that some theorems rely on, and \<open>demo_host\<close> is a concrete instance that
  satisfies it.

  The error type of the executor and the checked \<open>usize\<close> addition live here too.
\<close>

datatype exec_error =
  StackOverflow
| StackUnderflow
| CallDepthLimitReached
| OutOfMemory nat
| InvalidJump nat
| MissingData
| WrongReturnDataSize nat nat
| InvalidOpcode byte
| UnknownOpcode byte
| OutOfGas
| InsufficientFunds u256 u256
| StaticCallViolation byte
| InvalidAllocation nat
| PullFailed addr160 \<comment> \<open>\<open>eyre::bail!("failed to pull account ...")\<close>\<close>
| RpcFailed \<comment> \<open>any error of the remote JSON-RPC node\<close>
| PrecompileFailed \<comment> \<open>any error returned by a precompiled contract\<close>

record host =
  overflow_checks :: bool
  tracing_feature :: bool
  keccak256 :: "bytes \<Rightarrow> bytes"
  i256_div :: "u256 \<Rightarrow> u256 \<Rightarrow> u256 option"
  i256_rem :: "u256 \<Rightarrow> u256 \<Rightarrow> u256 option"
  i256_shr :: "u256 \<Rightarrow> nat \<Rightarrow> u256 option"
    \<comment> \<open>\<open>I256 / I256\<close>, \<open>I256 % I256\<close>, \<open>I256 >> usize\<close>, on the two's complement bits;
      \<open>None\<close> is a panic\<close>
  hp_recover :: "bytes \<Rightarrow> bytes \<Rightarrow> byte \<Rightarrow> bytes option"
    \<comment> \<open>k256: message hash, 64-byte signature, recovery id; the 65-byte uncompressed key\<close>
  hp_sha256 :: "bytes \<Rightarrow> bytes"
  hp_ripemd160 :: "bytes \<Rightarrow> bytes"
  hp_p256_verify :: "bytes \<Rightarrow> bytes \<Rightarrow> bytes \<Rightarrow> bytes \<Rightarrow> bytes \<Rightarrow> bool"
    \<comment> \<open>p256: message hash, r, s, x, y\<close>
  bn_fq_modulus :: nat
  bn_fr_modulus :: nat
    \<comment> \<open>ark-bn254: the moduli of \<open>Fq\<close> and \<open>Fr\<close>\<close>
  hp_bn_add :: "(nat \<times> nat) option \<Rightarrow> (nat \<times> nat) option \<Rightarrow> (nat \<times> nat) option option"
    \<comment> \<open>ark-bn254 on affine coordinates, \<open>None\<close> the point at infinity; no result when
      \<open>G1Affine::new\<close> rejects a point (a panic)\<close>
  hp_bn_mul :: "(nat \<times> nat) option \<Rightarrow> nat \<Rightarrow> (nat \<times> nat) option option"
  hp_bn_pairing ::
    "((nat \<times> nat) option \<times> (nat \<times> nat \<times> nat \<times> nat) option) list \<Rightarrow> bool option"
  bls_g1_decompress :: "bytes \<Rightarrow> bytes option"
  bls_fr :: "bytes \<Rightarrow> nat"
  bls_g1_generator :: bytes
  bls_g2_generator :: bytes
  bls_g1_mul :: "bytes \<Rightarrow> nat \<Rightarrow> bytes"
  bls_g2_mul :: "bytes \<Rightarrow> nat \<Rightarrow> bytes"
  bls_g1_sub :: "bytes \<Rightarrow> bytes \<Rightarrow> bytes"
  bls_g2_sub :: "bytes \<Rightarrow> bytes \<Rightarrow> bytes"
  bls_pairing :: "bytes \<Rightarrow> bytes \<Rightarrow> bytes"
    \<comment> \<open>ark-bls12-381; group elements are named by their canonical encoding\<close>

text \<open>Division that truncates towards zero, as Rust's \<open>/\<close> and \<open>%\<close> on signed integers.\<close>

definition trunc_div :: "int \<Rightarrow> int \<Rightarrow> int" where
  "trunc_div a b = sgn a * sgn b * (\<bar>a\<bar> div \<bar>b\<bar>)"

definition trunc_rem :: "int \<Rightarrow> int \<Rightarrow> int" where
  "trunc_rem a b = sgn a * (\<bar>a\<bar> mod \<bar>b\<bar>)"

definition host_ok :: "host \<Rightarrow> bool" where
  "host_ok H \<longleftrightarrow>
     (\<forall>bs. length (keccak256 H bs) = 32) \<and>
     (\<forall>a b. b \<noteq> 0 \<longrightarrow> \<not> (sint a = - (2 ^ 255) \<and> sint b = - 1) \<longrightarrow>
        i256_div H a b = Some (word_of_int (trunc_div (sint a) (sint b))) \<and>
        i256_rem H a b = Some (word_of_int (trunc_rem (sint a) (sint b)))) \<and>
     (\<forall>w n. n < 256 \<longrightarrow> i256_shr H w n = Some (signed_drop_bit n w)) \<and>
     (\<forall>bs. length (hp_sha256 H bs) = 32) \<and>
     (\<forall>bs. length (hp_ripemd160 H bs) = 20)"

definition demo_host :: host where
  "demo_host = \<lparr>
     overflow_checks = True,
     tracing_feature = True,
     keccak256 = (\<lambda>bs. to_be 32 (be_nat bs)),
     i256_div = (\<lambda>a b. Some (word_of_int (trunc_div (sint a) (sint b)))),
     i256_rem = (\<lambda>a b. Some (word_of_int (trunc_rem (sint a) (sint b)))),
     i256_shr = (\<lambda>w n. Some (signed_drop_bit n w)),
     hp_recover = (\<lambda>_ _ _. None),
     hp_sha256 = (\<lambda>bs. to_be 32 (be_nat bs)),
     hp_ripemd160 = (\<lambda>bs. to_be 20 (be_nat bs)),
     hp_p256_verify = (\<lambda>_ _ _ _ _. False),
     bn_fq_modulus = 21888242871839275222246405745257275088696311157297823662689037894645226208583,
     bn_fr_modulus = 21888242871839275222246405745257275088548364400416034343698204186575808495617,
     hp_bn_add = (\<lambda>_ _. None),
     hp_bn_mul = (\<lambda>_ _. None),
     hp_bn_pairing = (\<lambda>_. None),
     bls_g1_decompress = Some,
     bls_fr = be_nat,
     bls_g1_generator = [1],
     bls_g2_generator = [1],
     bls_g1_mul = (\<lambda>p n. to_be 8 (be_nat p * n)),
     bls_g2_mul = (\<lambda>p n. to_be 8 (be_nat p * n)),
     bls_g1_sub = (\<lambda>p q. to_be 8 (be_nat p - be_nat q)),
     bls_g2_sub = (\<lambda>p q. to_be 8 (be_nat p - be_nat q)),
     bls_pairing = (\<lambda>p q. to_be 8 (be_nat p * be_nat q))\<rparr>"

lemma demo_host_ok: "host_ok demo_host"
  by (simp add: host_ok_def demo_host_def)

text \<open>The conditions of \<open>host_ok\<close>, one by one.\<close>

lemma host_ok_i256:
  assumes "host_ok H"
  shows "b \<noteq> 0 \<Longrightarrow> \<not> (sint a = - (2 ^ 255) \<and> sint b = - 1) \<Longrightarrow>
      i256_div H a b = Some (word_of_int (trunc_div (sint a) (sint b)))"
    and "b \<noteq> 0 \<Longrightarrow> \<not> (sint a = - (2 ^ 255) \<and> sint b = - 1) \<Longrightarrow>
      i256_rem H a b = Some (word_of_int (trunc_rem (sint a) (sint b)))"
    and "n < 256 \<Longrightarrow> i256_shr H w n = Some (signed_drop_bit n w)"
  using assms by (simp_all add: host_ok_def)

lemma host_ok_keccak: "host_ok H \<Longrightarrow> length (keccak256 H bs) = 32"
  by (simp add: host_ok_def)

text \<open>\<open>a + b\<close> on \<open>usize\<close>: a panic on overflow in a checked build, wrap-around otherwise.\<close>

definition usize_add :: "host \<Rightarrow> nat \<Rightarrow> nat \<Rightarrow> (nat, 'e) res" where
  "usize_add H a b =
     (if a + b < usize_bound then Ok (a + b)
      else if overflow_checks H then Panic else Ok ((a + b) mod usize_bound))"

definition usize_sub :: "host \<Rightarrow> nat \<Rightarrow> nat \<Rightarrow> (nat, 'e) res" where
  "usize_sub H a b =
     (if b \<le> a then Ok (a - b)
      else if overflow_checks H then Panic else Ok (a + usize_bound - b))"

text \<open>
  A result of \<open>i64\<close> arithmetic, given by its exact value: a panic on overflow in a checked
  build, two's complement wrap-around otherwise.
\<close>

definition i64_arith :: "host \<Rightarrow> int \<Rightarrow> (int, 'e) res" where
  "i64_arith H n =
     (if - (2 ^ 63) \<le> n \<and> n < 2 ^ 63 then Ok n
      else if overflow_checks H then Panic else Ok ((n + 2 ^ 63) mod 2 ^ 64 - 2 ^ 63))"

lemma usize_add_Ok_lt: "usize_add H a b = Ok c \<Longrightarrow> c < usize_bound"
  by (auto simp: usize_add_def split: if_splits)

end
