(* ===== verification/Ext.thy ===== *)
theory Ext
  imports Host
begin

text \<open>
  The world state behind the executor (\<open>src/ext.rs\<close>): accounts, the original and
  transient storage, the EIP-2929 access sets, and the lazy loading of accounts and slots
  from a remote node. A \<open>HashMap\<close> is a map, a \<open>HashSet\<close> a set. The remote
  (\<open>EthClient\<close> at a pinned block hash) is the record \<open>remote\<close> of its answers, where
  \<open>None\<close> is a failed request.

  \<open>storage_view\<close>, \<open>balance_view\<close>, \<open>nonce_view\<close> and \<open>code_view\<close> give the
  abstract state: what the local cache holds, or else what the remote would answer. Loading
  never changes the view; that is the contract of the locale \<open>lazy_state\<close>.
\<close>

record account =
  a_value :: u256
  a_nonce :: u256
  a_root :: u256
  a_code :: "bytes \<times> u256"
  a_state :: "u256 \<rightharpoonup> u256"

definition account_default :: account where
  "account_default = \<lparr>a_value = 0, a_nonce = 0, a_root = 0, a_code = ([], 0), a_state = Map.empty\<rparr>"

record remote =
  rm_balance :: "addr160 \<Rightarrow> u256 option"
  rm_nonce :: "addr160 \<Rightarrow> u256 option"
  rm_code :: "addr160 \<Rightarrow> bytes option"
  rm_storage :: "addr160 \<Rightarrow> u256 \<Rightarrow> u256 option"
  rm_block_hash :: "u256 \<Rightarrow> u256 option"

record tx_context =
  t_gas_price :: u256
  t_gas_max_fee :: u256
  t_blob_max_fee :: u256
  t_gas_max_priority_fee :: u256
  t_blob_gas_used :: nat
  t_access_list :: "access_list_item list"

record ext =
  x_remote :: "remote option"
  x_state :: "addr160 \<rightharpoonup> account"
  x_original :: "addr160 \<times> u256 \<rightharpoonup> u256"
  x_transient :: "addr160 \<times> u256 \<rightharpoonup> u256"
  x_accessed_addresses :: "addr160 set"
  x_accessed_storage :: "(addr160 \<times> u256) set"
  x_created_accounts :: "addr160 list"
  x_destroyed_accounts :: "addr160 list"
  x_tx_ctx :: tx_context

type_synonym 'a ext_m = "(ext, exec_error, 'a) monad"

definition access_list_cost :: "tx_context \<Rightarrow> int" where
  "access_list_cost t =
     foldl (\<lambda>cost item. cost + 2400 + 1900 * int (length (al_storage_keys item))) 0 (t_access_list t)"

section \<open>Access tracking\<close>

definition is_address_warm :: "ext \<Rightarrow> addr160 \<Rightarrow> bool" where
  "is_address_warm x a = (a \<in> x_accessed_addresses x)"

definition warm_address :: "addr160 \<Rightarrow> bool ext_m" where
  "warm_address a = (\<lambda>x. (Ok (a \<notin> x_accessed_addresses x),
     x\<lparr>x_accessed_addresses := insert a (x_accessed_addresses x)\<rparr>))"

definition is_storage_warm :: "ext \<Rightarrow> addr160 \<Rightarrow> u256 \<Rightarrow> bool" where
  "is_storage_warm x a k = ((a, k) \<in> x_accessed_storage x)"

definition warm_storage :: "addr160 \<Rightarrow> u256 \<Rightarrow> bool ext_m" where
  "warm_storage a k = (\<lambda>x. (Ok ((a, k) \<notin> x_accessed_storage x),
     x\<lparr>x_accessed_storage := insert (a, k) (x_accessed_storage x)\<rparr>))"

fun warm_keys :: "addr160 \<Rightarrow> u256 list \<Rightarrow> unit ext_m" where
  "warm_keys a [] = returnM ()"
| "warm_keys a (k # ks) = seqM (warm_storage a k) (warm_keys a ks)"

fun warm_items :: "access_list_item list \<Rightarrow> unit ext_m" where
  "warm_items [] = returnM ()"
| "warm_items (item # items) =
     seqM (warm_address (al_address item))
       (seqM (warm_keys (al_address item) (al_storage_keys item)) (warm_items items))"

definition apply_access_list :: "unit ext_m" where
  "apply_access_list = bindM (getsM (\<lambda>x. t_access_list (x_tx_ctx x))) warm_items"

definition ext_reset :: "tx_context \<Rightarrow> ext \<Rightarrow> ext" where
  "ext_reset ctx x =
     x\<lparr>x_tx_ctx := ctx, x_original := Map.empty, x_transient := Map.empty,
       x_accessed_addresses := {}, x_accessed_storage := {}, x_created_accounts := [],
       x_destroyed_accounts := [],
       x_state := foldl (\<lambda>m a. m(a := None)) (x_state x) (x_destroyed_accounts x)\<rparr>"

section \<open>Lazy loading\<close>

definition query :: "'a option \<Rightarrow> 'a ext_m" where
  "query r = (case r of None \<Rightarrow> throwM RpcFailed | Some v \<Rightarrow> returnM v)"

definition ext_pull :: "host \<Rightarrow> addr160 \<Rightarrow> account ext_m" where
  "ext_pull H addr = (\<lambda>x.
     case x_state x addr of
       Some acc \<Rightarrow> (Ok acc, x)
     | None \<Rightarrow>
         (case x_remote x of
            None \<Rightarrow> (Err (PullFailed addr), x)
          | Some r \<Rightarrow>
              bindM (query (rm_balance r addr)) (\<lambda>value.
              bindM (query (rm_nonce r addr)) (\<lambda>nonce.
              bindM (query (rm_code r addr)) (\<lambda>code.
                let acc = \<lparr>a_value = value, a_nonce = nonce, a_root = 0,
                           a_code = (code, from_bytes (keccak256 H code)), a_state = Map.empty\<rparr>
                in seqM (modifyM (\<lambda>x. x\<lparr>x_state := (x_state x)(addr \<mapsto> acc)\<rparr>))
                     (returnM acc)))) x))"

definition ext_code :: "host \<Rightarrow> addr160 \<Rightarrow> (bytes \<times> u256) ext_m" where
  "ext_code H addr = (\<lambda>x. case x_state x addr of
       Some acc \<Rightarrow> (Ok (a_code acc), x)
     | None \<Rightarrow> bindM (ext_pull H addr) (\<lambda>acc. returnM (a_code acc)) x)"

definition ext_balance :: "host \<Rightarrow> addr160 \<Rightarrow> u256 ext_m" where
  "ext_balance H addr = (\<lambda>x. case x_state x addr of
       Some acc \<Rightarrow> (Ok (a_value acc), x)
     | None \<Rightarrow> bindM (ext_pull H addr) (\<lambda>acc. returnM (a_value acc)) x)"

definition ext_nonce :: "host \<Rightarrow> addr160 \<Rightarrow> u256 ext_m" where
  "ext_nonce H addr = (\<lambda>x. case x_state x addr of
       Some acc \<Rightarrow> (Ok (a_nonce acc), x)
     | None \<Rightarrow> bindM (ext_pull H addr) (\<lambda>acc. returnM (a_nonce acc)) x)"

definition ext_is_empty :: "host \<Rightarrow> addr160 \<Rightarrow> bool ext_m" where
  "ext_is_empty H addr =
     bindM (ext_balance H addr) (\<lambda>balance.
     bindM (ext_nonce H addr) (\<lambda>nonce.
     bindM (ext_code H addr) (\<lambda>code.
       returnM (is_zero balance \<and> is_zero nonce \<and> fst code = []))))"

definition set_slot :: "addr160 \<Rightarrow> u256 \<Rightarrow> u256 \<Rightarrow> ext \<Rightarrow> ext" where
  "set_slot addr key val x =
     (let acc = (case x_state x addr of Some acc \<Rightarrow> acc | None \<Rightarrow> account_default)
      in x\<lparr>x_state := (x_state x)(addr \<mapsto> acc\<lparr>a_state := (a_state acc)(key \<mapsto> val)\<rparr>)\<rparr>)"

definition note_original :: "addr160 \<Rightarrow> u256 \<Rightarrow> u256 \<Rightarrow> ext \<Rightarrow> ext" where
  "note_original addr key val x =
     (case x_original x (addr, key) of
        Some _ \<Rightarrow> x
      | None \<Rightarrow> x\<lparr>x_original := (x_original x)((addr, key) \<mapsto> val)\<rparr>)"

definition cached_slot :: "ext \<Rightarrow> addr160 \<Rightarrow> u256 \<Rightarrow> u256 option" where
  "cached_slot x addr key = (case x_state x addr of Some acc \<Rightarrow> a_state acc key | None \<Rightarrow> None)"

definition ext_get :: "host \<Rightarrow> addr160 \<Rightarrow> u256 \<Rightarrow> u256 ext_m" where
  "ext_get H addr key =
     seqM (\<lambda>x. if x_state x addr = None then bindM (ext_pull H addr) (\<lambda>_. returnM ()) x
               else (Ok (), x))
       (\<lambda>x. case cached_slot x addr key of
          Some val \<Rightarrow> (Ok val, note_original addr key val x)
        | None \<Rightarrow>
            (case x_remote x of
               Some r \<Rightarrow>
                 bindM (query (rm_storage r addr key)) (\<lambda>val.
                   seqM (modifyM (set_slot addr key val))
                     (seqM (modifyM (note_original addr key val)) (returnM val))) x
             | None \<Rightarrow> (Ok 0, x)))"

text \<open>
  \<open>Ext::put\<close>. With the (default) \<open>tracing\<close> feature the value is read back through
  \<open>get\<close> for a log line, which also records it as the slot's original value when none is
  recorded yet.
\<close>

definition ext_put :: "host \<Rightarrow> addr160 \<Rightarrow> u256 \<Rightarrow> u256 \<Rightarrow> unit ext_m" where
  "ext_put H addr key val =
     seqM (modifyM (set_slot addr key val))
       (if tracing_feature H then seqM (ext_get H addr key) (returnM ()) else returnM ())"

definition ext_get_block_hash :: "u256 \<Rightarrow> u256 ext_m" where
  "ext_get_block_hash n = (\<lambda>x. case x_remote x of
       Some r \<Rightarrow> query (rm_block_hash r n) x
     | None \<Rightarrow> (Ok 0, x))"

text \<open>\<open>account_mut(addr)\<close> followed by an assignment: a missing account is a panic.\<close>

definition account_upd :: "addr160 \<Rightarrow> (account \<Rightarrow> account) \<Rightarrow> unit ext_m" where
  "account_upd addr f = (\<lambda>x. case x_state x addr of
       Some acc \<Rightarrow> (Ok (), x\<lparr>x_state := (x_state x)(addr \<mapsto> f acc)\<rparr>)
     | None \<Rightarrow> (Panic, x))"

definition account_get :: "addr160 \<Rightarrow> account ext_m" where
  "account_get addr = (\<lambda>x. case x_state x addr of Some acc \<Rightarrow> (Ok acc, x) | None \<Rightarrow> (Panic, x))"

definition set_value :: "addr160 \<Rightarrow> u256 \<Rightarrow> unit ext_m" where
  "set_value addr v = account_upd addr (\<lambda>acc. acc\<lparr>a_value := v\<rparr>)"

definition set_nonce :: "addr160 \<Rightarrow> u256 \<Rightarrow> unit ext_m" where
  "set_nonce addr v = account_upd addr (\<lambda>acc. acc\<lparr>a_nonce := v\<rparr>)"

definition set_code :: "addr160 \<Rightarrow> bytes \<times> u256 \<Rightarrow> unit ext_m" where
  "set_code addr c = account_upd addr (\<lambda>acc. acc\<lparr>a_code := c\<rparr>)"

text \<open>\<open>ext.state.entry(addr).or_default()\<close>.\<close>

definition entry_or_default :: "addr160 \<Rightarrow> unit ext_m" where
  "entry_or_default addr = modifyM (\<lambda>x. case x_state x addr of
       Some _ \<Rightarrow> x | None \<Rightarrow> x\<lparr>x_state := (x_state x)(addr \<mapsto> account_default)\<rparr>)"

section \<open>The abstract state\<close>

definition storage_view :: "ext \<Rightarrow> addr160 \<times> u256 \<Rightarrow> u256 option" where
  "storage_view x ak = (case cached_slot x (fst ak) (snd ak) of
       Some v \<Rightarrow> Some v
     | None \<Rightarrow> (case x_remote x of Some r \<Rightarrow> rm_storage r (fst ak) (snd ak) | None \<Rightarrow> Some 0))"

definition account_view :: "(account \<Rightarrow> 'v) \<Rightarrow> (remote \<Rightarrow> addr160 \<Rightarrow> 'v option) \<Rightarrow> ext \<Rightarrow> addr160 \<Rightarrow> 'v option" where
  "account_view sel ask x a = (case x_state x a of
       Some acc \<Rightarrow> Some (sel acc)
     | None \<Rightarrow> (case x_remote x of Some r \<Rightarrow> ask r a | None \<Rightarrow> None))"

definition balance_view :: "ext \<Rightarrow> addr160 \<Rightarrow> u256 option" where
  "balance_view = account_view a_value rm_balance"

definition nonce_view :: "ext \<Rightarrow> addr160 \<Rightarrow> u256 option" where
  "nonce_view = account_view a_nonce rm_nonce"

definition code_view :: "host \<Rightarrow> ext \<Rightarrow> addr160 \<Rightarrow> (bytes \<times> u256) option" where
  "code_view H = account_view a_code
     (\<lambda>r a. map_option (\<lambda>c. (c, from_bytes (keccak256 H c))) (rm_code r a))"

lemma ext_pull_cases:
  assumes "ext_pull H a x = (r, x')"
  obtains (same) "x' = x" "\<And>acc. r = Ok acc \<Longrightarrow> x_state x a = Some acc"
        | (loaded) rm acc where "x_state x a = None" "x_remote x = Some rm" "r = Ok acc"
            "x' = x\<lparr>x_state := (x_state x)(a \<mapsto> acc)\<rparr>"
            "rm_balance rm a = Some (a_value acc)" "rm_nonce rm a = Some (a_nonce acc)"
            "map_option (\<lambda>c. (c, from_bytes (keccak256 H c))) (rm_code rm a) = Some (a_code acc)"
            "a_state acc = Map.empty"
  using assms
  by (auto simp: ext_pull_def query_def monad_defs Let_def split: option.splits)

lemma ext_pull_Ok_present: "ext_pull H a x = (Ok acc, x') \<Longrightarrow> x_state x' a = Some acc"
  by (erule ext_pull_cases) auto

lemma ext_pull_views:
  assumes "ext_pull H a x = (r, x')"
  shows "storage_view x' = storage_view x" and "balance_view x' = balance_view x"
    and "nonce_view x' = nonce_view x" and "code_view H x' = code_view H x"
    and "x_remote x' = x_remote x"
  using assms
  by (cases rule: ext_pull_cases;
      force simp: storage_view_def cached_slot_def balance_view_def nonce_view_def code_view_def
        account_view_def fun_eq_iff split: option.splits)+

text \<open>The contract of a lazily loaded component of the state.\<close>

locale lazy_state =
  fixes load :: "'k \<Rightarrow> ('s, 'e, 'v) monad"
    and view :: "'s \<Rightarrow> 'k \<Rightarrow> 'v option"
  assumes load_view: "load k s = (Ok v, s') \<Longrightarrow> view s k = Some v"
    and load_keeps: "load k s = (r, s') \<Longrightarrow> view s' j = view s j"
begin

lemma load_twice:
  assumes "load k s = (Ok v, s1)" and "load k s1 = (Ok w, s2)"
  shows "w = v"
  using load_view [OF assms(1)] load_view [OF assms(2)] load_keeps [OF assms(1), of k] by simp

lemma loads_commute:
  assumes "load j s = (Ok a, s1)" and "load k s1 = (Ok b, s2)"
    and "load k s = (Ok b', t1)" and "load j t1 = (Ok a', t2)"
  shows "a' = a \<and> b' = b"
  using assms by (metis load_keeps load_view option.inject)

end

locale lazy_store = lazy_state load view
  for load :: "'k \<Rightarrow> ('s, 'e, 'v) monad" and view :: "'s \<Rightarrow> 'k \<Rightarrow> 'v option" +
  fixes store :: "'k \<Rightarrow> 'v \<Rightarrow> ('s, 'e, unit) monad"
  assumes store_view: "store k v s = (Ok u, s') \<Longrightarrow> view s' j = (if j = k then Some v else view s j)"
begin

lemma store_then_load:
  assumes "store k v s = (Ok u, s1)" and "load j s1 = (Ok w, s2)"
  shows "if j = k then w = v else view s j = Some w"
  using load_view [OF assms(2)] store_view [OF assms(1), of j] by (auto split: if_splits)

text \<open>Writing the value that was read before undoes any write in between.\<close>

lemma store_back:
  assumes "load k s = (Ok old, s1)" and "store k new s1 = (Ok u, s2)"
    and "store k old s2 = (Ok w, s3)"
  shows "view s3 = view s"
proof
  fix j
  show "view s3 j = view s j"
    using store_view [OF assms(3), of j] store_view [OF assms(2), of j]
      load_keeps [OF assms(1), of j] load_view [OF assms(1)] by (auto split: if_splits)
qed

end

lemma storage_view_set_slot:
  "storage_view (set_slot a k v x) j = (if j = (a, k) then Some v else storage_view x j)"
  by (cases j) (auto simp: storage_view_def set_slot_def cached_slot_def Let_def account_default_def
      split: option.splits)

lemma storage_view_note_original [simp]: "storage_view (note_original a k v x) = storage_view x"
  by (auto simp: storage_view_def note_original_def cached_slot_def fun_eq_iff split: option.splits)

lemma ext_get_present:
  assumes "x_state x a = Some acc"
  shows "ext_get H a k x = (case a_state acc k of
       Some v \<Rightarrow> (Ok v, note_original a k v x)
     | None \<Rightarrow> (case x_remote x of
          Some r \<Rightarrow> (case rm_storage r a k of
             Some v \<Rightarrow> (Ok v, note_original a k v (set_slot a k v x))
           | None \<Rightarrow> (Err RpcFailed, x))
        | None \<Rightarrow> (Ok 0, x)))"
  using assms by (simp add: ext_get_def monad_defs cached_slot_def query_def split: option.splits)

lemma ext_get_absent:
  assumes "x_state x a = None"
  shows "ext_get H a k x = (case ext_pull H a x of
       (Ok _, x') \<Rightarrow> ext_get H a k x'
     | (Err e, x') \<Rightarrow> (Err e, x') | (Panic, x') \<Rightarrow> (Panic, x') | (OutOfFuel, x') \<Rightarrow> (OutOfFuel, x'))"
  using assms ext_pull_Ok_present [of H a x]
  by (auto simp: ext_get_def monad_defs split: prod.splits res.splits)

lemma ext_get_view_present:
  assumes "x_state x a = Some acc" and "ext_get H a k x = (r, x')"
  shows "storage_view x' = storage_view x" and "r = Ok v \<Longrightarrow> storage_view x (a, k) = Some v"
  using assms
  by (auto simp: ext_get_present fun_eq_iff storage_view_set_slot split: option.splits if_splits)
    (auto simp: storage_view_def cached_slot_def)

lemma ext_get_view:
  assumes "ext_get H a k x = (r, x')"
  shows "storage_view x' = storage_view x" and "r = Ok v \<Longrightarrow> storage_view x (a, k) = Some v"
proof -
  have "storage_view x' = storage_view x \<and> (\<forall>v. r = Ok v \<longrightarrow> storage_view x (a, k) = Some v)"
  proof (cases "x_state x a")
    case (Some acc)
    then show ?thesis using ext_get_view_present [OF Some assms] by blast
  next
    case None
    obtain r0 x0 where p: "ext_pull H a x = (r0, x0)" by fastforce
    note views = ext_pull_views(1) [OF p]
    show ?thesis
    proof (cases r0)
      case (Ok acc)
      then have pres: "x_state x0 a = Some acc" using p ext_pull_Ok_present by simp
      have "ext_get H a k x0 = (r, x')" using assms p Ok None by (simp add: ext_get_absent)
      from ext_get_view_present [OF pres this] views show ?thesis by simp
    qed (use assms p None views in \<open>auto simp: ext_get_absent\<close>)
  qed
  then show "storage_view x' = storage_view x" and "r = Ok v \<Longrightarrow> storage_view x (a, k) = Some v"
    by auto
qed

lemma ext_put_eq:
  "\<exists>x'. ext_put H a k v x = (Ok (), x') \<and> storage_view x' = storage_view (set_slot a k v x)"
proof -
  obtain acc where "x_state (set_slot a k v x) a = Some acc" "a_state acc k = Some v"
    by (simp add: set_slot_def Let_def)
  then have "ext_get H a k (set_slot a k v x) = (Ok v, note_original a k v (set_slot a k v x))"
    by (simp add: ext_get_present)
  then show ?thesis by (simp add: ext_put_def monad_defs)
qed

interpretation slots: lazy_store "\<lambda>(a, k). ext_get H a k" storage_view "\<lambda>(a, k). ext_put H a k"
proof unfold_locales
  fix k s v s'
  assume "(case k of (a, k) \<Rightarrow> ext_get H a k) s = (Ok v, s')"
  then show "storage_view s k = Some v" by (cases k) (auto dest: ext_get_view(2))
next
  fix k s r s' j
  assume "(case k of (a, k) \<Rightarrow> ext_get H a k) s = (r, s')"
  then show "storage_view s' j = storage_view s j" by (cases k) (simp add: ext_get_view(1))
next
  fix k v s u s' j
  assume "(case k of (a, k) \<Rightarrow> ext_put H a k) v s = (Ok u, s')"
  then show "storage_view s' j = (if j = k then Some v else storage_view s j)"
    using ext_put_eq [of H "fst k" "snd k" v s]
    by (cases k) (auto simp: storage_view_set_slot)
qed

lemma lazy_account_read:
  assumes "\<And>x. read x = (case x_state x a of Some acc \<Rightarrow> (Ok (sel acc), x)
              | None \<Rightarrow> bindM (ext_pull H a) (\<lambda>acc. returnM (sel acc)) x)"
    and "read x = (r, x')"
  shows "\<exists>r0. ext_pull H a x = (r0, x') \<and> (\<forall>v. r = Ok v \<longrightarrow> (\<exists>acc. r0 = Ok acc \<and> v = sel acc))"
  using assms(2) unfolding assms(1)
  by (auto simp: ext_pull_def [of H a] monad_defs split: option.splits prod.splits res.splits)

lemma lazy_state_account:
  assumes read: "\<And>a x. read a x = (case x_state x a of Some acc \<Rightarrow> (Ok (sel acc), x)
              | None \<Rightarrow> bindM (ext_pull H a) (\<lambda>acc. returnM (sel acc)) x)"
    and keeps: "\<And>a x r x'. ext_pull H a x = (r, x') \<Longrightarrow> view x' = view x"
    and here: "\<And>a x acc. x_state x a = Some acc \<Longrightarrow> view x a = Some (sel acc)"
  shows "lazy_state read view"
proof
  fix k s v s'
  assume "read k s = (Ok v, s')"
  from lazy_account_read [OF read this]
  obtain acc where "ext_pull H k s = (Ok acc, s')" and v: "v = sel acc" by blast
  then have "view s = view s'" and "x_state s' k = Some acc"
    using keeps ext_pull_Ok_present by (metis, metis)
  then show "view s k = Some v" using here v by simp
next
  fix k s r s' j
  assume "read k s = (r, s')"
  from lazy_account_read [OF read this]
  obtain r0 where "ext_pull H k s = (r0, s')" by auto
  then show "view s' j = view s j" using keeps by simp
qed

interpretation balances: lazy_state "ext_balance H" balance_view
  by (rule lazy_state_account [where H = H and sel = a_value])
    (simp_all add: ext_balance_def ext_pull_views, simp add: balance_view_def account_view_def)

interpretation nonces: lazy_state "ext_nonce H" nonce_view
  by (rule lazy_state_account [where H = H and sel = a_nonce])
    (simp_all add: ext_nonce_def ext_pull_views, simp add: nonce_view_def account_view_def)

interpretation codes: lazy_state "ext_code H" "code_view H"
  by (rule lazy_state_account [where H = H and sel = a_code])
    (simp_all add: ext_code_def ext_pull_views, simp add: code_view_def account_view_def)

end
