(* ===== verification/Opcodes.thy ===== *)
theory Opcodes
  imports EvmEvent
begin

text \<open>
  The opcode table of \<open>src/opcodes.rs\<close> and the bytecode decoder of
  \<open>src/decoder.rs\<close>. \<open>get_opcode\<close> is the table look-up: the individually assigned
  slots, the four ranges filled by loops, and \<open>undefined\<close> (code \<open>0xfe\<close>) elsewhere.

  The decoder splits the code into instructions and records every \<open>JUMPDEST\<close> with its
  instruction index; \<open>resolve_jump\<close> finds a destination by binary search. The reference
  is \<open>instr_start\<close>, the positions at which an instruction begins: the lemmas show the
  jump table to be exactly the \<open>JUMPDEST\<close> bytes at such positions, never a byte inside
  the data of a \<open>PUSH\<close>.
\<close>

record opcode =
  op_code :: byte
  op_name :: string
  op_n :: nat

definition named_opcodes :: "(nat \<times> string) list" where
  "named_opcodes = [
     (0x00, ''STOP''), (0x01, ''ADD''), (0x02, ''MUL''), (0x03, ''SUB''), (0x04, ''DIV''),
     (0x05, ''SDIV''), (0x06, ''MOD''), (0x07, ''SMOD''), (0x08, ''ADDMOD''),
     (0x09, ''MULMOD''), (0x0a, ''EXP''), (0x0b, ''SIGNEXTEND''),
     (0x10, ''LT''), (0x11, ''GT''), (0x12, ''SLT''), (0x13, ''SGT''), (0x14, ''EQ''),
     (0x15, ''ISZERO''), (0x16, ''AND''), (0x17, ''OR''), (0x18, ''XOR''), (0x19, ''NOT''),
     (0x1a, ''BYTE''), (0x1b, ''SHL''), (0x1c, ''SHR''), (0x1d, ''SAR''), (0x1e, ''CLZ''),
     (0x20, ''SHA3''),
     (0x30, ''ADDRESS''), (0x31, ''BALANCE''), (0x32, ''ORIGIN''), (0x33, ''CALLER''),
     (0x34, ''CALLVALUE''), (0x35, ''CALLDATALOAD''), (0x36, ''CALLDATASIZE''),
     (0x37, ''CALLDATACOPY''), (0x38, ''CODESIZE''), (0x39, ''CODECOPY''),
     (0x3a, ''GASPRICE''), (0x3b, ''EXTCODESIZE''), (0x3c, ''EXTCODECOPY''),
     (0x3d, ''RETURNDATASIZE''), (0x3e, ''RETURNDATACOPY''), (0x3f, ''EXTCODEHASH''),
     (0x40, ''BLOCKHASH''), (0x41, ''COINBASE''), (0x42, ''TIMESTAMP''), (0x43, ''NUMBER''),
     (0x44, ''PREVRANDAO''), (0x45, ''GASLIMIT''), (0x46, ''CHAINID''),
     (0x47, ''SELFBALANCE''), (0x48, ''BASEFEE''), (0x49, ''BLOBHASH''),
     (0x4a, ''BLOBBASEFEE''),
     (0x50, ''POP''), (0x51, ''MLOAD''), (0x52, ''MSTORE''), (0x53, ''MSTORE8''),
     (0x54, ''SLOAD''), (0x55, ''SSTORE''), (0x56, ''JUMP''), (0x57, ''JUMPI''),
     (0x58, ''PC''), (0x59, ''MSIZE''), (0x5a, ''GAS''), (0x5b, ''JUMPDEST''),
     (0x5c, ''TLOAD''), (0x5d, ''TSTORE''), (0x5e, ''MCOPY''), (0x5f, ''PUSH0''),
     (0xf0, ''CREATE''), (0xf1, ''CALL''), (0xf2, ''CALLCODE''), (0xf3, ''RETURN''),
     (0xf4, ''DELEGATECALL''), (0xf5, ''CREATE2''), (0xfa, ''STATICCALL''),
     (0xfd, ''REVERT''), (0xfe, ''INVALID''), (0xff, ''SELFDESTRUCT'')]"

definition get_opcode :: "byte \<Rightarrow> opcode" where
  "get_opcode v = (let i = unat v in
     if 0x60 \<le> i \<and> i < 0x60 + 32 then \<lparr>op_code = v, op_name = ''PUSH_'', op_n = i - 0x60 + 1\<rparr>
     else if 0x80 \<le> i \<and> i < 0x80 + 16 then \<lparr>op_code = v, op_name = ''DUP_'', op_n = i - 0x80 + 1\<rparr>
     else if 0x90 \<le> i \<and> i < 0x90 + 16 then \<lparr>op_code = v, op_name = ''SWAP_'', op_n = i - 0x90 + 1\<rparr>
     else if 0xa0 \<le> i \<and> i < 0xa0 + 5 then \<lparr>op_code = v, op_name = ''LOG_'', op_n = i - 0xa0\<rparr>
     else case map_of named_opcodes i of
            Some name \<Rightarrow> \<lparr>op_code = v, op_name = name, op_n = 0\<rparr>
          | None \<Rightarrow> \<lparr>op_code = 0xfe, op_name = ''undefined'', op_n = 0\<rparr>)"

definition push_len :: "opcode \<Rightarrow> nat" where
  "push_len op = (if op_name op \<noteq> ''PUSH_'' then 0 else op_n op)"

text \<open>\<open>Opcode::name\<close>: the underscore is replaced by the decimal form of \<open>n\<close>.\<close>

fun dec_digits :: "nat \<Rightarrow> string" where
  "dec_digits n = (if n < 10 then [char_of (48 + n)]
                   else dec_digits (n div 10) @ [char_of (48 + n mod 10)])"

declare dec_digits.simps [simp del]

definition opcode_name :: "opcode \<Rightarrow> string" where
  "opcode_name op =
     concat (map (\<lambda>c. if c = CHR ''_'' then dec_digits (op_n op) else [c]) (op_name op))"

section \<open>Instructions and bytecode\<close>

record instruction =
  i_opcode :: opcode
  i_offset :: nat
  i_argument :: "bytes option"

definition is_call :: "instruction \<Rightarrow> bool" where
  "is_call i = (op_name (i_opcode i) \<in>
     {''CALL'', ''DELEGATECALL'', ''STATICCALL'', ''CALLCODE'', ''CREATE'', ''CREATE2''})"

record bytecode =
  bc_bytecode :: bytes
  bc_instructions :: "instruction list"
  bc_jumptable :: "(nat \<times> nat) list"

text \<open>
  One turn of the decoder's loop at position \<open>pos\<close>: the instruction, the position
  after it.
\<close>

definition decode_at :: "bytes \<Rightarrow> nat \<Rightarrow> instruction \<times> nat" where
  "decode_at code pos =
     (let opcode = get_opcode (code ! pos);
          len = push_len opcode;
          from = pos + 1
      in if len > 0 then
           (let till = min (from + len) (length code);
                arg = splice_at 0 (sub_list from till code) (replicate len 0)
            in (\<lparr>i_opcode = opcode, i_offset = pos, i_argument = Some arg\<rparr>, till))
         else (\<lparr>i_opcode = opcode, i_offset = pos, i_argument = None\<rparr>, from))"

lemma decode_at_progress: "pos < length code \<Longrightarrow> pos < snd (decode_at code pos)"
  by (auto simp: decode_at_def Let_def)

function decode_from ::
    "bytes \<Rightarrow> nat \<Rightarrow> instruction list \<Rightarrow> (nat \<times> nat) list \<Rightarrow> instruction list \<times> (nat \<times> nat) list"
where
  "decode_from code pos instructions jumptable =
     (if pos < length code then
        (let (instruction, pos') = decode_at code pos;
             jumptable' = (if op_code (i_opcode instruction) = 0x5b
                           then jumptable @ [(pos, length instructions)] else jumptable)
         in decode_from code pos' (instructions @ [instruction]) jumptable')
      else (instructions, jumptable))"
  by pat_completeness auto
termination
  by (relation "measure (\<lambda>(code, pos, _, _). length code - pos)")
    (auto, metis decode_at_progress diff_less_mono2 snd_conv)

declare decode_from.simps [simp del]

definition decode_bytecode :: "bytes \<Rightarrow> bytecode" where
  "decode_bytecode code =
     (let (instructions, jumptable) = decode_from code 0 [] []
      in \<lparr>bc_bytecode = code, bc_instructions = instructions, bc_jumptable = jumptable\<rparr>)"

text \<open>\<open>slice::binary_search_by_key\<close> of the standard library, on the window \<open>[lo, hi)\<close>.\<close>

function bsearch :: "(nat \<times> nat) list \<Rightarrow> nat \<Rightarrow> nat \<Rightarrow> nat \<Rightarrow> nat option" where
  "bsearch t key lo hi =
     (if lo < hi then
        (let mid = lo + (hi - lo) div 2; k = fst (t ! mid) in
         if k < key then bsearch t key (mid + 1) hi
         else if key < k then bsearch t key lo mid
         else Some mid)
      else None)"
  by pat_completeness auto
termination
  by (relation "measure (\<lambda>(t, key, lo, hi). hi - lo)") auto

declare bsearch.simps [simp del]

definition resolve_jump :: "bytecode \<Rightarrow> nat \<Rightarrow> nat option" where
  "resolve_jump bc offset =
     (if offset = 0 then Some 0
      else case bsearch (bc_jumptable bc) offset 0 (length (bc_jumptable bc)) of
             None \<Rightarrow> None
           | Some index \<Rightarrow> Some (snd (bc_jumptable bc ! index)))"

section \<open>Reference: where instructions begin\<close>

definition push_size :: "byte \<Rightarrow> nat" where
  "push_size b = (if 0x60 \<le> b \<and> b \<le> 0x7f then unat b - 0x5f else 0)"

inductive instr_start :: "bytes \<Rightarrow> nat \<Rightarrow> bool" for code where
  first: "instr_start code 0"
| step: "instr_start code p \<Longrightarrow> p < length code \<Longrightarrow>
     instr_start code (p + 1 + push_size (code ! p))"

definition valid_jumpdest :: "bytes \<Rightarrow> nat \<Rightarrow> bool" where
  "valid_jumpdest code p = (instr_start code p \<and> p < length code \<and> code ! p = 0x5b)"

section \<open>Lemmas on the table\<close>

lemma op_code_get_opcode: "op_code (get_opcode v) = v \<or> op_code (get_opcode v) = 0xfe"
  by (auto simp: get_opcode_def Let_def split: option.split)

lemma op_code_jumpdest: "op_code (get_opcode v) = 0x5b \<longleftrightarrow> v = 0x5b"
proof
  assume "op_code (get_opcode v) = 0x5b"
  then show "v = 0x5b" using op_code_get_opcode [of v] by auto
next
  have "op_code (get_opcode 0x5b) = 0x5b" by code_simp
  then show "v = 0x5b \<Longrightarrow> op_code (get_opcode v) = 0x5b" by simp
qed

lemma named_not_push: "map_of named_opcodes i = Some name \<Longrightarrow> name \<noteq> ''PUSH_''"
proof -
  assume "map_of named_opcodes i = Some name"
  then have "name \<in> set (map snd named_opcodes)" by (force dest: map_of_SomeD)
  moreover have "list_all (\<lambda>s. s \<noteq> ''PUSH_'') (map snd named_opcodes)" by code_simp
  ultimately show ?thesis by (auto simp: list_all_iff)
qed

lemma push_len_get_opcode: "push_len (get_opcode v) = push_size v"
proof -
  have "0x60 \<le> unat v \<and> unat v < 0x60 + 32 \<longleftrightarrow> 0x60 \<le> v \<and> v \<le> 0x7f"
    by (simp add: word_le_nat_alt) arith
  then show ?thesis
    by (auto simp: push_len_def push_size_def get_opcode_def Let_def named_not_push
        split: option.split)
qed

lemma push_size_le: "push_size v \<le> 32"
proof -
  have "v \<le> 0x7f \<Longrightarrow> unat v \<le> 0x7f" by (simp add: word_le_nat_alt)
  then show ?thesis by (auto simp: push_size_def)
qed

section \<open>Lemmas on the decoder\<close>

text \<open>The positions the loop visits.\<close>

function positions :: "bytes \<Rightarrow> nat \<Rightarrow> nat list" where
  "positions code pos =
     (if pos < length code then pos # positions code (snd (decode_at code pos)) else [])"
  by pat_completeness auto
termination
  by (relation "measure (\<lambda>(code, pos). length code - pos)")
    (auto intro!: diff_less_mono2 decode_at_progress)

declare positions.simps [simp del]

definition jump_entries :: "bytes \<Rightarrow> nat \<Rightarrow> nat list \<Rightarrow> (nat \<times> nat) list" where
  "jump_entries code n ps =
     map (\<lambda>(i, p). (p, i)) (filter (\<lambda>(i, p). code ! p = 0x5b) (enumerate n ps))"

lemma fst_decode_at:
  "i_offset (fst (decode_at code p)) = p"
  "i_opcode (fst (decode_at code p)) = get_opcode (code ! p)"
  by (simp_all add: decode_at_def Let_def)

lemma snd_decode_at: "p < length code \<Longrightarrow>
   snd (decode_at code p) = min (p + 1 + push_size (code ! p)) (length code)"
  by (auto simp: decode_at_def Let_def push_len_get_opcode)

lemma jump_entries_Cons:
  "jump_entries code n (p # ps) =
     (if code ! p = 0x5b then [(p, n)] else []) @ jump_entries code (Suc n) ps"
  by (simp add: jump_entries_def)

lemma decode_from_positions:
  "decode_from code pos is js =
     (is @ map (\<lambda>p. fst (decode_at code p)) (positions code pos),
      js @ jump_entries code (length is) (positions code pos))"
proof (induction code pos "is" js rule: decode_from.induct)
  case (1 code pos "is" js)
  show ?case
  proof (cases "pos < length code")
    case False
    then show ?thesis
      by (simp add: decode_from.simps [of code pos] positions.simps [of code pos] jump_entries_def)
  next
    case True
    obtain i pos' where d: "decode_at code pos = (i, pos')" by (cases "decode_at code pos")
    have op: "op_code (i_opcode i) = 0x5b \<longleftrightarrow> code ! pos = 0x5b"
      using fst_decode_at(2) [of code pos] d op_code_jumpdest by simp
    show ?thesis
      using 1 [OF True d [symmetric] refl refl] True d
      by (simp add: decode_from.simps [of code pos] positions.simps [of code pos]
          jump_entries_Cons op)
  qed
qed

lemma decode_bytecode_instructions:
  "bc_instructions (decode_bytecode code) =
     map (\<lambda>p. fst (decode_at code p)) (positions code 0)"
  "bc_jumptable (decode_bytecode code) = jump_entries code 0 (positions code 0)"
  "bc_bytecode (decode_bytecode code) = code"
  by (simp_all add: decode_bytecode_def decode_from_positions)

lemma positions_ge: "q \<in> set (positions code p) \<Longrightarrow> p \<le> q \<and> q < length code"
proof (induction code p rule: positions.induct)
  case (1 code p)
  show ?case
  proof (cases "p < length code")
    case True
    then have "q = p \<or> q \<in> set (positions code (snd (decode_at code p)))"
      using 1(2) by (simp add: positions.simps [of code p])
    then show ?thesis using 1(1) [OF True] decode_at_progress [OF True] True by auto
  next
    case False
    with 1(2) show ?thesis by (simp add: positions.simps [of code p])
  qed
qed

lemma positions_sorted: "sorted_wrt (<) (positions code p)"
proof (induction code p rule: positions.induct)
  case (1 code p)
  show ?case
  proof (cases "p < length code")
    case True
    have "p < q" if "q \<in> set (positions code (snd (decode_at code p)))" for q
      using positions_ge [OF that] decode_at_progress [OF True] by simp
    with 1 [OF True] True show ?thesis by (simp add: positions.simps [of code p])
  next
    case False
    then show ?thesis by (simp add: positions.simps [of code p])
  qed
qed

lemma positions_start:
  "instr_start code p \<or> length code \<le> p \<Longrightarrow> q \<in> set (positions code p) \<Longrightarrow> instr_start code q"
proof (induction code p rule: positions.induct)
  case (1 code p)
  then have p: "p < length code" by (metis positions.simps empty_iff empty_set)
  with 1 have st: "instr_start code p" by auto
  have nx: "instr_start code (snd (decode_at code p)) \<or> length code \<le> snd (decode_at code p)"
    using instr_start.step [OF st p] p by (auto simp: snd_decode_at min_def)
  from 1(3) p have "q = p \<or> q \<in> set (positions code (snd (decode_at code p)))"
    by (simp add: positions.simps [of code p])
  then show ?case using st 1(1) [OF p nx] by auto
qed

lemma positions_step:
  assumes "q \<in> set (positions code p)"
    and "q + 1 + push_size (code ! q) < length code"
  shows "q + 1 + push_size (code ! q) \<in> set (positions code p)"
  using assms
proof (induction code p rule: positions.induct)
  case (1 code p)
  then have p: "p < length code" by (metis positions.simps empty_iff empty_set)
  let ?n = "snd (decode_at code p)"
  from 1(2) p have "q = p \<or> q \<in> set (positions code ?n)"
    by (simp add: positions.simps [of code p])
  then show ?case
  proof
    assume q: "q = p"
    then have "?n = q + 1 + push_size (code ! q)" using p 1(3) by (simp add: snd_decode_at)
    then have "q + 1 + push_size (code ! q) \<in> set (positions code ?n)"
      using 1(3) by (simp only: positions.simps [of code "q + 1 + push_size (code ! q)"]) simp
    then show ?thesis using p by (simp add: positions.simps [of code p])
  next
    assume "q \<in> set (positions code ?n)"
    then show ?thesis using 1(1) [OF p _ 1(3)] p by (simp add: positions.simps [of code p])
  qed
qed

lemma positions_iff: "q \<in> set (positions code 0) \<longleftrightarrow> instr_start code q \<and> q < length code"
proof
  assume "q \<in> set (positions code 0)"
  then show "instr_start code q \<and> q < length code"
    using positions_start [of code 0 q] positions_ge [of q code 0] instr_start.first by auto
next
  assume "instr_start code q \<and> q < length code"
  then have "instr_start code q" and "q < length code" by auto
  then show "q \<in> set (positions code 0)"
  proof (induction rule: instr_start.induct)
    case first
    then show ?case by (simp add: positions.simps [of code 0])
  next
    case (step p)
    then show ?case using positions_step [of p code 0] by simp
  qed
qed

lemma set_jump_entries:
  "(p, i) \<in> set (jump_entries code n ps) \<longleftrightarrow>
     n \<le> i \<and> i < n + length ps \<and> ps ! (i - n) = p \<and> code ! p = 0x5b"
  by (auto simp: jump_entries_def in_set_enumerate_eq)

lemma jump_entries_sorted:
  "sorted_wrt (<) ps \<Longrightarrow> sorted_wrt (<) (map fst (jump_entries code n ps))"
proof (induction ps arbitrary: n)
  case Nil
  then show ?case by (simp add: jump_entries_def)
next
  case (Cons p ps)
  have "fst e \<in> set ps" if "e \<in> set (jump_entries code (Suc n) ps)" for e
    using that set_jump_entries [of "fst e" "snd e" code "Suc n" ps]
    by (metis add_less_cancel_left le_add_diff_inverse nth_mem prod.collapse)
  with Cons show ?case by (auto simp: jump_entries_Cons)
qed

lemma bsearch_Some:
  "hi \<le> length t \<Longrightarrow> bsearch t key lo hi = Some m \<Longrightarrow> lo \<le> m \<and> m < hi \<and> fst (t ! m) = key"
proof (induction t key lo hi rule: bsearch.induct)
  case (1 t key lo hi)
  let ?m = "lo + (hi - lo) div 2"
  have eq: "bsearch t key lo hi = (if lo < hi then
      if fst (t ! ?m) < key then bsearch t key (?m + 1) hi
      else if key < fst (t ! ?m) then bsearch t key lo ?m else Some ?m else None)"
    by (simp only: bsearch.simps [of t key lo hi] Let_def)
  have lt: "lo < hi" using "1.prems"(2) eq by (auto split: if_splits)
  consider "fst (t ! ?m) < key" | "key < fst (t ! ?m)" | "fst (t ! ?m) = key" by linarith
  then show ?case
  proof cases
    case 1
    then have "bsearch t key (?m + 1) hi = Some m" using "1.prems"(2) eq lt by simp
    from "1.IH"(1) [OF lt refl refl 1 "1.prems"(1) this] show ?thesis by simp
  next
    case 2
    then have "bsearch t key lo ?m = Some m" using "1.prems"(2) eq lt by simp
    moreover have "?m \<le> length t" using lt "1.prems"(1) by simp
    ultimately show ?thesis using "1.IH"(2) [OF lt refl refl _ 2] 2 lt by auto
  next
    case 3
    then have "m = ?m" using "1.prems"(2) eq lt by simp
    with 3 lt show ?thesis by simp
  qed
qed

lemma bsearch_found:
  assumes "sorted_wrt (<) (map fst t)" and "hi \<le> length t" and "lo \<le> m" and "m < hi"
    and "fst (t ! m) = key"
  shows "bsearch t key lo hi \<noteq> None"
  using assms
proof (induction t key lo hi rule: bsearch.induct)
  case (1 t key lo hi)
  let ?m = "lo + (hi - lo) div 2"
  have lt: "lo < hi" and ml: "?m < length t" using "1.prems" by auto
  have mono: "fst (t ! i) < fst (t ! j)" if "i < j" "j < length t" for i j
    using sorted_wrt_nth_less [OF "1.prems"(1), of i j] that by simp
  consider "fst (t ! ?m) < key" | "key < fst (t ! ?m)" | "fst (t ! ?m) = key" by linarith
  then show ?case
  proof cases
    case 1
    then have "?m < m" using mono [of m ?m] ml "1.prems" by (metis linorder_neqE_nat order_less_asym)
    then show ?thesis using "1.IH"(1) [OF lt refl refl 1 "1.prems"(1,2) _ "1.prems"(4,5)] 1 lt
      by (simp add: bsearch.simps [of t key lo] Let_def)
  next
    case 2
    then have "m < ?m" using mono [of ?m m] "1.prems"
      by (metis linorder_neqE_nat order_less_asym order_less_le_trans)
    then show ?thesis
      using "1.IH"(2) [OF lt refl refl _ 2 "1.prems"(1) _ "1.prems"(3) _ "1.prems"(5)] 2 lt ml
      by (simp add: bsearch.simps [of t key lo] Let_def)
  next
    case 3
    with lt show ?thesis by (simp add: bsearch.simps [of t key lo] Let_def)
  qed
qed

end
