(* ===== verification/Precompiles.thy ===== *)
theory Precompiles
  imports Host
begin

text \<open>
  The precompiled contracts of \<open>src/precompiles.rs\<close>: addresses, gas costs, the
  argument parsing of each contract, and, in full, the ones whose work is in the
  repository (identity, modular exponentiation, BLAKE2 compression). Hashes, curve
  arithmetic and signature checks are third-party functions (fields of \<open>host\<close>).
  \<open>BigUint\<close> values are natural numbers.

  \<open>compress_ref\<close> is the BLAKE2b compression of EIP-152/RFC 7693, whose message
  schedule has period 10.
\<close>

unbundle bit_operations_syntax

abbreviation modexp_max_input_len :: nat where "modexp_max_input_len \<equiv> 1024"

definition is_p256 :: "addr160 \<Rightarrow> bool" where
  "is_p256 a = (let b = addr_bytes a in
     take 18 b = replicate 18 0 \<and> b ! 18 = 0x01 \<and> b ! 19 = 0x00)"

definition is_precompile :: "addr160 \<Rightarrow> bool" where
  "is_precompile a = (let b = addr_bytes a in
     if take 19 b = replicate 19 0 \<and> 1 \<le> b ! 19 \<and> b ! 19 \<le> 10 then True
     else is_p256 a)"

text \<open>\<open>BigUint::to_bytes_be\<close>: no leading zeros, one zero byte for zero.\<close>

fun big_bytes :: "nat \<Rightarrow> bytes" where
  "big_bytes n = (if n = 0 then [] else big_bytes (n div 256) @ [of_nat n])"

declare big_bytes.simps [simp del]

definition to_bytes_be :: "nat \<Rightarrow> bytes" where
  "to_bytes_be n = (if n = 0 then [0] else big_bytes n)"

text \<open>\<open>BigUint::try_into().unwrap_or(0)\<close> into a 64-bit integer.\<close>

definition len_or_zero :: "bytes \<Rightarrow> nat" where
  "len_or_zero bs = (if be_nat bs < 2 ^ 64 then be_nat bs else 0)"

section \<open>Contracts\<close>

definition secp256k1_n :: nat where
  "secp256k1_n = 0xFFFFFFFFFFFFFFFFFFFFFFFFFFFFFFFEBAAEDCE6AF48A03BBFD25E8CD0364141"

definition secp256k1_n_half :: nat where
  "secp256k1_n_half = 0x7FFFFFFFFFFFFFFFFFFFFFFFFFFFFFFF5D576E7357A4501DDFE92F46681B20A0"

definition ecrecover :: "host \<Rightarrow> bytes \<Rightarrow> (bytes, exec_error) res" where
  "ecrecover H input =
     (if length input \<noteq> 128 then Ok (replicate 32 0)
      else let msg_hash = sub_list 0 32 input; v_bytes = sub_list 32 64 input;
               r_bytes = sub_list 64 96 input; s_bytes = sub_list 96 128 input;
               v_byte = v_bytes ! 31 in
        if v_byte \<noteq> 27 \<and> v_byte \<noteq> 28 then Ok (replicate 32 0)
        else let recovery_id = v_byte - 27;
                 s_is_high = be_nat s_bytes > secp256k1_n_half in
          if s_is_high \<and> secp256k1_n < be_nat s_bytes then Panic
          else let s_low = to_bytes_be (secp256k1_n - be_nat s_bytes);
                   signature = (if s_is_high
                     then r_bytes @ replicate (32 - length s_low) 0 @ s_low
                     else r_bytes @ s_bytes);
                   recovery_id = (if s_is_high then recovery_id XOR 1 else recovery_id) in
            case hp_recover H msg_hash signature recovery_id of
              None \<Rightarrow> Err PrecompileFailed
            | Some pubkey \<Rightarrow>
                let pubkey_hash = keccak256 H (drop 1 pubkey)
                in Ok (replicate 12 0 @ sub_list 12 32 pubkey_hash))"

definition ripemd160 :: "host \<Rightarrow> bytes \<Rightarrow> (bytes, exec_error) res" where
  "ripemd160 H input = Ok (splice_at 12 (hp_ripemd160 H input) (replicate 32 0))"

definition sha256 :: "host \<Rightarrow> bytes \<Rightarrow> (bytes, exec_error) res" where
  "sha256 H input = Ok (hp_sha256 H input)"

definition identity :: "bytes \<Rightarrow> (bytes, exec_error) res" where
  "identity input = Ok input"

definition p256verify :: "host \<Rightarrow> bytes \<Rightarrow> (bytes, exec_error) res" where
  "p256verify H input =
     (if length input \<noteq> 160 then Ok []
      else if hp_p256_verify H (sub_list 0 32 input) (sub_list 32 64 input)
                (sub_list 64 96 input) (sub_list 96 128 input) (sub_list 128 160 input)
      then Ok ((replicate 32 0)[31 := 1]) else Ok [])"

definition modexp :: "bytes \<Rightarrow> (bytes, exec_error) res" where
  "modexp input =
     (if length input < 96 then Ok []
      else let base_len = len_or_zero (sub_list 0 32 input);
               exp_len = len_or_zero (sub_list 32 64 input);
               mod_len = len_or_zero (sub_list 64 96 input) in
        if base_len > modexp_max_input_len \<or> exp_len > modexp_max_input_len
             \<or> mod_len > modexp_max_input_len then Err PrecompileFailed
        else if base_len + exp_len + mod_len + 96 > length input then Ok []
        else let base = be_nat (sub_list 96 (96 + base_len) input);
                 exp = be_nat (sub_list (96 + base_len) (96 + base_len + exp_len) input);
                 modulus = be_nat (sub_list (96 + base_len + exp_len)
                                     (96 + base_len + exp_len + mod_len) input) in
          if modulus = 0 then Ok (replicate mod_len 0)
          else let result_bytes = to_bytes_be (base ^ exp mod modulus)
               in Ok (if length result_bytes < mod_len
                      then replicate (mod_len - length result_bytes) 0 @ result_bytes
                      else result_bytes))"

text \<open>The position of the highest set bit, from the first non-zero byte on.\<close>

definition byte_bits :: "byte \<Rightarrow> nat" where
  "byte_bits b = 8 - leading_zeros b"

fun bit_len :: "bytes \<Rightarrow> nat" where
  "bit_len [] = 0"
| "bit_len (b # bs) = (if b \<noteq> 0 then length bs * 8 + byte_bits b else bit_len bs)"

definition iteration_count :: "nat \<Rightarrow> nat \<Rightarrow> bytes \<Rightarrow> nat" where
  "iteration_count base_len exp_len input =
     (let exp_start = 96 + base_len in
      if exp_len \<le> 32 \<and> length input \<ge> 96 + base_len + exp_len then
        (let exp_bytes = sub_list exp_start (exp_start + exp_len) input in
         if list_all (\<lambda>b. b = 0) exp_bytes then 0 else bit_len exp_bytes - 1)
      else if exp_len > 32 then
        (if length input \<ge> exp_start + 32 then
           16 * (exp_len - 32) + (bit_len (sub_list exp_start (exp_start + 32) input) - 1)
         else 16 * (exp_len - 32))
      else 1)"

definition modexp_gas_cost :: "bytes \<Rightarrow> nat" where
  "modexp_gas_cost input =
     (if length input < 96 then 500
      else let base_len = len_or_zero (sub_list 0 32 input);
               exp_len = len_or_zero (sub_list 32 64 input);
               mod_len = len_or_zero (sub_list 64 96 input) in
        if base_len > modexp_max_input_len \<or> exp_len > modexp_max_input_len
             \<or> mod_len > modexp_max_input_len then 2 ^ 64 - 1
        else let max_len = max base_len mod_len;
                 words = div_ceil max_len 8;
                 multiplication_complexity = words * words
             in max (multiplication_complexity * max (iteration_count base_len exp_len input) 1) 500)"

text \<open>
  Field elements are natural numbers below the modulus. \<open>copy_from_slice\<close> panics on a
  slice of more than 32 bytes.
\<close>

definition bytes_mod_order :: "nat \<Rightarrow> bytes \<Rightarrow> (nat, exec_error) res" where
  "bytes_mod_order modulus bs =
     (let start = 32 - length bs in
      if length bs = 32 - start then Ok (be_nat (replicate start 0 @ bs) mod modulus) else Panic)"

definition bytes_to_fq :: "host \<Rightarrow> bytes \<Rightarrow> (nat, exec_error) res" where
  "bytes_to_fq H bs = bytes_mod_order (bn_fq_modulus H) bs"

definition bytes_to_fr :: "host \<Rightarrow> bytes \<Rightarrow> (nat, exec_error) res" where
  "bytes_to_fr H bs = bytes_mod_order (bn_fr_modulus H) bs"

definition fq_to_bytes :: "nat \<Rightarrow> bytes" where
  "fq_to_bytes fq = to_be 32 fq"

definition bn_point :: "nat \<Rightarrow> nat \<Rightarrow> nat \<Rightarrow> nat \<Rightarrow> (nat \<times> nat) option" where
  "bn_point x y x_fq y_fq = (if x = 0 \<and> y = 0 then None else Some (x_fq, y_fq))"

definition bn_output :: "(nat \<times> nat) option option \<Rightarrow> (bytes, exec_error) res" where
  "bn_output r = (case r of None \<Rightarrow> Panic
     | Some None \<Rightarrow> Ok (replicate 64 0)
     | Some (Some (x, y)) \<Rightarrow> Ok (fq_to_bytes x @ fq_to_bytes y))"

definition bn128_add :: "host \<Rightarrow> bytes \<Rightarrow> (bytes, exec_error) res" where
  "bn128_add H input =
     (let d = (if length input < 128 then resize0 128 input else input);
          x1 = be_nat (sub_list 0 32 d); y1 = be_nat (sub_list 32 64 d);
          x2 = be_nat (sub_list 64 96 d); y2 = be_nat (sub_list 96 128 d)
      in res_bind (bytes_to_fq H (to_bytes_be x1)) (\<lambda>x1_fq.
         res_bind (bytes_to_fq H (to_bytes_be y1)) (\<lambda>y1_fq.
         res_bind (bytes_to_fq H (to_bytes_be x2)) (\<lambda>x2_fq.
         res_bind (bytes_to_fq H (to_bytes_be y2)) (\<lambda>y2_fq.
           bn_output (hp_bn_add H (bn_point x1 y1 x1_fq y1_fq) (bn_point x2 y2 x2_fq y2_fq)))))))"

definition bn128_mul :: "host \<Rightarrow> bytes \<Rightarrow> (bytes, exec_error) res" where
  "bn128_mul H input =
     (let d = (if length input < 96 then resize0 96 input else input);
          x = be_nat (sub_list 0 32 d); y = be_nat (sub_list 32 64 d);
          scalar = be_nat (sub_list 64 96 d)
      in res_bind (bytes_to_fq H (to_bytes_be x)) (\<lambda>x_fq.
         res_bind (bytes_to_fq H (to_bytes_be y)) (\<lambda>y_fq.
         res_bind (bytes_to_fr H (to_bytes_be scalar)) (\<lambda>scalar_fr.
           bn_output (hp_bn_mul H (bn_point x y x_fq y_fq) scalar_fr)))))"

definition pairing_pair ::
    "host \<Rightarrow> bytes \<Rightarrow> nat
      \<Rightarrow> ((nat \<times> nat) option \<times> (nat \<times> nat \<times> nat \<times> nat) option, exec_error) res" where
  "pairing_pair H input i =
     (let offset = i * 192;
          at = (\<lambda>a. be_nat (sub_list (offset + a) (offset + a + 32) input));
          x1 = at 0; y1 = at 32; x2_c1 = at 64; x2_c0 = at 96; y2_c1 = at 128; y2_c0 = at 160
      in res_bind
           (if x1 = 0 \<and> y1 = 0 then Ok None
            else res_bind (bytes_to_fq H (to_bytes_be x1)) (\<lambda>x_fq.
              res_bind (bytes_to_fq H (to_bytes_be y1)) (\<lambda>y_fq. Ok (Some (x_fq, y_fq)))))
           (\<lambda>g1_point. res_bind
             (if x2_c0 = 0 \<and> x2_c1 = 0 \<and> y2_c0 = 0 \<and> y2_c1 = 0 then Ok None
              else res_bind (bytes_to_fq H (to_bytes_be x2_c0)) (\<lambda>x2_c0_fq.
                res_bind (bytes_to_fq H (to_bytes_be x2_c1)) (\<lambda>x2_c1_fq.
                res_bind (bytes_to_fq H (to_bytes_be y2_c0)) (\<lambda>y2_c0_fq.
                res_bind (bytes_to_fq H (to_bytes_be y2_c1)) (\<lambda>y2_c1_fq.
                  Ok (Some (x2_c0_fq, x2_c1_fq, y2_c0_fq, y2_c1_fq)))))))
             (\<lambda>g2_point. Ok (g1_point, g2_point))))"

fun pairing_pairs ::
    "host \<Rightarrow> bytes \<Rightarrow> nat list
      \<Rightarrow> (((nat \<times> nat) option \<times> (nat \<times> nat \<times> nat \<times> nat) option) list, exec_error) res" where
  "pairing_pairs H input [] = Ok []"
| "pairing_pairs H input (i # is) =
     res_bind (pairing_pair H input i) (\<lambda>p. res_bind (pairing_pairs H input is) (\<lambda>ps. Ok (p # ps)))"

definition bn128_pairing :: "host \<Rightarrow> bytes \<Rightarrow> (bytes, exec_error) res" where
  "bn128_pairing H input =
     (if length input mod 192 \<noteq> 0 then Err PrecompileFailed
      else res_bind (pairing_pairs H input [0..<length input div 192]) (\<lambda>pairs.
        if pairs = [] then Ok ((replicate 32 0)[31 := 1])
        else case hp_bn_pairing H pairs of
          None \<Rightarrow> Panic
        | Some ok \<Rightarrow> Ok (if ok then (replicate 32 0)[31 := 1] else replicate 32 0)))"

text \<open>The trusted setup of the repository is the generator of \<open>G2\<close>.\<close>

definition get_tau_g2_trusted_setup :: "host \<Rightarrow> bytes" where
  "get_tau_g2_trusted_setup H = bls_g2_generator H"

definition verify_kzg_proof ::
    "host \<Rightarrow> bytes \<Rightarrow> bytes \<Rightarrow> bytes \<Rightarrow> bytes \<Rightarrow> (bool, exec_error) res" where
  "verify_kzg_proof H commitment z y proof_bytes =
     (case bls_g1_decompress H commitment of None \<Rightarrow> Err PrecompileFailed
      | Some commitment_point \<Rightarrow>
     (case bls_g1_decompress H proof_bytes of None \<Rightarrow> Err PrecompileFailed
      | Some proof_point \<Rightarrow>
        let z_fr = bls_fr H z; y_fr = bls_fr H y;
            tau_g2 = get_tau_g2_trusted_setup H;
            y_g1 = bls_g1_mul H (bls_g1_generator H) y_fr;
            z_g2 = bls_g2_mul H (bls_g2_generator H) z_fr;
            commitment_minus_y = bls_g1_sub H commitment_point y_g1;
            tau_minus_z_g2 = bls_g2_sub H tau_g2 z_g2;
            lhs = bls_pairing H proof_point tau_minus_z_g2;
            rhs = bls_pairing H commitment_minus_y (bls_g2_generator H)
        in Ok (lhs = rhs)))"

definition kzg_point_evaluation :: "host \<Rightarrow> bytes \<Rightarrow> (bytes, exec_error) res" where
  "kzg_point_evaluation H input =
     (if length input \<noteq> 192 then Err PrecompileFailed
      else res_bind (verify_kzg_proof H (sub_list 96 144 input) (sub_list 32 64 input)
                       (sub_list 64 96 input) (sub_list 144 192 input)) (\<lambda>ok.
        if \<not> ok then Err PrecompileFailed
        else Ok (to_be 32 4096 @
          to_be 32 0x73eda753299d7d483339d80809a1d80553bda402fffe5bfeffffffff00000001)))"

section \<open>BLAKE2 compression\<close>

definition blake_iv :: "u64 list" where
  "blake_iv = [0x6a09e667f3bcc908, 0xbb67ae8584caa73b, 0x3c6ef372fe94f82b, 0xa54ff53a5f1d36f1,
     0x510e527fade682d1, 0x9b05688c2b3e6c1f, 0x1f83d9abfb41bd6b, 0x5be0cd19137e2179]"

definition blake_sigma :: "nat list list" where
  "blake_sigma = [
     [0, 1, 2, 3, 4, 5, 6, 7, 8, 9, 10, 11, 12, 13, 14, 15],
     [14, 10, 4, 8, 9, 15, 13, 6, 1, 12, 0, 2, 11, 7, 5, 3],
     [11, 8, 12, 0, 5, 2, 15, 13, 10, 14, 3, 6, 7, 1, 9, 4],
     [7, 9, 3, 1, 13, 12, 11, 14, 2, 6, 5, 10, 4, 0, 15, 8],
     [9, 0, 5, 7, 2, 4, 10, 15, 14, 1, 11, 12, 6, 8, 3, 13],
     [2, 12, 6, 10, 0, 11, 8, 3, 4, 13, 7, 5, 15, 14, 1, 9],
     [12, 5, 1, 15, 14, 13, 4, 10, 0, 7, 6, 3, 9, 2, 8, 11],
     [13, 11, 7, 14, 12, 1, 3, 9, 5, 0, 15, 4, 8, 6, 2, 10],
     [6, 15, 14, 9, 11, 3, 0, 8, 12, 2, 13, 7, 1, 4, 10, 5],
     [10, 2, 8, 4, 7, 6, 1, 5, 15, 11, 9, 14, 3, 12, 13, 0],
     [0, 1, 2, 3, 4, 5, 6, 7, 8, 9, 10, 11, 12, 13, 14, 15],
     [14, 10, 4, 8, 9, 15, 13, 6, 1, 12, 0, 2, 11, 7, 5, 3]]"

definition mix :: "u64 list \<Rightarrow> nat \<Rightarrow> nat \<Rightarrow> nat \<Rightarrow> nat \<Rightarrow> u64 \<Rightarrow> u64 \<Rightarrow> u64 list" where
  "mix v a b c d x y =
     (let v = v[a := v ! a + v ! b + x];
          v = v[d := word_rotr 32 (v ! d XOR v ! a)];
          v = v[c := v ! c + v ! d];
          v = v[b := word_rotr 24 (v ! b XOR v ! c)];
          v = v[a := v ! a + v ! b + y];
          v = v[d := word_rotr 16 (v ! d XOR v ! a)];
          v = v[c := v ! c + v ! d];
          v = v[b := word_rotr 63 (v ! b XOR v ! c)]
      in v)"

definition blake_round :: "u64 list \<Rightarrow> nat list \<Rightarrow> u64 list \<Rightarrow> u64 list" where
  "blake_round m s v =
     (let v = mix v 0 4 8 12 (m ! (s ! 0)) (m ! (s ! 1));
          v = mix v 1 5 9 13 (m ! (s ! 2)) (m ! (s ! 3));
          v = mix v 2 6 10 14 (m ! (s ! 4)) (m ! (s ! 5));
          v = mix v 3 7 11 15 (m ! (s ! 6)) (m ! (s ! 7));
          v = mix v 0 5 10 15 (m ! (s ! 8)) (m ! (s ! 9));
          v = mix v 1 6 11 12 (m ! (s ! 10)) (m ! (s ! 11));
          v = mix v 2 7 8 13 (m ! (s ! 12)) (m ! (s ! 13));
          v = mix v 3 4 9 14 (m ! (s ! 14)) (m ! (s ! 15))
      in v)"

definition blake_init :: "u64 list \<Rightarrow> u64 list \<Rightarrow> bool \<Rightarrow> u64 list" where
  "blake_init h t f =
     (let v = h @ blake_iv;
          v = v[12 := v ! 12 XOR t ! 0];
          v = v[13 := v ! 13 XOR t ! 1]
      in if f then v[14 := NOT (v ! 14)] else v)"

definition blake_final :: "u64 list \<Rightarrow> u64 list \<Rightarrow> u64 list" where
  "blake_final h v = map (\<lambda>i. h ! i XOR v ! i XOR v ! (i + 8)) [0..<8]"

definition blake2f_compression ::
    "u64 list \<Rightarrow> u64 list \<Rightarrow> u64 list \<Rightarrow> bool \<Rightarrow> nat \<Rightarrow> u64 list" where
  "blake2f_compression h m t f rounds =
     blake_final h (fold (\<lambda>round. blake_round m (blake_sigma ! (round mod 12))) [0..<rounds]
       (blake_init h t f))"

definition le_u64 :: "bytes \<Rightarrow> nat \<Rightarrow> u64" where
  "le_u64 input start = of_nat (be_nat (rev (sub_list start (start + 8) input)))"

definition blake2f :: "bytes \<Rightarrow> (bytes, exec_error) res" where
  "blake2f input =
     (if length input \<noteq> 213 then Err PrecompileFailed
      else let rounds = be_nat (sub_list 0 4 input);
               h = map (\<lambda>i. le_u64 input (4 + i * 8)) [0..<8];
               m = map (\<lambda>i. le_u64 input (68 + i * 8)) [0..<16];
               t = map (\<lambda>i. le_u64 input (196 + i * 8)) [0..<2];
               f = (input ! 212 \<noteq> 0);
               result = blake2f_compression h m t f rounds
           in Ok (concat (map (\<lambda>w. rev (to_be 8 (unat w))) result)))"

definition blake2f_gas_cost :: "bytes \<Rightarrow> nat" where
  "blake2f_gas_cost input = (if length input < 4 then 0 else be_nat (sub_list 0 4 input))"

section \<open>Dispatch\<close>

definition precompile_execute :: "host \<Rightarrow> addr160 \<Rightarrow> bytes \<Rightarrow> (bytes, exec_error) res" where
  "precompile_execute H a input =
     (if is_p256 a then p256verify H input
      else let n = unat (addr_bytes a ! 19) in
        if n = 1 then ecrecover H input
        else if n = 2 then sha256 H input
        else if n = 3 then ripemd160 H input
        else if n = 4 then identity input
        else if n = 5 then modexp input
        else if n = 6 then bn128_add H input
        else if n = 7 then bn128_mul H input
        else if n = 8 then bn128_pairing H input
        else if n = 9 then blake2f input
        else if n = 10 then kzg_point_evaluation H input
        else Err PrecompileFailed)"

text \<open>\<open>u64 as i64\<close>.\<close>

definition i64_of_u64 :: "nat \<Rightarrow> int" where
  "i64_of_u64 n = (if n < 2 ^ 63 then int n else int n - 2 ^ 64)"

definition precompile_gas_cost :: "addr160 \<Rightarrow> bytes \<Rightarrow> int" where
  "precompile_gas_cost a input =
     (if is_p256 a then 6900
      else let n = unat (addr_bytes a ! 19) in
        i64_of_u64
         (if n = 1 then 3000
          else if n = 2 then 60 + 12 * div_ceil (length input) 32
          else if n = 3 then 600 + 120 * div_ceil (length input) 32
          else if n = 4 then 15 + 3 * div_ceil (length input) 32
          else if n = 5 then modexp_gas_cost input
          else if n = 6 then 150
          else if n = 7 then 6000
          else if n = 8 then 45000 + 34000 * (length input div 192)
          else if n = 9 then blake2f_gas_cost input
          else if n = 10 then 50000
          else 0))"

section \<open>Reference: the BLAKE2b message schedule\<close>

definition compress_ref ::
    "u64 list \<Rightarrow> u64 list \<Rightarrow> u64 list \<Rightarrow> bool \<Rightarrow> nat \<Rightarrow> u64 list" where
  "compress_ref h m t f rounds =
     blake_final h (fold (\<lambda>round. blake_round m (take 10 blake_sigma ! (round mod 10))) [0..<rounds]
       (blake_init h t f))"

section \<open>Lemmas\<close>

lemma be_nat_big_bytes: "be_nat (big_bytes n) = n"
proof (induction n rule: big_bytes.induct)
  case (1 n)
  then show ?case by (subst big_bytes.simps) auto
qed

lemma length_big_bytes: "n < 256 ^ k \<Longrightarrow> length (big_bytes n) \<le> k"
proof (induction n arbitrary: k rule: big_bytes.induct)
  case (1 n)
  show ?case
  proof (cases "n = 0")
    case True
    then show ?thesis by (simp add: big_bytes.simps)
  next
    case False
    then obtain k' where k: "k = Suc k'" using 1 by (cases k) auto
    then have "n div 256 < 256 ^ k'" using 1(2) by (simp add: div_less_iff_less_mult mult.commute)
    with 1(1) [OF False, of k'] False k show ?thesis by (subst big_bytes.simps) simp
  qed
qed

lemma be_nat_to_bytes_be [simp]: "be_nat (to_bytes_be n) = n"
  by (simp add: to_bytes_be_def be_nat_big_bytes be_nat_def [of "[0]"])

lemma length_to_bytes_be: "n < 256 ^ k \<Longrightarrow> 0 < k \<Longrightarrow> length (to_bytes_be n) \<le> k"
  by (simp add: to_bytes_be_def length_big_bytes)

lemma blake_sigma_repeats:
  "r < 12 \<Longrightarrow> blake_sigma ! (r mod 12) = take 10 blake_sigma ! (r mod 10)"
proof -
  assume "r < 12"
  then consider "r < 10" | "r = 10" | "r = 11" by linarith
  then show ?thesis
  proof cases
    case 1
    then show ?thesis by simp
  qed (simp_all add: blake_sigma_def)
qed

lemma compression_eq_ref:
  assumes "rounds \<le> 12"
  shows "blake2f_compression h m t f rounds = compress_ref h m t f rounds"
proof -
  have "fold (\<lambda>r. blake_round m (blake_sigma ! (r mod 12))) [0..<rounds] v
      = fold (\<lambda>r. blake_round m (take 10 blake_sigma ! (r mod 10))) [0..<rounds] v" for v
  proof (intro fold_cong refl)
    fix r assume "r \<in> set [0..<rounds]"
    then have "r < 12" using assms by simp
    then show "blake_round m (blake_sigma ! (r mod 12))
        = blake_round m (take 10 blake_sigma ! (r mod 10))"
      by (simp only: blake_sigma_repeats)
  qed
  then show ?thesis by (simp add: blake2f_compression_def compress_ref_def)
qed

end
