(* ===== verification/Machine.thy ===== *)
theory Machine
  imports Ext Opcodes Precompiles
begin

text \<open>
  The state of one call frame of \<open>src/executor.rs\<close> and its primitive operations: the
  gas meter \<open>Gas\<close>, the journal entries \<open>AccountTouch\<close>, the stack machine \<open>Evm\<close>
  with \<open>push\<close>, \<open>pop\<close>, \<open>peek\<close>, \<open>gas\<close>, \<open>error\<close>, the memory expansion and
  address access costs, and the journal roll-back \<open>revert\<close>.

  A frame's computation works on the record \<open>machine\<close>: the \<open>Evm\<close>, the shared
  \<open>Ext\<close>, and the two fields of \<open>Executor\<close> that instructions write, the return-data
  buffer \<open>ret\<close> and the tracer. The stack grows at the end of the list, as the
  \<open>Vec\<close> does.
\<close>

section \<open>Gas\<close>

record gas =
  g_limit :: int
  g_used :: int
  g_refund :: int

definition gas_new :: "int \<Rightarrow> gas" where
  "gas_new limit = \<lparr>g_limit = limit, g_used = 0, g_refund = 0\<rparr>"

definition gas_remaining :: "gas \<Rightarrow> int" where
  "gas_remaining g = g_limit g - g_used g"

definition gas_finalized :: "gas \<Rightarrow> int \<Rightarrow> bool \<Rightarrow> int" where
  "gas_finalized g call_cost reverted =
     (if reverted then g_used g + call_cost
      else let used = g_used g + call_cost;
               cap = min (g_refund g) (trunc_div used 5)
           in used - cap)"

definition gas_fork :: "gas \<Rightarrow> int \<Rightarrow> gas" where
  "gas_fork g limit = \<lparr>g_limit = limit, g_used = 0, g_refund = 0\<rparr>"

definition gas_add_refund :: "int \<Rightarrow> gas \<Rightarrow> gas" where
  "gas_add_refund n g = g\<lparr>g_refund := g_refund g + n\<rparr>"

definition gas_sub :: "int \<Rightarrow> gas \<Rightarrow> (unit, exec_error) res \<times> gas" where
  "gas_sub n g =
     (if n > gas_remaining g then
        (Err OutOfGas, g\<lparr>g_used := g_used g + min n (gas_remaining g)\<rparr>)
      else (Ok (), g\<lparr>g_used := g_used g + n\<rparr>))"

section \<open>Journal entries, logs and the machine\<close>

datatype account_touch =
  T_Noop
| T_WarmUp addr160
| T_FeePay addr160 u256 u256
| T_GetNonce addr160 u64
| T_GetValue addr160 u256
| T_GetCode addr160 u256 bytes
| T_GetState addr160 u256 u256 bool
| T_SetNonce addr160 u64 u64
| T_SetValue addr160 u256 u256
| T_SetState addr160 u256 u256 u256 bool
| T_SetTransientState addr160 u256 u256 u256
| T_Create addr160 u256 u256 bytes u256

fun is_read_only :: "account_touch \<Rightarrow> bool" where
  "is_read_only (T_GetCode _ _ _) = True"
| "is_read_only (T_GetState _ _ _ _) = True"
| "is_read_only (T_GetNonce _ _) = True"
| "is_read_only (T_GetValue _ _) = True"
| "is_read_only _ = False"

fun is_fee_pay :: "account_touch \<Rightarrow> bool" where
  "is_fee_pay (T_FeePay _ _ _) = True"
| "is_fee_pay _ = False"

fun is_create :: "account_touch \<Rightarrow> bool" where
  "is_create (T_Create _ _ _ _ _) = True"
| "is_create _ = False"

definition survives_revert :: "account_touch \<Rightarrow> bool" where
  "survives_revert t = (is_read_only t \<or> is_fee_pay t \<or> is_create t)"

datatype log_entry = Log addr160 "u256 list" bytes

record evm =
  e_memory :: bytes
  e_stack :: "u256 list"
  e_gas :: gas
  e_pc :: nat
  e_stopped :: bool
  e_reverted :: bool
  e_logs :: "log_entry list"
  e_touches :: "account_touch list"
  e_mem_cost :: int
  e_refund :: int

definition evm_default :: evm where
  "evm_default = \<lparr>e_memory = [], e_stack = [], e_gas = gas_new 0, e_pc = 0, e_stopped = False,
     e_reverted = False, e_logs = [], e_touches = [], e_mem_cost = 0, e_refund = 0\<rparr>"

record call_context =
  k_created :: addr160
  k_origin :: addr160
  k_depth :: nat
  k_call_type :: call_type
  k_is_static_call :: bool

definition context_default :: call_context where
  "context_default = \<lparr>k_created = 0, k_origin = 0, k_depth = 0, k_call_type = CT_Call,
     k_is_static_call = False\<rparr>"

datatype step_result = StepOk int | Halt int

record machine =
  m_evm :: evm
  m_ext :: ext
  m_ret :: bytes
  m_trace :: trace

type_synonym 'a exec = "(machine, exec_error, 'a) monad"

abbreviation stack_limit :: nat where "stack_limit \<equiv> 1024"
abbreviation call_depth_limit :: nat where "call_depth_limit \<equiv> 1024"
abbreviation allocation_sanity_limit :: nat where "allocation_sanity_limit \<equiv> 2097152"

abbreviation m_stack :: "machine \<Rightarrow> u256 list" where "m_stack m \<equiv> e_stack (m_evm m)"
abbreviation m_memory :: "machine \<Rightarrow> bytes" where "m_memory m \<equiv> e_memory (m_evm m)"
abbreviation m_gas :: "machine \<Rightarrow> gas" where "m_gas m \<equiv> e_gas (m_evm m)"
abbreviation m_remaining :: "machine \<Rightarrow> int" where "m_remaining m \<equiv> gas_remaining (e_gas (m_evm m))"

section \<open>Primitive operations\<close>

definition upd_evm :: "(evm \<Rightarrow> evm) \<Rightarrow> unit exec" where
  "upd_evm f = modifyM (\<lambda>m. m\<lparr>m_evm := f (m_evm m)\<rparr>)"

text \<open>An operation on \<open>ext\<close>, run inside a frame.\<close>

definition on_ext :: "'a ext_m \<Rightarrow> 'a exec" where
  "on_ext f = (\<lambda>m. case f (m_ext m) of (r, x) \<Rightarrow> (r, m\<lparr>m_ext := x\<rparr>))"

definition trace_push :: "event_data \<Rightarrow> nat \<Rightarrow> bool \<Rightarrow> unit exec" where
  "trace_push d depth reverted = modifyM (\<lambda>m. m\<lparr>m_trace := log_push (m_trace m)
     \<lparr>ev_data = d, ev_depth = depth, ev_reverted = reverted\<rparr>\<rparr>)"

definition touch :: "account_touch \<Rightarrow> unit exec" where
  "touch t = upd_evm (\<lambda>e. e\<lparr>e_touches := e_touches e @ [t]\<rparr>)"

definition set_ret :: "bytes \<Rightarrow> unit exec" where
  "set_ret bs = modifyM (\<lambda>m. m\<lparr>m_ret := bs\<rparr>)"

definition mem_words_cost :: "nat \<Rightarrow> int" where
  "mem_words_cost n = int n * int n div 512 + 3 * int n"

definition memory_expansion_cost :: "int exec" where
  "memory_expansion_cost = (\<lambda>m.
     let mem_cost = mem_words_cost (div_ceil (length (m_memory m)) 32);
         exp_cost = mem_cost - e_mem_cost (m_evm m)
     in (Ok exp_cost, m\<lparr>m_evm := (m_evm m)\<lparr>e_mem_cost := mem_cost\<rparr>\<rparr>))"

definition address_access_cost :: "addr160 \<Rightarrow> int exec" where
  "address_access_cost addr =
     (if is_precompile addr then returnM 100
      else bindM (getsM (\<lambda>m. is_address_warm (m_ext m) addr)) (\<lambda>is_warm.
        if is_warm then returnM 100
        else seqM (on_ext (warm_address addr)) (seqM (touch (T_WarmUp addr)) (returnM 2600))))"

definition error_evm :: "evm \<Rightarrow> evm" where
  "error_evm e = e\<lparr>e_stopped := True, e_reverted := True,
     e_gas := (e_gas e)\<lparr>g_used := g_used (e_gas e) + gas_remaining (e_gas e)\<rparr>\<rparr>"

definition evm_error :: "exec_error \<Rightarrow> 'a exec" where
  "evm_error err = seqM (upd_evm error_evm) (throwM err)"

definition evm_push :: "u256 \<Rightarrow> unit exec" where
  "evm_push v = (\<lambda>m. if length (m_stack m) \<ge> stack_limit then evm_error StackOverflow m
     else upd_evm (\<lambda>e. e\<lparr>e_stack := e_stack e @ [v]\<rparr>) m)"

definition evm_pop :: "u256 exec" where
  "evm_pop = (\<lambda>m. if m_stack m = [] then evm_error StackUnderflow m
     else seqM (upd_evm (\<lambda>e. e\<lparr>e_stack := butlast (e_stack e)\<rparr>)) (returnM (last (m_stack m))) m)"

definition evm_peek :: "nat \<Rightarrow> u256 list exec" where
  "evm_peek n = (\<lambda>m. if length (m_stack m) < n then evm_error StackUnderflow m
     else (Ok (map (\<lambda>i. m_stack m ! (length (m_stack m) - 1 - i)) [0..<n]), m))"

definition evm_gas :: "int \<Rightarrow> unit exec" where
  "evm_gas cost = (\<lambda>m. case gas_sub cost (m_gas m) of
       (Ok _, g) \<Rightarrow> (Ok (), m\<lparr>m_evm := (m_evm m)\<lparr>e_gas := g\<rparr>\<rparr>)
     | (Err err, g) \<Rightarrow> evm_error err (m\<lparr>m_evm := (m_evm m)\<lparr>e_gas := g\<rparr>\<rparr>)
     | (Panic, g) \<Rightarrow> (Panic, m)
     | (OutOfFuel, g) \<Rightarrow> (OutOfFuel, m))"

text \<open>\<open>Evm::get\<close> and \<open>Evm::put\<close>: an error of the state also stops the frame.\<close>

definition evm_get :: "host \<Rightarrow> addr160 \<Rightarrow> u256 \<Rightarrow> u256 exec" where
  "evm_get H addr key = (\<lambda>m. case on_ext (ext_get H addr key) m of
       (Err err, m') \<Rightarrow> evm_error err m'
     | rm \<Rightarrow> rm)"

definition evm_put :: "host \<Rightarrow> addr160 \<Rightarrow> u256 \<Rightarrow> u256 \<Rightarrow> unit exec" where
  "evm_put H addr key val = (\<lambda>m. case on_ext (ext_put H addr key val) m of
       (Err err, m') \<Rightarrow> evm_error err m'
     | rm \<Rightarrow> rm)"

section \<open>Rolling the journal back\<close>

fun revert_touch :: "account_touch \<Rightarrow> unit ext_m" where
  "revert_touch (T_SetState addr key val _ is_warm) =
     seqM (modifyM (set_slot addr key val))
       (if is_warm then returnM ()
        else modifyM (\<lambda>x. x\<lparr>x_accessed_storage := x_accessed_storage x - {(addr, key)}\<rparr>))"
| "revert_touch (T_SetTransientState addr key val _) =
     modifyM (\<lambda>x. x\<lparr>x_transient := (x_transient x)((addr, key) \<mapsto> val)\<rparr>)"
| "revert_touch (T_GetState addr key _ is_warm) =
     (if is_warm then returnM ()
      else modifyM (\<lambda>x. x\<lparr>x_accessed_storage := x_accessed_storage x - {(addr, key)}\<rparr>))"
| "revert_touch (T_SetNonce addr val _) = set_nonce addr (ucast val)"
| "revert_touch (T_SetValue addr val _) = set_value addr val"
| "revert_touch (T_Create addr _ _ _ _) =
     seqM (set_code addr ([], from_bytes hash_empty))
       (seqM (set_nonce addr 0) (set_value addr 0))"
| "revert_touch (T_WarmUp addr) =
     modifyM (\<lambda>x. x\<lparr>x_accessed_addresses := x_accessed_addresses x - {addr}\<rparr>)"
| "revert_touch _ = returnM ()"

fun revert_all :: "account_touch list \<Rightarrow> unit ext_m" where
  "revert_all [] = returnM ()"
| "revert_all (t # ts) = seqM (revert_touch t) (revert_all ts)"

definition evm_revert :: "evm \<Rightarrow> unit ext_m" where
  "evm_revert e = revert_all (rev (e_touches e))"

section \<open>What an instruction sees\<close>

text \<open>
  The read-only surroundings of \<open>execute_instruction\<close>: the build and third-party
  functions, the block header, the code, the call, the context and the instruction.
\<close>

record frame =
  f_host :: host
  f_header :: header
  f_code :: bytecode
  f_call :: call
  f_ctx :: call_context
  f_instr :: instruction

definition frame_this :: "frame \<Rightarrow> addr160" where
  "frame_this F = (if addr_is_zero (c_to (f_call F)) then k_created (f_ctx F) else c_to (f_call F))"

abbreviation f_depth :: "frame \<Rightarrow> nat" where "f_depth F \<equiv> k_depth (f_ctx F)"
abbreviation f_op :: "frame \<Rightarrow> byte" where "f_op F \<equiv> op_code (i_opcode (f_instr F))"

text \<open>\<open>if evm.gas.remaining() < gas { return Ok(StepResult::Halt(gas)) }\<close>.\<close>

definition guard_gas :: "int \<Rightarrow> step_result exec \<Rightarrow> step_result exec" where
  "guard_gas g k = (\<lambda>m. if m_remaining m < g then (Ok (Halt g), m) else k m)"

text \<open>The common end of \<open>execute_instruction\<close>: advance the program counter, report the cost.\<close>

definition next_pc :: "int \<Rightarrow> step_result exec" where
  "next_pc g = seqM (upd_evm (\<lambda>e. e\<lparr>e_pc := e_pc e + 1\<rparr>)) (returnM (StepOk g))"

text \<open>The arms that charge a fixed price first.\<close>

definition fixed_cost :: "int \<Rightarrow> unit exec \<Rightarrow> step_result exec" where
  "fixed_cost g body = guard_gas g (seqM body (next_pc g))"

definition pop_usize :: "nat exec" where
  "pop_usize = bindM evm_pop (\<lambda>w. liftM (as_usize w))"

definition pop_address :: "addr160 exec" where
  "pop_address = bindM evm_pop (\<lambda>w. returnM (addr_of_word w))"

text \<open>
  \<open>evm.memory.resize(n, 0)\<close>. A request above \<open>alloc_limit\<close> (64 GiB) is taken to abort
  the process: below it the \<open>i64\<close> arithmetic of \<open>memory_expansion_cost\<close> is exact.
\<close>

abbreviation alloc_limit :: nat where "alloc_limit \<equiv> 68719476736"

definition resize_memory :: "nat \<Rightarrow> unit exec" where
  "resize_memory n =
     (if n > alloc_limit then panicM
      else upd_evm (\<lambda>e. e\<lparr>e_memory := resize0 n (e_memory e)\<rparr>))"

definition padded :: "nat \<Rightarrow> nat" where
  "padded n = n + (32 - n mod 32) mod 32"

text \<open>
  The expansion shared by the memory instructions: when \<open>end\<close> lies beyond the memory,
  refuse above the sanity limit, else grow to the next multiple of 32.
\<close>

definition expand_memory :: "nat \<Rightarrow> unit exec" where
  "expand_memory n = (\<lambda>m.
     if n > length (m_memory m) then
       (if n > allocation_sanity_limit then throwM (InvalidAllocation n) m
        else resize_memory (padded n) m)
     else (Ok (), m))"

text \<open>\<open>evm.memory[a..b]\<close> and \<open>evm.memory[a..a + len].copy_from_slice(data)\<close>.\<close>

definition read_memory :: "nat \<Rightarrow> nat \<Rightarrow> bytes exec" where
  "read_memory a b = (\<lambda>m.
     if slice_ok a b (m_memory m) then (Ok (sub_list a b (m_memory m)), m) else (Panic, m))"

definition write_memory :: "nat \<Rightarrow> nat \<Rightarrow> bytes \<Rightarrow> unit exec" where
  "write_memory a b data = (\<lambda>m.
     if slice_ok a b (m_memory m) \<and> length data = b - a
     then upd_evm (\<lambda>e. e\<lparr>e_memory := splice_at a data (e_memory e)\<rparr>) m
     else (Panic, m))"

text \<open>\<open>memory.chunks(32).map(Word::from_bytes)\<close>.\<close>

function chunks32 :: "bytes \<Rightarrow> u256 list" where
  "chunks32 bs = (if bs = [] then [] else from_bytes (take 32 bs) # chunks32 (drop 32 bs))"
  by pat_completeness auto
termination
  by (relation "measure length") auto

declare chunks32.simps [simp del]

definition opcode_event_of :: "frame \<Rightarrow> evm \<Rightarrow> int \<Rightarrow> int \<Rightarrow> int \<Rightarrow> int \<Rightarrow> event_data" where
  "opcode_event_of F e cost used left back =
     ED_OpCode \<lparr>oe_pc = i_offset (f_instr F), oe_op = f_op F,
       oe_name = opcode_name (i_opcode (f_instr F)), oe_data = i_argument (f_instr F),
       oe_gas_cost = cost, oe_gas_used = used, oe_gas_left = left, oe_gas_back = back,
       oe_stack = e_stack e, oe_memory = chunks32 (e_memory e)\<rparr>"

definition trace_opcode :: "frame \<Rightarrow> bool \<Rightarrow> (evm \<Rightarrow> int \<times> int \<times> int \<times> int) \<Rightarrow> unit exec" where
  "trace_opcode F reverted costs =
     bindM (getsM m_evm) (\<lambda>e. case costs e of (cost, used, left, back) \<Rightarrow>
       trace_push (opcode_event_of F e cost used left back) (f_depth F) reverted)"

end
