(* ===== verification/FrameLogic.thy ===== *)
theory FrameLogic
  imports Machine
begin

text \<open>
  Proof rules for the computations of a frame.

  \<open>quiet g d c\<close>: the computation \<open>c\<close> leaves the gas meter alone, never runs out of the
  model's fuel, never lets the stack exceed its limit, and when it returns has changed the
  height of the stack by exactly \<open>d\<close>; the memory keeps its length or, when \<open>g\<close> holds,
  may grow by whole words. After an error only the gas limit is known to be the same. The
  rules in \<open>quiet_intros\<close> follow the structure of a computation, so an instruction's
  stack effect is read off its text.

  \<open>preserves R c\<close>: whatever the outcome, the states before and after are related. The
  locale \<open>step_relation\<close> gives the composition rules for every reflexive and transitive
  relation.
\<close>

section \<open>Quiet computations\<close>

definition memory_step :: "bool \<Rightarrow> nat \<Rightarrow> nat \<Rightarrow> bool" where
  "memory_step g n n' \<longleftrightarrow> (if g then n \<le> n' \<and> n' \<le> max n alloc_limit \<and> (32 dvd n \<longrightarrow> 32 dvd n')
     else n' = n)"

definition quiet_step :: "bool \<Rightarrow> int \<Rightarrow> machine \<Rightarrow> machine \<Rightarrow> bool" where
  "quiet_step g d m m' \<longleftrightarrow>
     g_used (m_gas m') = g_used (m_gas m) \<and>
     memory_step g (length (m_memory m)) (length (m_memory m')) \<and>
     e_mem_cost (m_evm m') = e_mem_cost (m_evm m) \<and> e_stopped (m_evm m') = e_stopped (m_evm m) \<and>
     int (length (m_stack m')) = int (length (m_stack m)) + d \<and>
     (length (m_stack m) \<le> stack_limit \<longrightarrow> length (m_stack m') \<le> stack_limit)"

definition quiet :: "bool \<Rightarrow> int \<Rightarrow> 'a exec \<Rightarrow> bool" where
  "quiet g d c \<longleftrightarrow> (\<forall>m r m'. c m = (r, m') \<longrightarrow>
     r \<noteq> OutOfFuel \<and> g_limit (m_gas m') = g_limit (m_gas m) \<and>
     (is_Ok r \<longrightarrow> quiet_step g d m m'))"

lemma quietI:
  assumes "\<And>m r m'. c m = (r, m') \<Longrightarrow> r \<noteq> OutOfFuel"
    and "\<And>m r m'. c m = (r, m') \<Longrightarrow> g_limit (m_gas m') = g_limit (m_gas m)"
    and "\<And>m a m'. c m = (Ok a, m') \<Longrightarrow> quiet_step g d m m'"
  shows "quiet g d c"
  using assms unfolding quiet_def by (metis is_Ok.elims(2))

lemma quiet_fuel: "quiet g d c \<Longrightarrow> c m = (r, m') \<Longrightarrow> r \<noteq> OutOfFuel"
  by (auto simp: quiet_def)

lemma quiet_limit: "quiet g d c \<Longrightarrow> c m = (r, m') \<Longrightarrow> g_limit (m_gas m') = g_limit (m_gas m)"
  by (auto simp: quiet_def)

lemma quiet_Ok: "quiet g d c \<Longrightarrow> c m = (Ok a, m') \<Longrightarrow> quiet_step g d m m'"
  by (auto simp: quiet_def)

lemma memory_step_refl [simp]: "memory_step g n n"
  by (simp add: memory_step_def)

lemma memory_step_trans: "memory_step g a b \<Longrightarrow> memory_step g b c \<Longrightarrow> memory_step g a c"
  by (auto simp: memory_step_def split: if_splits)

lemma quiet_step_trans:
  "quiet_step g d1 m m1 \<Longrightarrow> quiet_step g d2 m1 m2 \<Longrightarrow> quiet_step g (d1 + d2) m m2"
  by (auto simp: quiet_step_def intro: memory_step_trans)

lemma quiet_bind [quiet_intros]:
  assumes "quiet g d1 c" and "\<And>a. quiet g d2 (f a)" and "d = d1 + d2"
  shows "quiet g d (bindM c f)"
proof (rule quietI)
  fix m r m' assume b: "bindM c f m = (r, m')"
  show "r \<noteq> OutOfFuel"
    by (rule bindM_outcome [OF b]) (use assms in \<open>auto dest: quiet_fuel\<close>)
  show "g_limit (m_gas m') = g_limit (m_gas m)"
    by (rule bindM_outcome [OF b])
      (use quiet_limit [OF assms(1), of m] quiet_limit [OF assms(2)] in \<open>force+\<close>)
next
  fix m a m' assume "bindM c f m = (Ok a, m')"
  then obtain a1 m1 where "c m = (Ok a1, m1)" "f a1 m1 = (Ok a, m')" by (auto simp: bindM_Ok_iff)
  then show "quiet_step g d m m'"
    using assms quiet_step_trans [of g d1 m m1 d2 m'] by (auto dest!: quiet_Ok)
qed

lemma quiet_seq [quiet_intros]:
  "quiet g d1 c \<Longrightarrow> quiet g d2 k \<Longrightarrow> d = d1 + d2 \<Longrightarrow> quiet g d (seqM c k)"
  unfolding seqM_def by (rule quiet_bind)

lemma quiet_return [quiet_intros]: "quiet g 0 (returnM a)"
  by (simp add: quiet_def quiet_step_def returnM_def)

lemma quiet_gets [quiet_intros]: "quiet g 0 (getsM f)"
  by (simp add: quiet_def quiet_step_def getsM_def)

lemma quiet_throw [quiet_intros]: "quiet g d (throwM e)"
  by (simp add: quiet_def throwM_def)

lemma quiet_panic [quiet_intros]: "quiet g d panicM"
  by (simp add: quiet_def panicM_def)

lemma quiet_lift [quiet_intros]: "r \<noteq> OutOfFuel \<Longrightarrow> quiet g 0 (liftM r)"
  by (auto simp: quiet_def quiet_step_def liftM_def)

lemma quiet_upd:
  assumes "\<And>e. g_limit (e_gas (f e)) = g_limit (e_gas e)" "\<And>e. g_used (e_gas (f e)) = g_used (e_gas e)"
    "\<And>e. length (e_memory (f e)) = length (e_memory e)" "\<And>e. e_mem_cost (f e) = e_mem_cost e"
    "\<And>e. e_stopped (f e) = e_stopped e" "\<And>e. length (e_stack (f e)) = length (e_stack e)"
  shows "quiet g 0 (upd_evm f)"
  using assms by (auto simp: quiet_def quiet_step_def upd_evm_def modifyM_def)

lemma quiet_modify:
  "(\<And>m. m_evm (f m) = m_evm m) \<Longrightarrow> quiet g 0 (modifyM f)"
  by (auto simp: quiet_def quiet_step_def modifyM_def)

lemma quiet_on_ext: "(\<And>x r x'. c x = (r, x') \<Longrightarrow> r \<noteq> OutOfFuel) \<Longrightarrow> quiet g 0 (on_ext c)"
  by (auto simp: quiet_def quiet_step_def on_ext_def split: prod.splits)

lemma quiet_if [quiet_intros]:
  "(b \<Longrightarrow> quiet g d c) \<Longrightarrow> (\<not> b \<Longrightarrow> quiet g d k) \<Longrightarrow> quiet g d (if b then c else k)"
  by simp

lemma quiet_option [quiet_intros]:
  "(\<And>a. x = Some a \<Longrightarrow> quiet g d (f a)) \<Longrightarrow> (x = None \<Longrightarrow> quiet g d k) \<Longrightarrow>
     quiet g d (case x of None \<Rightarrow> k | Some a \<Rightarrow> f a)"
  by (cases x) auto

lemma quiet_prod [quiet_intros]:
  "(\<And>a b. p = (a, b) \<Longrightarrow> quiet g d (f a b)) \<Longrightarrow> quiet g d (case p of (a, b) \<Rightarrow> f a b)"
  by (cases p) auto

lemma quiet_Let [quiet_intros]: "quiet g d (f a) \<Longrightarrow> quiet g d (Let a f)"
  by simp

lemma error_evm_limit [simp]: "g_limit (e_gas (error_evm e)) = g_limit (e_gas e)"
  by (simp add: error_evm_def)

lemma evm_error_eq: "evm_error err m = (Err err, m\<lparr>m_evm := error_evm (m_evm m)\<rparr>)"
  by (simp add: evm_error_def upd_evm_def monad_defs)

lemma quiet_error [quiet_intros]: "quiet g d (evm_error err)"
  by (simp add: quiet_def evm_error_eq)

lemma evm_push_eq: "evm_push v m = (if length (m_stack m) \<ge> stack_limit
    then (Err StackOverflow, m\<lparr>m_evm := error_evm (m_evm m)\<rparr>)
    else (Ok (), m\<lparr>m_evm := (m_evm m)\<lparr>e_stack := m_stack m @ [v]\<rparr>\<rparr>))"
  by (simp add: evm_push_def evm_error_eq upd_evm_def monad_defs)

lemma evm_pop_eq: "evm_pop m = (if m_stack m = []
    then (Err StackUnderflow, m\<lparr>m_evm := error_evm (m_evm m)\<rparr>)
    else (Ok (last (m_stack m)), m\<lparr>m_evm := (m_evm m)\<lparr>e_stack := butlast (m_stack m)\<rparr>\<rparr>))"
  by (simp add: evm_pop_def evm_error_eq upd_evm_def monad_defs)

lemma quiet_push [quiet_intros]: "quiet g 1 (evm_push v)"
  by (auto simp: quiet_def quiet_step_def evm_push_eq)

lemma quiet_pop [quiet_intros]: "quiet g (- 1) evm_pop"
  by (auto simp: quiet_def quiet_step_def evm_pop_eq of_nat_diff Suc_le_eq)

lemma quiet_peek [quiet_intros]: "quiet g 0 (evm_peek n)"
  by (auto simp: quiet_def quiet_step_def evm_peek_def evm_error_eq split: if_splits)

lemma as_usize_fuel [simp]: "as_usize w \<noteq> OutOfFuel"
  by (simp add: as_usize_def)

lemma as_u64_fuel [simp]: "as_u64 w \<noteq> OutOfFuel"
  by (simp add: as_u64_def)

lemma usize_add_fuel [simp]: "usize_add H a b \<noteq> OutOfFuel"
  by (simp add: usize_add_def)

lemma quiet_pop_usize [quiet_intros]: "quiet g (- 1) pop_usize"
  unfolding pop_usize_def by (rule quiet_intros refl | simp)+

lemma quiet_pop_address [quiet_intros]: "quiet g (- 1) pop_address"
  unfolding pop_address_def by (rule quiet_intros refl | simp)+

lemma quiet_trace [quiet_intros]: "quiet g 0 (trace_push d n b)"
  unfolding trace_push_def by (rule quiet_modify) simp

lemma quiet_trace_opcode [quiet_intros]: "quiet g 0 (trace_opcode F r costs)"
  unfolding trace_opcode_def by (rule quiet_intros refl | simp)+

lemma quiet_touch [quiet_intros]: "quiet g 0 (touch t)"
  unfolding touch_def by (rule quiet_upd) simp_all

lemma quiet_set_ret [quiet_intros]: "quiet g 0 (set_ret bs)"
  unfolding set_ret_def by (rule quiet_modify) simp

lemma quiet_read_memory [quiet_intros]: "quiet g 0 (read_memory a b)"
  by (auto simp: quiet_def quiet_step_def read_memory_def split: if_splits)

lemma quiet_write_memory [quiet_intros]: "quiet g 0 (write_memory a b data)"
  by (auto simp: quiet_def quiet_step_def write_memory_def upd_evm_def modifyM_def slice_ok_def
      split: if_splits)

lemma padded_dvd: "32 dvd padded n"
proof -
  define q r where "q = n div 32" and "r = n mod 32"
  then have n: "n = 32 * q + r" and r: "r < 32" and mod: "n mod 32 = r" by simp_all
  show ?thesis
  proof (cases "r = 0")
    case True
    then show ?thesis unfolding padded_def mod by (simp add: n)
  next
    case False
    then have "padded n = 32 * (q + 1)" unfolding padded_def mod n using r by simp
    then show ?thesis by simp
  qed
qed

lemma padded_ge: "n \<le> padded n"
  by (simp add: padded_def)

lemma padded_le: "padded n \<le> n + 31"
proof -
  have "(32 - n mod 32) mod 32 < 32" by simp
  then show ?thesis unfolding padded_def by linarith
qed

lemma quiet_expand [quiet_intros]: "quiet True 0 (expand_memory n)"
  using padded_dvd [of n] padded_ge [of n]
  by (auto simp: quiet_def quiet_step_def expand_memory_def resize_memory_def upd_evm_def monad_defs
      memory_step_def split: if_splits)

section \<open>State operations are quiet\<close>

lemma ext_pull_fuel: "ext_pull H a x = (r, x') \<Longrightarrow> r \<noteq> OutOfFuel"
  by (auto simp: ext_pull_def query_def monad_defs Let_def split: option.splits)

lemma lazy_read_fuel:
  assumes "read x = (case x_state x a of Some acc \<Rightarrow> (Ok (sel acc), x)
              | None \<Rightarrow> bindM (ext_pull H a) (\<lambda>acc. returnM (sel acc)) x)"
    and "read x = (r, x')"
  shows "r \<noteq> OutOfFuel"
  using assms by (auto simp: monad_defs dest: ext_pull_fuel split: option.splits prod.splits res.splits)

lemma ext_balance_fuel: "ext_balance H a x = (r, x') \<Longrightarrow> r \<noteq> OutOfFuel"
  by (erule lazy_read_fuel [rotated]) (simp add: ext_balance_def)

lemma ext_nonce_fuel: "ext_nonce H a x = (r, x') \<Longrightarrow> r \<noteq> OutOfFuel"
  by (erule lazy_read_fuel [rotated]) (simp add: ext_nonce_def)

lemma ext_code_fuel: "ext_code H a x = (r, x') \<Longrightarrow> r \<noteq> OutOfFuel"
  by (erule lazy_read_fuel [rotated]) (simp add: ext_code_def)

lemma ext_is_empty_fuel: "ext_is_empty H a x = (r, x') \<Longrightarrow> r \<noteq> OutOfFuel"
  by (auto simp: ext_is_empty_def monad_defs split: prod.splits res.splits
      dest: ext_balance_fuel ext_nonce_fuel ext_code_fuel)

lemma ext_get_fuel: "ext_get H a k x = (r, x') \<Longrightarrow> r \<noteq> OutOfFuel"
  by (auto simp: ext_get_def query_def monad_defs dest: ext_pull_fuel
      split: option.splits prod.splits res.splits if_splits)

lemma ext_put_fuel: "ext_put H a k v x = (r, x') \<Longrightarrow> r \<noteq> OutOfFuel"
  using ext_put_eq [of H a k v x] by auto

lemma ext_get_block_hash_fuel: "ext_get_block_hash n x = (r, x') \<Longrightarrow> r \<noteq> OutOfFuel"
  by (auto simp: ext_get_block_hash_def query_def monad_defs split: option.splits)

lemma account_upd_fuel: "account_upd a f x = (r, x') \<Longrightarrow> r \<noteq> OutOfFuel"
  by (auto simp: account_upd_def split: option.splits)

lemma modifyM_fuel: "modifyM f x = (r, x') \<Longrightarrow> r \<noteq> OutOfFuel"
  by (auto simp: modifyM_def)

lemma entry_fuel: "entry_or_default a x = (r, x') \<Longrightarrow> r \<noteq> OutOfFuel"
  unfolding entry_or_default_def by (rule modifyM_fuel)

lemma warm_fuel:
  "warm_address a x = (r, x') \<Longrightarrow> r \<noteq> OutOfFuel"
  "warm_storage a k x = (r, x') \<Longrightarrow> r \<noteq> OutOfFuel"
  by (auto simp: warm_address_def warm_storage_def)

lemma account_get_fuel: "account_get a x = (r, x') \<Longrightarrow> r \<noteq> OutOfFuel"
  by (auto simp: account_get_def split: option.splits)

lemma quiet_ext [quiet_intros]:
  "quiet g 0 (on_ext (ext_balance H a))" "quiet g 0 (on_ext (ext_nonce H a))"
  "quiet g 0 (on_ext (ext_code H a))" "quiet g 0 (on_ext (ext_is_empty H a))"
  "quiet g 0 (on_ext (ext_get H a k))" "quiet g 0 (on_ext (ext_put H a k v))"
  "quiet g 0 (on_ext (ext_get_block_hash n))" "quiet g 0 (on_ext (account_upd a f))"
  "quiet g 0 (on_ext (modifyM h))" "quiet g 0 (on_ext (entry_or_default a))"
  "quiet g 0 (on_ext (account_get a))" "quiet g 0 (on_ext (warm_address a))"
  "quiet g 0 (on_ext (warm_storage a k))"
  by (rule quiet_on_ext, erule ext_balance_fuel ext_nonce_fuel ext_code_fuel ext_is_empty_fuel
      ext_get_fuel ext_put_fuel ext_get_block_hash_fuel account_upd_fuel modifyM_fuel entry_fuel
      account_get_fuel warm_fuel)+

lemma quiet_setters [quiet_intros]:
  "quiet g 0 (on_ext (set_value a v))" "quiet g 0 (on_ext (set_nonce a v))"
  "quiet g 0 (on_ext (set_code a c))"
  unfolding set_value_def set_nonce_def set_code_def by (rule quiet_ext(8))+

lemma quiet_access_cost [quiet_intros]: "quiet g 0 (address_access_cost a)"
  unfolding address_access_cost_def by (rule quiet_intros refl | simp)+

lemma quiet_get [quiet_intros]: "quiet g 0 (evm_get H a k)"
  using quiet_ext(5) [of g H a k]
  by (fastforce simp: quiet_def evm_get_def evm_error_eq split: prod.splits res.splits)

lemma quiet_put [quiet_intros]: "quiet g 0 (evm_put H a k v)"
  using quiet_ext(6) [of g H a k v]
  by (fastforce simp: quiet_def evm_put_def evm_error_eq split: prod.splits res.splits)

section \<open>Laws of an instruction\<close>

text \<open>
  Between instructions the stack respects its limit, the memory is a whole number of
  words, and its price has been recorded.
\<close>

definition frame_inv :: "machine \<Rightarrow> bool" where
  "frame_inv m \<longleftrightarrow> length (m_stack m) \<le> stack_limit \<and> 32 dvd length (m_memory m) \<and>
     length (m_memory m) \<le> alloc_limit \<and>
     e_mem_cost (m_evm m) = mem_words_cost (div_ceil (length (m_memory m)) 32)"

text \<open>
  \<open>lawful N F h\<close>: the instruction \<open>h\<close> keeps the gas limit and the invariant; when it
  asks to go on, what it charged and what it asks the loop to charge is at least 1 (or it
  has stopped the frame, or it is \<open>INVALID\<close>, which the loop turns into a halt); and
  \<open>N\<close> units of fuel are enough for it when they exceed the remaining gas.
\<close>

definition lawful_result :: "frame \<Rightarrow> machine \<Rightarrow> step_result \<Rightarrow> machine \<Rightarrow> bool" where
  "lawful_result F m s m' \<longleftrightarrow> (case s of Halt _ \<Rightarrow> True | StepOk c \<Rightarrow>
     frame_inv m' \<and>
       (g_used (m_gas m) + 1 \<le> g_used (m_gas m') + c \<or>
        (e_stopped (m_evm m') \<or> f_op F = 0xfe) \<and> g_used (m_gas m) \<le> g_used (m_gas m') + c))"

definition lawful :: "nat \<Rightarrow> frame \<Rightarrow> step_result exec \<Rightarrow> bool" where
  "lawful N F h \<longleftrightarrow> (\<forall>m r m'. frame_inv m \<longrightarrow> h m = (r, m') \<longrightarrow>
     g_limit (m_gas m') = g_limit (m_gas m) \<and>
     (m_remaining m + 1 \<le> int N \<longrightarrow> r \<noteq> OutOfFuel) \<and>
     (\<forall>s. r = Ok s \<longrightarrow> lawful_result F m s m'))"

lemma lawfulI:
  assumes "\<And>m r m'. frame_inv m \<Longrightarrow> h m = (r, m') \<Longrightarrow> r \<noteq> OutOfFuel"
    and "\<And>m r m'. frame_inv m \<Longrightarrow> h m = (r, m') \<Longrightarrow> g_limit (m_gas m') = g_limit (m_gas m)"
    and "\<And>m s m'. frame_inv m \<Longrightarrow> h m = (Ok s, m') \<Longrightarrow> lawful_result F m s m'"
  shows "lawful N F h"
  using assms unfolding lawful_def by blast

text \<open>
  \<open>priced p d h\<close>: \<open>h\<close> is quiet with stack effect \<open>d\<close> and, when it goes on, asks for at
  least \<open>p\<close>.
\<close>

definition priced :: "int \<Rightarrow> int \<Rightarrow> step_result exec \<Rightarrow> bool" where
  "priced p d h \<longleftrightarrow> (\<forall>m r m'. h m = (r, m') \<longrightarrow>
     r \<noteq> OutOfFuel \<and> g_limit (m_gas m') = g_limit (m_gas m) \<and>
     (\<forall>c. r = Ok (StepOk c) \<longrightarrow> quiet_step False d m m' \<and> p \<le> c))"

lemma priced_lawful: "priced 1 d h \<Longrightarrow> lawful N F h"
  by (rule lawfulI)
    (auto simp: priced_def lawful_result_def quiet_step_def frame_inv_def memory_step_def
      split: step_result.splits)

lemma next_pc_eq: "next_pc g m = (Ok (StepOk g), m\<lparr>m_evm := (m_evm m)\<lparr>e_pc := e_pc (m_evm m) + 1\<rparr>\<rparr>)"
  by (simp add: next_pc_def upd_evm_def monad_defs)

lemma priced_next [quiet_intros]: "p \<le> g \<Longrightarrow> priced p 0 (next_pc g)"
  by (simp add: priced_def next_pc_eq quiet_step_def)

lemma priced_bind [quiet_intros]:
  assumes "quiet False d1 c" and "\<And>a. priced p d2 (f a)" and "d = d1 + d2"
  shows "priced p d (bindM c f)"
  unfolding priced_def
proof (intro allI impI conjI)
  fix m r m' assume b: "bindM c f m = (r, m')"
  show "r \<noteq> OutOfFuel"
    by (rule bindM_outcome [OF b]) (use assms in \<open>auto simp: priced_def dest: quiet_fuel\<close>)
  show "g_limit (m_gas m') = g_limit (m_gas m)"
    by (rule bindM_outcome [OF b])
      (use quiet_limit [OF assms(1), of m] assms(2) [unfolded priced_def] in \<open>force+\<close>)
  fix s assume "r = Ok (StepOk s)"
  with b obtain a1 m1 where c: "c m = (Ok a1, m1)" "f a1 m1 = (Ok (StepOk s), m')"
    by (auto simp: bindM_Ok_iff)
  show "p \<le> s" using assms(2) c(2) by (auto simp: priced_def)
  have "quiet_step False d2 m1 m'" using assms(2) c(2) by (auto simp: priced_def)
  then show "quiet_step False d m m'"
    unfolding assms(3) by (rule quiet_step_trans [OF quiet_Ok [OF assms(1) c(1)]])
qed

lemma priced_seq [quiet_intros]:
  "quiet False d1 c \<Longrightarrow> priced p d2 k \<Longrightarrow> d = d1 + d2 \<Longrightarrow> priced p d (seqM c k)"
  unfolding seqM_def by (rule priced_bind)

lemma priced_guard [quiet_intros]: "priced p d k \<Longrightarrow> priced p d (guard_gas g k)"
  by (auto simp: priced_def guard_gas_def split: if_splits)

lemma priced_halt [quiet_intros]: "priced p d (returnM (Halt g))"
  by (simp add: priced_def returnM_def)

lemma priced_throw [quiet_intros]: "priced p d (throwM e)"
  by (simp add: priced_def throwM_def)

lemma priced_panic [quiet_intros]: "priced p d panicM"
  by (simp add: priced_def panicM_def)

lemma priced_if [quiet_intros]:
  "(b \<Longrightarrow> priced p d c) \<Longrightarrow> (\<not> b \<Longrightarrow> priced p d k) \<Longrightarrow> priced p d (if b then c else k)"
  by simp

lemma priced_option [quiet_intros]:
  "(\<And>a. x = Some a \<Longrightarrow> priced p d (f a)) \<Longrightarrow> (x = None \<Longrightarrow> priced p d k) \<Longrightarrow>
     priced p d (case x of None \<Rightarrow> k | Some a \<Rightarrow> f a)"
  by (cases x) auto

lemma priced_prod [quiet_intros]:
  "(\<And>a b. ab = (a, b) \<Longrightarrow> priced p d (f a b)) \<Longrightarrow> priced p d (case ab of (a, b) \<Rightarrow> f a b)"
  by (cases ab) auto

lemma priced_Let [quiet_intros]: "priced p d (f a) \<Longrightarrow> priced p d (Let a f)"
  by simp

lemma priced_fixed [quiet_intros]: "quiet False d body \<Longrightarrow> p \<le> g \<Longrightarrow> priced p d (fixed_cost g body)"
  unfolding fixed_cost_def by (rule quiet_intros refl | simp)+

text \<open>
  \<open>metered p d h\<close>: like \<open>priced\<close>, for instructions that grow the memory. They may start
  with memory that is not paid for yet (\<open>slack\<close>); when they go on, it is.
\<close>

definition slack :: "machine \<Rightarrow> bool" where
  "slack m \<longleftrightarrow> 32 dvd length (m_memory m) \<and> length (m_memory m) \<le> alloc_limit \<and>
     e_mem_cost (m_evm m) \<le> mem_words_cost (div_ceil (length (m_memory m)) 32)"

definition metered_step :: "int \<Rightarrow> machine \<Rightarrow> machine \<Rightarrow> bool" where
  "metered_step d m m' \<longleftrightarrow>
     g_used (m_gas m') = g_used (m_gas m) \<and> 32 dvd length (m_memory m') \<and>
     length (m_memory m') \<le> alloc_limit \<and>
     e_mem_cost (m_evm m') = mem_words_cost (div_ceil (length (m_memory m')) 32) \<and>
     e_stopped (m_evm m') = e_stopped (m_evm m) \<and>
     length (m_memory m) \<le> length (m_memory m') \<and>
     int (length (m_stack m')) = int (length (m_stack m)) + d \<and>
     (length (m_stack m) \<le> stack_limit \<longrightarrow> length (m_stack m') \<le> stack_limit)"

definition metered :: "int \<Rightarrow> int \<Rightarrow> step_result exec \<Rightarrow> bool" where
  "metered p d h \<longleftrightarrow> (\<forall>m r m'. slack m \<longrightarrow> h m = (r, m') \<longrightarrow>
     r \<noteq> OutOfFuel \<and> g_limit (m_gas m') = g_limit (m_gas m) \<and>
     (\<forall>c. r = Ok (StepOk c) \<longrightarrow> p \<le> c \<and> metered_step d m m'))"

lemma mem_words_cost_mono: "a \<le> b \<Longrightarrow> mem_words_cost a \<le> mem_words_cost b"
proof -
  assume "a \<le> b"
  then have "int a * int a \<le> int b * int b" by (intro mult_mono) auto
  then have "int a * int a div 512 \<le> int b * int b div 512" by (rule zdiv_mono1) simp
  with \<open>a \<le> b\<close> show ?thesis by (simp add: mem_words_cost_def)
qed

lemma memory_cost_mono:
  "a \<le> b \<Longrightarrow> mem_words_cost (div_ceil a 32) \<le> mem_words_cost (div_ceil b 32)"
  by (intro mem_words_cost_mono div_ceil_32_mono)

lemma quiet_step_slack: "quiet_step g d m m' \<Longrightarrow> slack m \<Longrightarrow> slack m'"
  using memory_cost_mono [of "length (m_memory m)" "length (m_memory m')"]
  by (auto simp: quiet_step_def slack_def memory_step_def split: if_splits)

lemma frame_inv_slack: "frame_inv m \<Longrightarrow> slack m"
  by (simp add: frame_inv_def slack_def)

lemma metered_step_inv: "frame_inv m \<Longrightarrow> metered_step d m m' \<Longrightarrow> frame_inv m'"
  by (simp add: frame_inv_def metered_step_def)

lemma metered_lawful:
  assumes "metered 1 d h"
  shows "lawful N F h"
proof (rule lawfulI)
  fix m r m' assume inv: "frame_inv m" and h: "h m = (r, m')"
  note law = assms [unfolded metered_def, rule_format, OF frame_inv_slack [OF inv]]
  from law [OF h] show "r \<noteq> OutOfFuel" and "g_limit (m_gas m') = g_limit (m_gas m)" by simp_all
next
  fix m s m' assume inv: "frame_inv m" and h: "h m = (Ok s, m')"
  note law = assms [unfolded metered_def, rule_format, OF frame_inv_slack [OF inv] h]
  from law metered_step_inv [OF inv] show "lawful_result F m s m'"
    by (auto simp: lawful_result_def metered_step_def split: step_result.split)
qed

lemma metered_step_after:
  "quiet_step True d1 m m1 \<Longrightarrow> metered_step d2 m1 m' \<Longrightarrow> metered_step (d1 + d2) m m'"
  by (auto simp: quiet_step_def metered_step_def memory_step_def)

lemma metered_bind [quiet_intros]:
  assumes "quiet True d1 c" and "\<And>a. metered p d2 (f a)" and "d = d1 + d2"
  shows "metered p d (bindM c f)"
  unfolding metered_def
proof (intro allI impI)
  fix m r m' assume slack: "slack m" and b: "bindM c f m = (r, m')"
  from b show "r \<noteq> OutOfFuel \<and> g_limit (m_gas m') = g_limit (m_gas m) \<and>
     (\<forall>s. r = Ok (StepOk s) \<longrightarrow> p \<le> s \<and> metered_step d m m')"
  proof (cases rule: bindM_outcome)
    case (ok a m1)
    note q = quiet_Ok [OF assms(1) ok(1)]
    have "slack m1" using quiet_step_slack [OF q slack] .
    with assms(2) ok(2) have "r \<noteq> OutOfFuel \<and> g_limit (m_gas m') = g_limit (m_gas m1) \<and>
       (\<forall>s. r = Ok (StepOk s) \<longrightarrow> p \<le> s \<and> metered_step d2 m1 m')"
      by (simp add: metered_def)
    with metered_step_after [OF q] quiet_limit [OF assms(1) ok(1)] assms(3)
    show ?thesis by auto
  qed (use quiet_limit [OF assms(1), of m] quiet_fuel [OF assms(1), of m] in auto)
qed

lemma metered_seq [quiet_intros]:
  "quiet True d1 c \<Longrightarrow> metered p d2 k \<Longrightarrow> d = d1 + d2 \<Longrightarrow> metered p d (seqM c k)"
  unfolding seqM_def by (rule metered_bind)

lemma metered_guard [quiet_intros]: "metered p d k \<Longrightarrow> metered p d (guard_gas g k)"
  by (auto simp: metered_def guard_gas_def split: if_splits)

lemma metered_throw [quiet_intros]: "metered p d (throwM e)"
  by (simp add: metered_def throwM_def)

lemma metered_if [quiet_intros]:
  "(b \<Longrightarrow> metered p d c) \<Longrightarrow> (\<not> b \<Longrightarrow> metered p d k) \<Longrightarrow> metered p d (if b then c else k)"
  by simp

lemma metered_prod [quiet_intros]:
  "(\<And>a b. ab = (a, b) \<Longrightarrow> metered p d (f a b)) \<Longrightarrow> metered p d (case ab of (a, b) \<Rightarrow> f a b)"
  by (cases ab) auto

lemma metered_Let [quiet_intros]: "metered p d (f a) \<Longrightarrow> metered p d (Let a f)"
  by simp

lemma memory_expansion_cost_eq:
  "memory_expansion_cost m =
     (Ok (mem_words_cost (div_ceil (length (m_memory m)) 32) - e_mem_cost (m_evm m)),
      m\<lparr>m_evm := (m_evm m)\<lparr>e_mem_cost := mem_words_cost (div_ceil (length (m_memory m)) 32)\<rparr>\<rparr>)"
  by (simp add: memory_expansion_cost_def Let_def)

lemma metered_expansion:
  assumes "\<And>x. 0 \<le> x \<Longrightarrow> priced p d (f x)"
  shows "metered p d (bindM memory_expansion_cost f)"
  unfolding metered_def
proof (intro allI impI)
  fix m r m' assume slack: "slack m" and b: "bindM memory_expansion_cost f m = (r, m')"
  let ?x = "mem_words_cost (div_ceil (length (m_memory m)) 32) - e_mem_cost (m_evm m)"
  let ?m = "m\<lparr>m_evm := (m_evm m)\<lparr>e_mem_cost := mem_words_cost (div_ceil (length (m_memory m)) 32)\<rparr>\<rparr>"
  from b have f: "f ?x ?m = (r, m')" by (simp add: bindM_def memory_expansion_cost_eq)
  from slack have "0 \<le> ?x" by (simp add: slack_def)
  from assms [OF this, unfolded priced_def, rule_format, OF f]
  show "r \<noteq> OutOfFuel \<and> g_limit (m_gas m') = g_limit (m_gas m) \<and>
     (\<forall>s. r = Ok (StepOk s) \<longrightarrow> p \<le> s \<and> metered_step d m m')"
    using slack by (auto simp: quiet_step_def metered_step_def memory_step_def slack_def)
qed

lemma address_access_cost_ge: "address_access_cost a m = (Ok c, m') \<Longrightarrow> 100 \<le> c"
  by (auto simp: address_access_cost_def monad_defs on_ext_def warm_address_def touch_def upd_evm_def
      split: if_splits)

text \<open>An address access costs at least 100.\<close>

lemma priced_access:
  assumes "\<And>c. 100 \<le> c \<Longrightarrow> priced p d (f c)"
  shows "priced p d (bindM (address_access_cost a) f)"
proof -
  have "bindM (address_access_cost a) f = bindM (address_access_cost a) (\<lambda>c. if 100 \<le> c then f c else panicM)"
    by (rule HOL.ext)
      (auto simp: bindM_def dest: address_access_cost_ge split: prod.splits res.splits)
  moreover have "priced p d (bindM (address_access_cost a) (\<lambda>c. if 100 \<le> c then f c else panicM))"
    by (rule quiet_intros assms refl | simp)+
  ultimately show ?thesis by simp
qed

text \<open>
  \<open>balanced p d h\<close>: like \<open>metered\<close>, from a state whose memory is paid for; for
  instructions that grow the memory in some branches only.
\<close>

definition paid :: "machine \<Rightarrow> bool" where
  "paid m \<longleftrightarrow> slack m \<and> e_mem_cost (m_evm m) = mem_words_cost (div_ceil (length (m_memory m)) 32)"

definition balanced :: "int \<Rightarrow> int \<Rightarrow> step_result exec \<Rightarrow> bool" where
  "balanced p d h \<longleftrightarrow> (\<forall>m r m'. paid m \<longrightarrow> h m = (r, m') \<longrightarrow>
     r \<noteq> OutOfFuel \<and> g_limit (m_gas m') = g_limit (m_gas m) \<and>
     (\<forall>c. r = Ok (StepOk c) \<longrightarrow> p \<le> c \<and> metered_step d m m'))"

lemma metered_balanced: "metered p d h \<Longrightarrow> balanced p d h"
  unfolding metered_def balanced_def paid_def by blast

lemma priced_balanced:
  assumes "priced p d h"
  shows "balanced p d h"
  unfolding balanced_def
proof (intro allI impI)
  fix m r m' assume "paid m" "h m = (r, m')"
  with assms [unfolded priced_def, rule_format, of m r m']
  show "r \<noteq> OutOfFuel \<and> g_limit (m_gas m') = g_limit (m_gas m) \<and>
     (\<forall>c. r = Ok (StepOk c) \<longrightarrow> p \<le> c \<and> metered_step d m m')"
    by (auto simp: quiet_step_def metered_step_def memory_step_def paid_def slack_def)
qed

lemma frame_inv_paid: "frame_inv m \<longleftrightarrow> paid m \<and> length (m_stack m) \<le> stack_limit"
  by (auto simp: frame_inv_def paid_def slack_def)

lemma balanced_lawful:
  assumes "balanced 1 d h"
  shows "lawful N F h"
proof (rule lawfulI)
  fix m r m' assume "frame_inv m" and h: "h m = (r, m')"
  then have "paid m" by (simp add: frame_inv_paid)
  from assms [unfolded balanced_def, rule_format, OF this h]
  show "r \<noteq> OutOfFuel" and "g_limit (m_gas m') = g_limit (m_gas m)" by simp_all
next
  fix m s m' assume inv: "frame_inv m" and h: "h m = (Ok s, m')"
  then have "paid m" by (simp add: frame_inv_paid)
  from assms [unfolded balanced_def, rule_format, OF this h] metered_step_inv [OF inv]
  show "lawful_result F m s m'"
    by (auto simp: lawful_result_def metered_step_def split: step_result.split)
qed

lemma quiet_step_paid: "quiet_step False d m m' \<Longrightarrow> paid m \<Longrightarrow> paid m'"
  by (simp add: quiet_step_def paid_def slack_def memory_step_def)

lemma balanced_bind [quiet_intros]:
  assumes "quiet False d1 c" and "\<And>a. balanced p d2 (f a)" and "d = d1 + d2"
  shows "balanced p d (bindM c f)"
  unfolding balanced_def
proof (intro allI impI)
  fix m r m' assume paid: "paid m" and b: "bindM c f m = (r, m')"
  from b show "r \<noteq> OutOfFuel \<and> g_limit (m_gas m') = g_limit (m_gas m) \<and>
     (\<forall>s. r = Ok (StepOk s) \<longrightarrow> p \<le> s \<and> metered_step d m m')"
  proof (cases rule: bindM_outcome)
    case (ok a m1)
    note q = quiet_Ok [OF assms(1) ok(1)]
    from assms(2) [unfolded balanced_def, rule_format, OF quiet_step_paid [OF q paid] ok(2)] q
    show ?thesis using quiet_limit [OF assms(1) ok(1)] assms(3)
      by (auto simp: quiet_step_def metered_step_def memory_step_def)
  qed (use quiet_limit [OF assms(1), of m] quiet_fuel [OF assms(1), of m] in auto)
qed

lemma balanced_guard [quiet_intros]: "balanced p d k \<Longrightarrow> balanced p d (guard_gas g k)"
  by (auto simp: balanced_def guard_gas_def split: if_splits)

lemma balanced_if [quiet_intros]:
  "(b \<Longrightarrow> balanced p d c) \<Longrightarrow> (\<not> b \<Longrightarrow> balanced p d k) \<Longrightarrow> balanced p d (if b then c else k)"
  by simp

lemma balanced_Let [quiet_intros]: "balanced p d (f a) \<Longrightarrow> balanced p d (Let a f)"
  by simp

lemma balanced_throw [quiet_intros]: "balanced p d (throwM e)"
  by (simp add: balanced_def throwM_def)

text \<open>A pure result that may be used later in the argument.\<close>

lemma balanced_lift:
  assumes "r \<noteq> OutOfFuel" and "\<And>a. r = Ok a \<Longrightarrow> balanced p d (f a)"
  shows "balanced p d (bindM (liftM r) f)"
  using assms by (cases r) (simp_all add: balanced_def bindM_def liftM_def)

lemma usize_add_checked:
  "overflow_checks H \<Longrightarrow> usize_add H a b = (if a + b < usize_bound then Ok (a + b) else Panic)"
  by (simp add: usize_add_def)

end
