(* ===== verification/ArithOps.thy ===== *)
theory ArithOps
  imports FrameLogic
begin

text \<open>
  Instructions \<open>0x00\<close> to \<open>0x20\<close> of \<open>execute_instruction\<close> in \<open>src/executor.rs\<close>:
  \<open>STOP\<close>, arithmetic, comparison, bitwise logic and \<open>KECCAK256\<close>. One definition per
  arm of the match, in the order of the source, each from the guard on the gas to the final
  \<open>push\<close>. The result of \<open>I256\<close> operations is given by the \<open>i256\<close> crate (fields of
  \<open>host\<close>).
\<close>

unbundle bit_operations_syntax

definition op_STOP :: "frame \<Rightarrow> step_result exec" where
  "op_STOP F =
     seqM (upd_evm (\<lambda>e. e\<lparr>e_pc := length (bc_instructions (f_code F)), e_stopped := True,
             e_reverted := False\<rparr>))
       (seqM (set_ret [])
         (bindM (getsM m_evm) (\<lambda>e.
           seqM (trace_push (ED_Return True [] None (g_used (e_gas e))) (f_depth F) (e_reverted e))
             (returnM (StepOk 0)))))"

section \<open>Arithmetic\<close>

definition pop2_push :: "(u256 \<Rightarrow> u256 \<Rightarrow> u256) \<Rightarrow> unit exec" where
  "pop2_push f = bindM evm_pop (\<lambda>a. bindM evm_pop (\<lambda>b. evm_push (f a b)))"

definition op_ADD :: "frame \<Rightarrow> step_result exec" where
  "op_ADD F = fixed_cost 3 (pop2_push (\<lambda>a b. fst (overflowing_add a b)))"

definition op_MUL :: "frame \<Rightarrow> step_result exec" where
  "op_MUL F = fixed_cost 5 (pop2_push (\<lambda>a b. fst (overflowing_mul a b)))"

definition op_SUB :: "frame \<Rightarrow> step_result exec" where
  "op_SUB F = fixed_cost 3 (pop2_push (\<lambda>a b. fst (overflowing_sub a b)))"

definition op_DIV :: "frame \<Rightarrow> step_result exec" where
  "op_DIV F = fixed_cost 5 (bindM evm_pop (\<lambda>a. bindM evm_pop (\<lambda>b.
     if is_zero b \<or> is_zero a then evm_push 0
     else bindM (liftM (word_div a b)) evm_push)))"

text \<open>A third-party result: \<open>None\<close> is a panic inside the crate.\<close>

definition or_panic :: "'a option \<Rightarrow> 'a exec" where
  "or_panic x = (case x of None \<Rightarrow> panicM | Some a \<Rightarrow> returnM a)"

definition i256_min :: u256 where "i256_min = push_bit 255 1"

definition op_SDIV :: "frame \<Rightarrow> step_result exec" where
  "op_SDIV F = fixed_cost 5 (bindM evm_pop (\<lambda>a. bindM evm_pop (\<lambda>b.
     bindM (if is_zero b then returnM 0
            else if a = i256_min \<and> b = - 1 then returnM i256_min
            else or_panic (i256_div (f_host F) a b)) evm_push)))"

definition op_MOD :: "frame \<Rightarrow> step_result exec" where
  "op_MOD F = fixed_cost 5 (bindM evm_pop (\<lambda>a. bindM evm_pop (\<lambda>b.
     if is_zero b then evm_push 0 else bindM (liftM (word_rem a b)) evm_push)))"

definition op_SMOD :: "frame \<Rightarrow> step_result exec" where
  "op_SMOD F = fixed_cost 5 (bindM evm_pop (\<lambda>a. bindM evm_pop (\<lambda>b.
     bindM (if is_zero b then returnM 0 else or_panic (i256_rem (f_host F) a b)) evm_push)))"

definition op_ADDMOD :: "frame \<Rightarrow> step_result exec" where
  "op_ADDMOD F = fixed_cost 8 (bindM evm_pop (\<lambda>a. bindM evm_pop (\<lambda>b. bindM evm_pop (\<lambda>m.
     bindM (if is_zero m then returnM 0 else liftM (add_modulo a b m)) evm_push))))"

definition op_MULMOD :: "frame \<Rightarrow> step_result exec" where
  "op_MULMOD F = fixed_cost 8 (bindM evm_pop (\<lambda>a. bindM evm_pop (\<lambda>b. bindM evm_pop (\<lambda>m.
     bindM (liftM (mul_modulo a b m)) evm_push))))"

definition exp_bytes :: "u256 \<Rightarrow> nat" where
  "exp_bytes exponent = length (dropWhile (\<lambda>b. b = 0) (into_bytes exponent))"

definition op_EXP :: "frame \<Rightarrow> step_result exec" where
  "op_EXP F = bindM evm_pop (\<lambda>base. bindM evm_pop (\<lambda>exponent.
     let gas = 10 + int (exp_bytes exponent) * 50 in
     guard_gas gas (seqM (evm_push (word_pow base exponent)) (next_pc gas))))"

text \<open>\<open>((x + 1) << 3) - 1\<close> on \<open>usize\<close>: the shift drops high bits without a check.\<close>

definition sign_bit_index :: "host \<Rightarrow> nat \<Rightarrow> (nat, exec_error) res" where
  "sign_bit_index H x =
     res_bind (usize_add H x 1) (\<lambda>x1. usize_sub H (x1 * 8 mod usize_bound) 1)"

definition op_SIGNEXTEND :: "frame \<Rightarrow> step_result exec" where
  "op_SIGNEXTEND F = fixed_cost 5 (bindM pop_usize (\<lambda>x. bindM evm_pop (\<lambda>b.
     bindM (liftM (sign_bit_index (f_host F) x)) (\<lambda>i.
     bindM (liftM (word_bit b i)) (\<lambda>neg.
       let mask = word_shl (- 1) (i + 1)
       in evm_push (if neg then b OR mask else b AND NOT mask))))))"

section \<open>Comparison and bitwise logic\<close>

definition flag :: "bool \<Rightarrow> u256" where "flag b = (if b then 1 else 0)"

definition op_LT :: "frame \<Rightarrow> step_result exec" where
  "op_LT F = fixed_cost 3 (pop2_push (\<lambda>a b. flag (a < b)))"

definition op_GT :: "frame \<Rightarrow> step_result exec" where
  "op_GT F = fixed_cost 3 (pop2_push (\<lambda>a b. flag (a > b)))"

definition op_SLT :: "frame \<Rightarrow> step_result exec" where
  "op_SLT F = fixed_cost 3 (pop2_push (\<lambda>a b. flag (sint a < sint b)))"

definition op_SGT :: "frame \<Rightarrow> step_result exec" where
  "op_SGT F = fixed_cost 3 (pop2_push (\<lambda>a b. flag (sint a > sint b)))"

definition op_EQ :: "frame \<Rightarrow> step_result exec" where
  "op_EQ F = fixed_cost 3 (pop2_push (\<lambda>a b. flag (a = b)))"

definition op_ISZERO :: "frame \<Rightarrow> step_result exec" where
  "op_ISZERO F = fixed_cost 3 (bindM evm_pop (\<lambda>a. evm_push (flag (is_zero a))))"

definition op_AND :: "frame \<Rightarrow> step_result exec" where
  "op_AND F = fixed_cost 3 (pop2_push (\<lambda>a b. a AND b))"

definition op_OR :: "frame \<Rightarrow> step_result exec" where
  "op_OR F = fixed_cost 3 (pop2_push (\<lambda>a b. a OR b))"

definition op_XOR :: "frame \<Rightarrow> step_result exec" where
  "op_XOR F = fixed_cost 3 (pop2_push (\<lambda>a b. a XOR b))"

definition op_NOT :: "frame \<Rightarrow> step_result exec" where
  "op_NOT F = fixed_cost 3 (bindM evm_pop (\<lambda>a. evm_push (NOT a)))"

definition op_BYTE :: "frame \<Rightarrow> step_result exec" where
  "op_BYTE F = fixed_cost 3 (bindM pop_usize (\<lambda>index. bindM evm_pop (\<lambda>val.
     if index < 32 then evm_push (ucast (into_bytes val ! index)) else evm_push 0)))"

definition op_SHL :: "frame \<Rightarrow> step_result exec" where
  "op_SHL F = fixed_cost 3 (bindM pop_usize (\<lambda>shift. bindM evm_pop (\<lambda>val.
     evm_push (word_shl val shift))))"

definition op_SHR :: "frame \<Rightarrow> step_result exec" where
  "op_SHR F = fixed_cost 3 (bindM pop_usize (\<lambda>shift. bindM evm_pop (\<lambda>val.
     evm_push (word_shr val shift))))"

definition op_SAR :: "frame \<Rightarrow> step_result exec" where
  "op_SAR F = fixed_cost 3 (bindM pop_usize (\<lambda>shift. bindM evm_pop (\<lambda>val.
     bindM (or_panic (i256_shr (f_host F) val shift)) evm_push)))"

fun clz_loop :: "bytes \<Rightarrow> nat \<Rightarrow> nat" where
  "clz_loop [] count = count"
| "clz_loop (b # bs) count = (if b = 0 then clz_loop bs (count + 8) else count + leading_zeros b)"

definition op_CLZ :: "frame \<Rightarrow> step_result exec" where
  "op_CLZ F = fixed_cost 5 (bindM evm_pop (\<lambda>val.
     evm_push (of_nat (if is_zero val then 256 else clz_loop (into_bytes val) 0))))"

section \<open>Hashing\<close>

text \<open>The bytes \<open>offset..offset + size\<close> of the memory, zeros beyond its end.\<close>

definition memory_window :: "bytes \<Rightarrow> nat \<Rightarrow> nat \<Rightarrow> bytes" where
  "memory_window mem offset n =
     (if offset < length mem then
        (let len = min n (length mem - offset)
         in splice_at 0 (sub_list offset (offset + len) mem) (replicate n 0))
      else replicate n 0)"

definition op_SHA3 :: "frame \<Rightarrow> step_result exec" where
  "op_SHA3 F = bindM pop_usize (\<lambda>offset. bindM pop_usize (\<lambda>size.
     if size > allocation_sanity_limit then
       bindM (liftM (usize_add (f_host F) offset size)) (\<lambda>n. throwM (InvalidAllocation n))
     else bindM (getsM (\<lambda>m. memory_window (m_memory m) offset size)) (\<lambda>data.
       let sha3 = keccak256 (f_host F) data; hash = from_bytes sha3 in
       seqM (trace_push (ED_Hash data sha3 HA_Keccak256) (f_depth F) False)
         (let gas = 30 + 6 * int (div_ceil size 32) in
          guard_gas gas (seqM (evm_push hash) (next_pc gas))))))"

lemmas arith_op_defs = op_ADD_def op_MUL_def op_SUB_def op_DIV_def op_SDIV_def op_MOD_def op_SMOD_def
  op_ADDMOD_def op_MULMOD_def op_EXP_def op_SIGNEXTEND_def op_LT_def op_GT_def op_SLT_def op_SGT_def
  op_EQ_def op_ISZERO_def op_AND_def op_OR_def op_XOR_def op_NOT_def op_BYTE_def op_SHL_def op_SHR_def
  op_SAR_def op_CLZ_def op_SHA3_def

section \<open>Stack effects\<close>

lemma quiet_pop2_push [quiet_intros]: "quiet g (- 1) (pop2_push f)"
  unfolding pop2_push_def by (rule quiet_intros refl | simp)+

lemma quiet_or_panic [quiet_intros]: "quiet g 0 (or_panic x)"
  unfolding or_panic_def by (rule quiet_intros refl | simp)+

lemma arith_fuel [simp]:
  "word_div a b \<noteq> OutOfFuel" "word_rem a b \<noteq> OutOfFuel" "add_modulo a b m \<noteq> OutOfFuel"
  "mul_modulo a b m \<noteq> OutOfFuel" "word_bit a i \<noteq> OutOfFuel" "word_add a b \<noteq> OutOfFuel"
  "word_sub a b \<noteq> OutOfFuel" "word_mul a b \<noteq> OutOfFuel" "usize_sub H i j \<noteq> OutOfFuel"
  by (simp_all add: word_div_def word_rem_def add_modulo_def mul_modulo_def word_bit_def Let_def
      word_add_def word_sub_def word_mul_def usize_sub_def)

lemma sign_bit_index_fuel [simp]: "sign_bit_index H x \<noteq> OutOfFuel"
  by (cases "usize_add H x 1 :: (nat, exec_error) res")
    (auto simp: sign_bit_index_def usize_add_def usize_sub_def split: if_splits)

lemma priced_arith:
  "priced 1 (- 1) (op_ADD F)" "priced 1 (- 1) (op_MUL F)" "priced 1 (- 1) (op_SUB F)"
  "priced 1 (- 1) (op_DIV F)" "priced 1 (- 1) (op_SDIV F)" "priced 1 (- 1) (op_MOD F)"
  "priced 1 (- 1) (op_SMOD F)" "priced 1 (- 2) (op_ADDMOD F)" "priced 1 (- 2) (op_MULMOD F)"
  "priced 1 (- 1) (op_EXP F)" "priced 1 (- 1) (op_SIGNEXTEND F)"
  unfolding arith_op_defs by (rule quiet_intros refl | simp)+

lemma priced_logic:
  "priced 1 (- 1) (op_LT F)" "priced 1 (- 1) (op_GT F)" "priced 1 (- 1) (op_SLT F)"
  "priced 1 (- 1) (op_SGT F)" "priced 1 (- 1) (op_EQ F)" "priced 1 0 (op_ISZERO F)"
  "priced 1 (- 1) (op_AND F)" "priced 1 (- 1) (op_OR F)" "priced 1 (- 1) (op_XOR F)"
  "priced 1 0 (op_NOT F)" "priced 1 (- 1) (op_BYTE F)" "priced 1 (- 1) (op_SHL F)"
  "priced 1 (- 1) (op_SHR F)" "priced 1 (- 1) (op_SAR F)" "priced 1 0 (op_CLZ F)"
  "priced 1 (- 1) (op_SHA3 F)"
  unfolding arith_op_defs by (rule quiet_intros refl | simp)+

lemma lawful_STOP: "lawful N F (op_STOP F)"
  by (rule lawfulI)
    (auto simp: op_STOP_def upd_evm_def set_ret_def trace_push_def monad_defs lawful_result_def
      frame_inv_def)

end
