(* ===== verification/EnvOps.thy ===== *)
theory EnvOps
  imports ArithOps
begin

text \<open>
  Instructions \<open>0x30\<close> to \<open>0x4a\<close> of \<open>execute_instruction\<close> in \<open>src/executor.rs\<close>: the
  call, the code, the accounts and the block. The copying instructions share the expansion of
  memory; a source shorter than the requested window is padded with zeros in a private copy.
\<close>

section \<open>Shared steps of the copying instructions\<close>

text \<open>\<open>buffer.resize(..)\<close> of the private copy when the window ends beyond it.\<close>

definition grow_buffer :: "(nat \<Rightarrow> nat) \<Rightarrow> nat \<Rightarrow> bytes \<Rightarrow> bytes exec" where
  "grow_buffer pad n buf =
     (if n > length buf then
        (if n > allocation_sanity_limit then throwM (InvalidAllocation n)
         else returnM (resize0 (pad n) buf))
      else returnM buf)"

definition slice_exec :: "nat \<Rightarrow> nat \<Rightarrow> bytes \<Rightarrow> bytes exec" where
  "slice_exec a b xs = (if slice_ok a b xs then returnM (sub_list a b xs) else panicM)"

definition copy_gas :: "nat \<Rightarrow> int" where
  "copy_gas n = 3 * int (div_ceil n 32)"

section \<open>The call and the code\<close>

definition op_ADDRESS :: "frame \<Rightarrow> step_result exec" where
  "op_ADDRESS F = fixed_cost 2 (evm_push (word_of_addr (frame_this F)))"

definition op_BALANCE :: "frame \<Rightarrow> step_result exec" where
  "op_BALANCE F = bindM pop_address (\<lambda>addr.
     bindM (address_access_cost addr) (\<lambda>gas.
       guard_gas gas
         (bindM (on_ext (ext_balance (f_host F) addr)) (\<lambda>val.
            seqM (touch (T_GetValue addr val)) (seqM (evm_push val) (next_pc gas))))))"

definition op_ORIGIN :: "frame \<Rightarrow> step_result exec" where
  "op_ORIGIN F = fixed_cost 2 (evm_push (word_of_addr (k_origin (f_ctx F))))"

definition op_CALLER :: "frame \<Rightarrow> step_result exec" where
  "op_CALLER F = fixed_cost 2 (evm_push (word_of_addr (c_from (f_call F))))"

definition op_CALLVALUE :: "frame \<Rightarrow> step_result exec" where
  "op_CALLVALUE F = fixed_cost 2
     (evm_push (if k_call_type (f_ctx F) = CT_Static then 0 else c_value (f_call F)))"

definition op_CALLDATALOAD :: "frame \<Rightarrow> step_result exec" where
  "op_CALLDATALOAD F = fixed_cost 3 (bindM pop_usize (\<lambda>offset.
     let data = c_data (f_call F) in
     if offset > length data then evm_push 0
     else bindM (liftM (usize_add (f_host F) offset 32)) (\<lambda>till.
       let copy = min (length data) till - offset
       in evm_push (from_bytes (splice_at 0 (sub_list offset (offset + copy) data) (replicate 32 0))))))"

definition op_CALLDATASIZE :: "frame \<Rightarrow> step_result exec" where
  "op_CALLDATASIZE F = fixed_cost 2 (evm_push (word_of_usize (length (c_data (f_call F)))))"

abbreviation isize_max :: nat where "isize_max \<equiv> 9223372036854775807"

definition op_CALLDATACOPY :: "frame \<Rightarrow> step_result exec" where
  "op_CALLDATACOPY F =
     bindM pop_usize (\<lambda>dest_offset. bindM pop_usize (\<lambda>offset.
     bindM evm_pop (\<lambda>w. bindM (liftM (as_usize (min w (word_of_usize isize_max)))) (\<lambda>size.
       seqM
         (if size > 0 then
            bindM (liftM (usize_add (f_host F) dest_offset size)) (\<lambda>dest_end.
            seqM (expand_memory dest_end)
              (bindM (liftM (usize_add (f_host F) offset size)) (\<lambda>src_end.
               bindM (grow_buffer padded src_end (c_data (f_call F))) (\<lambda>buffer.
               bindM (slice_exec offset src_end buffer) (\<lambda>src.
                 write_memory dest_offset dest_end src)))))
          else returnM ())
         (bindM memory_expansion_cost (\<lambda>exp_cost. next_pc (3 + copy_gas size + exp_cost)))))))"

definition op_CODESIZE :: "frame \<Rightarrow> step_result exec" where
  "op_CODESIZE F = fixed_cost 2 (evm_push (word_of_usize (length (bc_bytecode (f_code F)))))"

text \<open>\<open>CODECOPY\<close> and \<open>EXTCODECOPY\<close> copy a window of code with the same steps.\<close>

definition copy_code :: "host \<Rightarrow> nat \<Rightarrow> nat \<Rightarrow> nat \<Rightarrow> bytes \<Rightarrow> unit exec" where
  "copy_code H dest_offset offset n code =
     bindM (liftM (usize_add H dest_offset n)) (\<lambda>dest_end.
     seqM (expand_memory dest_end)
       (bindM (liftM (usize_add H offset n)) (\<lambda>src_end.
        bindM (grow_buffer (\<lambda>k. k) src_end code) (\<lambda>buffer.
        bindM (slice_exec offset src_end buffer) (\<lambda>src.
          write_memory dest_offset dest_end src)))))"

definition op_CODECOPY :: "frame \<Rightarrow> step_result exec" where
  "op_CODECOPY F =
     bindM pop_usize (\<lambda>dest_offset. bindM pop_usize (\<lambda>offset. bindM pop_usize (\<lambda>size.
       seqM (copy_code (f_host F) dest_offset offset size (bc_bytecode (f_code F)))
         (bindM memory_expansion_cost (\<lambda>exp_cost. next_pc (3 + copy_gas size + exp_cost))))))"

definition op_GASPRICE :: "frame \<Rightarrow> step_result exec" where
  "op_GASPRICE F = fixed_cost 2 (bindM (getsM (\<lambda>m. t_gas_price (x_tx_ctx (m_ext m)))) evm_push)"

definition op_EXTCODESIZE :: "frame \<Rightarrow> step_result exec" where
  "op_EXTCODESIZE F = bindM pop_address (\<lambda>addr.
     bindM (address_access_cost addr) (\<lambda>gas.
       guard_gas gas
         (bindM (on_ext (ext_code (f_host F) addr)) (\<lambda>(code, codehash).
            seqM (touch (T_GetCode addr codehash code))
              (seqM (evm_push (word_of_usize (length code))) (next_pc gas))))))"

definition op_EXTCODECOPY :: "frame \<Rightarrow> step_result exec" where
  "op_EXTCODECOPY F =
     bindM pop_address (\<lambda>addr.
     bindM pop_usize (\<lambda>dest_offset. bindM pop_usize (\<lambda>offset. bindM pop_usize (\<lambda>size.
     bindM (on_ext (ext_code (f_host F) addr)) (\<lambda>(code, codehash).
       seqM (touch (T_GetCode addr codehash code))
         (seqM (copy_code (f_host F) dest_offset offset size code)
           (bindM memory_expansion_cost (\<lambda>exp_cost.
            bindM (address_access_cost addr) (\<lambda>access_cost.
              next_pc (copy_gas size + exp_cost + access_cost))))))))))"

definition op_RETURNDATASIZE :: "frame \<Rightarrow> step_result exec" where
  "op_RETURNDATASIZE F = fixed_cost 2 (bindM (getsM (\<lambda>m. word_of_usize (length (m_ret m)))) evm_push)"

definition copy_ret :: "host \<Rightarrow> nat \<Rightarrow> nat \<Rightarrow> nat \<Rightarrow> nat \<Rightarrow> unit exec" where
  "copy_ret H dest_offset dest_end offset n =
     bindM (getsM m_ret) (\<lambda>ret.
       let available = length ret - offset; to_copy = min n available in
       seqM
         (if to_copy > 0 then
            bindM (liftM (usize_add H dest_offset to_copy)) (\<lambda>mid.
            bindM (slice_exec offset (offset + to_copy) ret) (write_memory dest_offset mid))
          else returnM ())
         (if to_copy < n then
            bindM (liftM (usize_add H dest_offset to_copy)) (\<lambda>mid.
              write_memory mid dest_end (replicate (dest_end - mid) 0))
          else returnM ()))"

definition op_RETURNDATACOPY :: "frame \<Rightarrow> step_result exec" where
  "op_RETURNDATACOPY F =
     bindM pop_usize (\<lambda>dest_offset. bindM pop_usize (\<lambda>offset. bindM pop_usize (\<lambda>size.
     bindM (liftM (usize_add (f_host F) dest_offset size)) (\<lambda>dest_end.
       seqM (expand_memory dest_end)
         (seqM (copy_ret (f_host F) dest_offset dest_end offset size)
           (bindM memory_expansion_cost (\<lambda>exp_cost. next_pc (3 + copy_gas size + exp_cost))))))))"

definition op_EXTCODEHASH :: "frame \<Rightarrow> step_result exec" where
  "op_EXTCODEHASH F = bindM pop_address (\<lambda>addr.
     bindM (address_access_cost addr) (\<lambda>gas.
       guard_gas gas
         (bindM (on_ext (ext_code (f_host F) addr)) (\<lambda>(code, hash).
            seqM (touch (T_GetCode addr hash code))
              (bindM (on_ext (ext_is_empty (f_host F) addr)) (\<lambda>is_empty.
                seqM (if is_empty then evm_push 0 else evm_push hash) (next_pc gas)))))))"

section \<open>The block\<close>

definition op_BLOCKHASH :: "frame \<Rightarrow> step_result exec" where
  "op_BLOCKHASH F = fixed_cost 20 (bindM evm_pop (\<lambda>block_number.
     let number = h_number (f_header F) in
     if block_number \<ge> number \<or> number - block_number > 256 then evm_push 0
     else bindM (on_ext (ext_get_block_hash block_number)) evm_push))"

definition op_COINBASE :: "frame \<Rightarrow> step_result exec" where
  "op_COINBASE F = fixed_cost 2 (evm_push (word_of_addr (h_miner (f_header F))))"

definition op_TIMESTAMP :: "frame \<Rightarrow> step_result exec" where
  "op_TIMESTAMP F = fixed_cost 2 (evm_push (h_timestamp (f_header F)))"

definition op_NUMBER :: "frame \<Rightarrow> step_result exec" where
  "op_NUMBER F = fixed_cost 2 (evm_push (h_number (f_header F)))"

definition op_PREVRANDAO :: "frame \<Rightarrow> step_result exec" where
  "op_PREVRANDAO F = fixed_cost 2 (evm_push 0)"

definition op_GASLIMIT :: "frame \<Rightarrow> step_result exec" where
  "op_GASLIMIT F = fixed_cost 2 (evm_push (h_gas_limit (f_header F)))"

definition op_CHAINID :: "frame \<Rightarrow> step_result exec" where
  "op_CHAINID F = fixed_cost 2 (evm_push 1)"

definition op_SELFBALANCE :: "frame \<Rightarrow> step_result exec" where
  "op_SELFBALANCE F = fixed_cost 5
     (bindM (on_ext (ext_balance (f_host F) (frame_this F))) (\<lambda>balance.
        seqM (touch (T_GetValue (frame_this F) balance)) (evm_push balance)))"

definition op_BASEFEE :: "frame \<Rightarrow> step_result exec" where
  "op_BASEFEE F = fixed_cost 2 (evm_push (h_base_fee (f_header F)))"

definition op_BLOBHASH :: "frame \<Rightarrow> step_result exec" where
  "op_BLOBHASH F = fixed_cost 3 (bindM evm_pop (\<lambda>_. evm_push 0))"

definition op_BLOBBASEFEE :: "frame \<Rightarrow> step_result exec" where
  "op_BLOBBASEFEE F = fixed_cost 2
     (bindM (liftM (blob_gas_price (overflow_checks (f_host F)) (f_header F))) evm_push)"

lemmas env_op_defs = op_ADDRESS_def op_BALANCE_def op_ORIGIN_def op_CALLER_def op_CALLVALUE_def
  op_CALLDATALOAD_def op_CALLDATASIZE_def op_CODESIZE_def op_GASPRICE_def op_EXTCODESIZE_def
  op_RETURNDATASIZE_def op_EXTCODEHASH_def op_BLOCKHASH_def op_COINBASE_def op_TIMESTAMP_def
  op_NUMBER_def op_PREVRANDAO_def op_GASLIMIT_def op_CHAINID_def op_SELFBALANCE_def op_BASEFEE_def
  op_BLOBHASH_def op_BLOBBASEFEE_def

section \<open>Stack effects\<close>

lemma quiet_grow_buffer [quiet_intros]: "quiet g 0 (grow_buffer pad n buf)"
  unfolding grow_buffer_def by (rule quiet_intros refl | simp)+

lemma quiet_slice [quiet_intros]: "quiet g 0 (slice_exec a b xs)"
  unfolding slice_exec_def by (rule quiet_intros refl | simp)+

lemma quiet_copy_code [quiet_intros]: "quiet True 0 (copy_code H d s n code)"
  unfolding copy_code_def by (rule quiet_intros refl | simp)+

lemma quiet_copy_ret [quiet_intros]: "quiet g 0 (copy_ret H d e s n)"
  unfolding copy_ret_def by (rule quiet_intros refl | simp)+

lemma copy_gas_ge [simp]: "0 \<le> copy_gas n"
  by (simp add: copy_gas_def)

lemma copy_price: "0 \<le> x \<Longrightarrow> 100 \<le> c \<Longrightarrow> 1 \<le> copy_gas n + x + c"
  using copy_gas_ge [of n] by linarith

lemma priced_env:
  "priced 1 1 (op_ADDRESS F)" "priced 1 0 (op_BALANCE F)" "priced 1 1 (op_ORIGIN F)"
  "priced 1 1 (op_CALLER F)" "priced 1 1 (op_CALLVALUE F)" "priced 1 0 (op_CALLDATALOAD F)"
  "priced 1 1 (op_CALLDATASIZE F)" "priced 1 1 (op_CODESIZE F)" "priced 1 1 (op_GASPRICE F)"
  "priced 1 0 (op_EXTCODESIZE F)" "priced 1 1 (op_RETURNDATASIZE F)" "priced 1 0 (op_EXTCODEHASH F)"
  unfolding env_op_defs by (rule priced_access quiet_intros refl | simp)+

lemma priced_block:
  "priced 1 0 (op_BLOCKHASH F)" "priced 1 1 (op_COINBASE F)" "priced 1 1 (op_TIMESTAMP F)"
  "priced 1 1 (op_NUMBER F)" "priced 1 1 (op_PREVRANDAO F)" "priced 1 1 (op_GASLIMIT F)"
  "priced 1 1 (op_CHAINID F)" "priced 1 1 (op_SELFBALANCE F)" "priced 1 1 (op_BASEFEE F)"
  "priced 1 0 (op_BLOBHASH F)" "priced 1 1 (op_BLOBBASEFEE F)"
  unfolding env_op_defs by (rule quiet_intros refl | simp)+

lemma metered_copies:
  "metered 1 (- 3) (op_CALLDATACOPY F)" "metered 1 (- 3) (op_CODECOPY F)"
  "metered 1 (- 3) (op_RETURNDATACOPY F)" "metered 1 (- 4) (op_EXTCODECOPY F)"
  unfolding op_CALLDATACOPY_def op_CODECOPY_def op_RETURNDATACOPY_def op_EXTCODECOPY_def
  by (rule metered_expansion priced_access copy_price quiet_intros refl | simp)+

end
