(* ===== verification/MemOps.thy ===== *)
theory MemOps
  imports EnvOps
begin

text \<open>
  Instructions \<open>0x50\<close> to \<open>0xa4\<close> of \<open>execute_instruction\<close> in \<open>src/executor.rs\<close>:
  stack, memory, storage, transient storage, flow, \<open>PUSH\<close>, \<open>DUP\<close>, \<open>SWAP\<close>, \<open>LOG\<close>;
  and \<open>RETURN\<close>, \<open>REVERT\<close>, \<open>INVALID\<close>, \<open>SELFDESTRUCT\<close>.
\<close>

section \<open>Stack and memory\<close>

definition op_POP :: "frame \<Rightarrow> step_result exec" where
  "op_POP F = fixed_cost 2 (bindM evm_pop (\<lambda>_. returnM ()))"

definition op_MLOAD :: "frame \<Rightarrow> step_result exec" where
  "op_MLOAD F =
     bindM pop_usize (\<lambda>offset.
     bindM (liftM (usize_add (f_host F) offset 32)) (\<lambda>till.
     seqM (expand_memory till)
       (bindM memory_expansion_cost (\<lambda>exp_cost.
          let gas = 3 + exp_cost in
          guard_gas gas
            (bindM (read_memory offset till) (\<lambda>bs.
               seqM (evm_push (from_bytes bs)) (next_pc gas)))))))"

definition op_MSTORE :: "frame \<Rightarrow> step_result exec" where
  "op_MSTORE F =
     bindM pop_usize (\<lambda>offset. bindM evm_pop (\<lambda>val.
     bindM (liftM (usize_add (f_host F) offset 32)) (\<lambda>till.
     seqM (expand_memory till)
       (bindM memory_expansion_cost (\<lambda>exp_cost.
          let gas = 3 + exp_cost in
          guard_gas gas (seqM (write_memory offset till (into_bytes val)) (next_pc gas)))))))"

text \<open>\<open>MSTORE8\<close> compares \<open>offset\<close> itself with the length before it adds 1.\<close>

definition mstore8_expand :: "host \<Rightarrow> nat \<Rightarrow> unit exec" where
  "mstore8_expand H offset = (\<lambda>m.
     if offset \<ge> length (m_memory m) then
       bindM (liftM (usize_add H offset 1)) (\<lambda>n.
         if n > allocation_sanity_limit then throwM (InvalidAllocation n)
         else resize_memory (padded n)) m
     else (Ok (), m))"

definition op_MSTORE8 :: "frame \<Rightarrow> step_result exec" where
  "op_MSTORE8 F =
     bindM pop_usize (\<lambda>offset. bindM evm_pop (\<lambda>val.
     seqM (mstore8_expand (f_host F) offset)
       (bindM memory_expansion_cost (\<lambda>exp_cost.
          let gas = 3 + exp_cost in
          guard_gas gas
            (seqM (write_memory offset (offset + 1) [last (into_bytes val)]) (next_pc gas))))))"

section \<open>Storage\<close>

definition op_SLOAD :: "frame \<Rightarrow> step_result exec" where
  "op_SLOAD F =
     bindM (evm_peek 1) (\<lambda>ks. let key = hd ks; this = frame_this F in
     bindM (getsM (\<lambda>m. is_storage_warm (m_ext m) this key)) (\<lambda>is_warm.
     seqM (if is_warm then returnM ()
           else bindM (on_ext (warm_storage this key)) (\<lambda>_. returnM ()))
       (let gas = (if is_warm then 100 else 2100) in
        guard_gas gas
          (bindM evm_pop (\<lambda>_.
           bindM (evm_get (f_host F) this key) (\<lambda>val.
           seqM (evm_push val)
             (seqM (touch (T_GetState this key val is_warm))
               (seqM (trace_push (ED_State (SE_Get this key val)) (f_depth F) False)
                 (next_pc gas)))))))))"

text \<open>The price and the refund of a write (EIP-2200 with EIP-2929 and EIP-3529 constants).\<close>

definition sstore_cost :: "u256 \<Rightarrow> u256 \<Rightarrow> u256 \<Rightarrow> bool \<Rightarrow> int" where
  "sstore_cost original val new is_warm =
     (if val = new then 100
      else if val = original then (if is_zero original then 20000 else 2900)
      else 100) + (if is_warm then 0 else 2100)"

definition sstore_refund :: "u256 \<Rightarrow> u256 \<Rightarrow> u256 \<Rightarrow> int" where
  "sstore_refund original val new =
     (if new \<noteq> val then
        (if val = original then
           (if \<not> is_zero original \<and> is_zero new then 4800 else 0)
         else
           (if \<not> is_zero original then
              (if is_zero val then - 4800 else if is_zero new then 4800 else 0)
            else 0) +
           (if new = original then
              (if is_zero original then 20000 - 100 else 5000 - 2100 - 100)
            else 0))
      else 0)"

text \<open>The write itself, once the price is known: refused when the gas does not cover it.\<close>

definition sstore_commit :: "frame \<Rightarrow> u256 \<Rightarrow> u256 \<Rightarrow> u256 \<Rightarrow> u256 \<Rightarrow> bool \<Rightarrow> step_result exec" where
  "sstore_commit F key original val new is_warm =
     (let this = frame_this F;
          gas_cost = sstore_cost original val new is_warm;
          gas_refund = sstore_refund original val new in
      bindM (getsM m_remaining) (\<lambda>gas_left.
      if gas_left + gas_refund < 0 then
        seqM (trace_opcode F True (\<lambda>e. (0, g_used (e_gas e), gas_left, 0)))
          (returnM (Halt 0))
      else if gas_left < gas_cost then
        seqM (trace_opcode F True (\<lambda>e. (gas_left, g_used (e_gas e) + gas_left, 0, 0)))
          (returnM (Halt 0))
      else
        seqM (evm_put (f_host F) this key new)
          (seqM (upd_evm (\<lambda>e. e\<lparr>e_gas := gas_add_refund gas_refund (e_gas e)\<rparr>))
            (seqM (trace_push (ED_State (SE_Put this key val new gas_refund)) (f_depth F) False)
              (seqM (touch (T_SetState this key val new is_warm))
                (next_pc gas_cost))))))"

definition op_SSTORE :: "frame \<Rightarrow> step_result exec" where
  "op_SSTORE F =
     (if k_is_static_call (f_ctx F) then throwM (StaticCallViolation (f_op F))
      else let this = frame_this F in
        bindM evm_pop (\<lambda>key. bindM evm_pop (\<lambda>new.
        bindM (getsM (\<lambda>m. is_storage_warm (m_ext m) this key)) (\<lambda>is_warm.
        seqM (if is_warm then returnM ()
              else bindM (on_ext (warm_storage this key)) (\<lambda>_. returnM ()))
          (bindM (evm_get (f_host F) this key) (\<lambda>val.
           bindM (getsM (\<lambda>m. case x_original (m_ext m) (this, key) of Some v \<Rightarrow> v | None \<Rightarrow> 0))
             (\<lambda>original. sstore_commit F key original val new is_warm)))))))"

section \<open>Flow\<close>

definition jump_to :: "nat \<Rightarrow> int \<Rightarrow> step_result exec" where
  "jump_to dest gas = seqM (upd_evm (\<lambda>e. e\<lparr>e_pc := dest\<rparr>)) (returnM (StepOk gas))"

definition op_JUMP :: "frame \<Rightarrow> step_result exec" where
  "op_JUMP F = guard_gas 8 (bindM pop_usize (\<lambda>dest.
     case resolve_jump (f_code F) dest of
       None \<Rightarrow> returnM (Halt 8)
     | Some dest \<Rightarrow>
         if dest \<ge> length (bc_instructions (f_code F)) then returnM (Halt 8)
         else if op_code (i_opcode (bc_instructions (f_code F) ! dest)) \<noteq> 0x5b then returnM (Halt 8)
         else jump_to dest 8))"

definition op_JUMPI :: "frame \<Rightarrow> step_result exec" where
  "op_JUMPI F = guard_gas 10 (bindM pop_usize (\<lambda>dest. bindM evm_pop (\<lambda>cond.
     if is_zero cond then next_pc 10
     else case resolve_jump (f_code F) dest of
       None \<Rightarrow> returnM (Halt 10)
     | Some dest \<Rightarrow>
         if dest \<ge> length (bc_instructions (f_code F)) then returnM (Halt 10)
         else if op_code (i_opcode (bc_instructions (f_code F) ! dest)) \<noteq> 0x5b \<and> dest \<noteq> 0
           then returnM (Halt 10)
         else jump_to dest 10)))"

definition op_PC :: "frame \<Rightarrow> step_result exec" where
  "op_PC F = fixed_cost 2 (evm_push (word_of_usize (i_offset (f_instr F))))"

definition op_MSIZE :: "frame \<Rightarrow> step_result exec" where
  "op_MSIZE F = fixed_cost 2 (bindM (getsM (\<lambda>m. word_of_usize (length (m_memory m)))) evm_push)"

definition op_GAS :: "frame \<Rightarrow> step_result exec" where
  "op_GAS F = fixed_cost 2 (bindM (getsM (\<lambda>m. of_int (m_remaining m - 2))) evm_push)"

definition op_JUMPDEST :: "frame \<Rightarrow> step_result exec" where
  "op_JUMPDEST F = fixed_cost 1 (returnM ())"

definition op_TLOAD :: "frame \<Rightarrow> step_result exec" where
  "op_TLOAD F = fixed_cost 100 (bindM evm_pop (\<lambda>key.
     bindM (getsM (\<lambda>m. case x_transient (m_ext m) (frame_this F, key) of Some v \<Rightarrow> v | None \<Rightarrow> 0))
       evm_push))"

definition op_TSTORE :: "frame \<Rightarrow> step_result exec" where
  "op_TSTORE F = fixed_cost 100 (bindM evm_pop (\<lambda>key. bindM evm_pop (\<lambda>val.
     let this = frame_this F in
     bindM (getsM (\<lambda>m. case x_transient (m_ext m) (this, key) of Some v \<Rightarrow> v | None \<Rightarrow> 0)) (\<lambda>old.
     seqM (on_ext (modifyM (\<lambda>x. x\<lparr>x_transient := (x_transient x)((this, key) \<mapsto> val)\<rparr>)))
       (touch (T_SetTransientState this key old val))))))"

text \<open>The source window of \<open>MCOPY\<close>, after the expansion.\<close>

definition mcopy_buffer :: "host \<Rightarrow> nat \<Rightarrow> nat \<Rightarrow> nat \<Rightarrow> bytes exec" where
  "mcopy_buffer H offset n src_end = (\<lambda>m.
     if src_end \<le> length (m_memory m) then read_memory offset src_end m
     else bindM (liftM (usize_sub H (min (length (m_memory m)) src_end) offset)) (\<lambda>copy.
       bindM (read_memory offset (offset + copy)) (\<lambda>bs.
         if copy \<le> n then returnM (bs @ replicate (n - copy) 0) else panicM)) m)"

definition mcopy_expand :: "host \<Rightarrow> nat \<Rightarrow> nat \<Rightarrow> unit exec" where
  "mcopy_expand H len dest_end = (\<lambda>m.
     if len > length (m_memory m) then
       (if dest_end > allocation_sanity_limit then throwM (InvalidAllocation dest_end) m
        else bindM (liftM (usize_add H len ((32 - len mod 32) mod 32))) resize_memory m)
     else (Ok (), m))"

definition mcopy_body :: "host \<Rightarrow> nat \<Rightarrow> nat \<Rightarrow> nat \<Rightarrow> step_result exec" where
  "mcopy_body H dest_offset offset n =
     bindM (liftM (usize_add H dest_offset n)) (\<lambda>dest_end.
     bindM (liftM (usize_add H offset n)) (\<lambda>src_end.
     seqM (mcopy_expand H (max dest_end src_end) dest_end)
       (bindM (mcopy_buffer H offset n src_end) (\<lambda>buffer.
        bindM memory_expansion_cost (\<lambda>exp_cost.
          let gas = 3 + copy_gas n + exp_cost in
          guard_gas gas (seqM (write_memory dest_offset dest_end buffer) (next_pc gas)))))))"

definition op_MCOPY :: "frame \<Rightarrow> step_result exec" where
  "op_MCOPY F =
     bindM pop_usize (\<lambda>dest_offset. bindM pop_usize (\<lambda>offset. bindM pop_usize (\<lambda>size.
     let gas = 3 + copy_gas size in
     guard_gas gas
       (if size > 0 then mcopy_body (f_host F) dest_offset offset size else next_pc gas))))"

section \<open>PUSH, DUP, SWAP, LOG\<close>

definition op_PUSH0 :: "frame \<Rightarrow> step_result exec" where
  "op_PUSH0 F = fixed_cost 2 (evm_push 0)"

definition op_PUSH :: "frame \<Rightarrow> step_result exec" where
  "op_PUSH F = fixed_cost 3
     (case i_argument (f_instr F) of
        None \<Rightarrow> throwM MissingData
      | Some arg \<Rightarrow> evm_push (from_bytes arg))"

definition op_DUP :: "frame \<Rightarrow> step_result exec" where
  "op_DUP F = fixed_cost 3 (let n = op_n (i_opcode (f_instr F)) in
     bindM (getsM m_stack) (\<lambda>stack.
       if length stack < n then evm_error StackUnderflow
       else if n = 0 then panicM
       else evm_push (stack ! (length stack - n))))"

definition op_SWAP :: "frame \<Rightarrow> step_result exec" where
  "op_SWAP F = fixed_cost 3 (let n = op_n (i_opcode (f_instr F)) in
     bindM (getsM m_stack) (\<lambda>stack.
       if length stack \<le> n then evm_error StackUnderflow
       else let i = length stack - 1; j = length stack - 1 - n in
         upd_evm (\<lambda>e. e\<lparr>e_stack := (e_stack e)[i := stack ! j, j := stack ! i]\<rparr>)))"

fun pop_many :: "nat \<Rightarrow> u256 list exec" where
  "pop_many 0 = returnM []"
| "pop_many (Suc n) = bindM evm_pop (\<lambda>w. bindM (pop_many n) (\<lambda>ws. returnM (w # ws)))"

text \<open>\<open>375 + (375 * n as i64 + 8 * size as i64)\<close>, every operation on \<open>i64\<close>.\<close>

definition log_gas :: "host \<Rightarrow> nat \<Rightarrow> nat \<Rightarrow> (int, exec_error) res" where
  "log_gas H n sz =
     res_bind (i64_arith H (8 * i64_of_u64 sz)) (\<lambda>per_byte.
     res_bind (i64_arith H (375 * int n + per_byte)) (\<lambda>var.
       i64_arith H (375 + var)))"

definition log_data :: "host \<Rightarrow> nat \<Rightarrow> nat \<Rightarrow> bytes exec" where
  "log_data H offset n =
     bindM (liftM (usize_add H offset n)) (\<lambda>till.
     bindM (getsM m_memory) (\<lambda>mem.
       if till > length mem then
         (if till > allocation_sanity_limit then throwM (InvalidAllocation till)
          else returnM (resize0 till mem))
       else read_memory offset till))"

definition op_LOG :: "frame \<Rightarrow> step_result exec" where
  "op_LOG F =
     (if k_call_type (f_ctx F) = CT_Static then throwM (StaticCallViolation (f_op F))
      else let n = op_n (i_opcode (f_instr F)) in
        bindM (evm_peek 2) (\<lambda>ws.
        bindM (liftM (as_usize (ws ! 0))) (\<lambda>offset.
        bindM (liftM (as_usize (ws ! 1))) (\<lambda>size.
        bindM (liftM (log_gas (f_host F) n size)) (\<lambda>gas.
          guard_gas gas
            (bindM evm_pop (\<lambda>_. bindM evm_pop (\<lambda>_.
             bindM (pop_many n) (\<lambda>topics.
             bindM (log_data (f_host F) offset size) (\<lambda>data.
             seqM (upd_evm (\<lambda>e. e\<lparr>e_logs := e_logs e @ [Log (frame_this F) (rev topics) data]\<rparr>))
               (next_pc gas)))))))))))"

section \<open>The end of a frame\<close>

definition return_data :: "host \<Rightarrow> nat \<Rightarrow> nat \<Rightarrow> unit exec" where
  "return_data H offset n =
     (if n > 0 then
        bindM (liftM (usize_add H offset n)) (\<lambda>till.
        seqM (expand_memory till)
          (bindM (read_memory offset till) set_ret))
      else set_ret [])"

definition return_body :: "frame \<Rightarrow> bool \<Rightarrow> step_result exec" where
  "return_body F reverted =
     bindM pop_usize (\<lambda>offset. bindM pop_usize (\<lambda>size.
       seqM (return_data (f_host F) offset size)
         (bindM memory_expansion_cost (\<lambda>gas.
          bindM (getsM m_ret) (\<lambda>ret.
          bindM (if reverted then liftM (decode_error_string ret) else returnM None) (\<lambda>error.
          bindM (getsM (\<lambda>m. g_used (m_gas m))) (\<lambda>used.
          seqM (trace_push (ED_Return (\<not> reverted) ret error used) (f_depth F) reverted)
            (next_pc gas))))))))"

definition op_RETURN :: "frame \<Rightarrow> step_result exec" where
  "op_RETURN F =
     seqM (upd_evm (\<lambda>e. e\<lparr>e_stopped := True, e_reverted := (f_op F = 0xfd)\<rparr>))
       (return_body F (f_op F = 0xfd))"

definition op_INVALID :: "frame \<Rightarrow> step_result exec" where
  "op_INVALID F = next_pc 0"

definition op_SELFDESTRUCT :: "frame \<Rightarrow> step_result exec" where
  "op_SELFDESTRUCT F =
     (if k_call_type (f_ctx F) = CT_Static then throwM (StaticCallViolation (f_op F))
      else let this = frame_this F in
        bindM pop_address (\<lambda>addr.
        bindM (getsM (\<lambda>m. is_address_warm (m_ext m) addr)) (\<lambda>is_warm.
        bindM (on_ext (ext_is_empty (f_host F) addr)) (\<lambda>is_empty.
        let gas = 5000 + (if is_warm then 0 else 2600) + (if is_empty then 25000 else 0) in
        bindM (on_ext (ext_balance (f_host F) this)) (\<lambda>balance.
        seqM (on_ext (set_value this 0))
          (bindM (on_ext (account_get addr)) (\<lambda>acc.
           bindM (liftM (word_add (a_value acc) balance)) (\<lambda>sum.
           seqM (on_ext (set_value addr sum))
             (seqM (on_ext (modifyM (\<lambda>x. x\<lparr>x_destroyed_accounts := x_destroyed_accounts x @ [this]\<rparr>)))
               (next_pc gas))))))))))"

lemmas mem_op_defs = op_POP_def op_SLOAD_def op_PC_def op_MSIZE_def op_GAS_def
  op_JUMPDEST_def op_TLOAD_def op_TSTORE_def op_PUSH0_def op_PUSH_def op_DUP_def op_SWAP_def
  op_SELFDESTRUCT_def op_JUMP_def op_JUMPI_def

section \<open>Stack effects\<close>

lemma quiet_refund [quiet_intros]:
  "quiet g 0 (upd_evm (\<lambda>e. e\<lparr>e_gas := gas_add_refund n (e_gas e)\<rparr>))"
  by (rule quiet_upd) (simp_all add: gas_add_refund_def)

lemma quiet_swap [quiet_intros]: "quiet g 0 (upd_evm (\<lambda>e. e\<lparr>e_stack := (e_stack e)[i := v, j := w]\<rparr>))"
  by (rule quiet_upd) simp_all

lemma quiet_log [quiet_intros]: "quiet g 0 (upd_evm (\<lambda>e. e\<lparr>e_logs := e_logs e @ l\<rparr>))"
  by (rule quiet_upd) simp_all

lemma quiet_pop_many [quiet_intros]: "quiet g (- int n) (pop_many n)"
proof (induction n)
  case 0
  then show ?case by (simp add: quiet_return)
next
  case (Suc n)
  show ?case unfolding pop_many.simps by (rule quiet_intros Suc refl | simp)+
qed

lemma priced_jump [quiet_intros]: "p \<le> gas \<Longrightarrow> priced p 0 (jump_to dest gas)"
  by (auto simp: priced_def jump_to_def upd_evm_def monad_defs quiet_step_def)

lemma sstore_cost_ge: "100 \<le> sstore_cost original val new is_warm"
  by (simp add: sstore_cost_def)

lemma sstore_price [simp]: "1 \<le> sstore_cost original val new is_warm"
  using sstore_cost_ge [of original val new is_warm] by linarith

lemma priced_storage:
  "priced 1 (- 1) (op_POP F)" "priced 1 0 (op_SLOAD F)" "priced 1 (- 2) (op_SSTORE F)"
  "priced 1 0 (op_TLOAD F)" "priced 1 (- 2) (op_TSTORE F)"
  unfolding mem_op_defs op_SSTORE_def sstore_commit_def by (rule quiet_intros refl | simp)+

lemma priced_flow:
  "priced 1 (- 1) (op_JUMP F)" "priced 1 (- 2) (op_JUMPI F)" "priced 1 1 (op_PC F)"
  "priced 1 1 (op_MSIZE F)" "priced 1 1 (op_GAS F)" "priced 1 0 (op_JUMPDEST F)"
  "priced 1 1 (op_PUSH0 F)" "priced 1 1 (op_PUSH F)" "priced 1 1 (op_DUP F)"
  "priced 1 0 (op_SWAP F)" "priced 1 (- 1) (op_SELFDESTRUCT F)"
  unfolding mem_op_defs by (rule quiet_intros refl | simp)+

lemma metered_memory: "metered 1 0 (op_MLOAD F)" "metered 1 (- 2) (op_MSTORE F)"
  unfolding op_MLOAD_def op_MSTORE_def
  by (rule metered_expansion quiet_intros refl | simp)+

text \<open>The remaining instructions rely on a build with overflow checks.\<close>

lemma quiet_mstore8_expand:
  assumes "overflow_checks H"
  shows "quiet True 0 (mstore8_expand H offset)"
  using padded_dvd [of "Suc offset"] padded_ge [of "Suc offset"]
  by (auto simp: quiet_def quiet_step_def mstore8_expand_def resize_memory_def upd_evm_def monad_defs
      memory_step_def usize_add_checked [OF assms] split: if_splits)

lemma metered_MSTORE8:
  "overflow_checks (f_host F) \<Longrightarrow> metered 1 (- 2) (op_MSTORE8 F)"
  unfolding op_MSTORE8_def
  by (rule metered_expansion quiet_mstore8_expand quiet_intros refl | assumption | simp)+

lemma quiet_mcopy_expand:
  assumes "overflow_checks H"
  shows "quiet True 0 (mcopy_expand H len dest_end)"
proof -
  have "usize_add H len ((32 - len mod 32) mod 32) =
      (if padded len < usize_bound then Ok (padded len) else Panic :: (nat, exec_error) res)"
    by (simp add: usize_add_checked [OF assms] padded_def)
  then show ?thesis
    using padded_dvd [of len] padded_ge [of len]
    by (auto simp: quiet_def quiet_step_def mcopy_expand_def resize_memory_def upd_evm_def monad_defs
        memory_step_def split: if_splits)
qed

lemma quiet_mcopy_buffer: "quiet g 0 (mcopy_buffer H offset n src_end)"
proof -
  have "quiet g 0 (bindM (liftM (usize_sub H len offset)) (\<lambda>copy.
       bindM (read_memory offset (offset + copy)) (\<lambda>bs.
         if copy \<le> n then returnM (bs @ replicate (n - copy) 0) else panicM)))" for len
    by (rule quiet_intros refl | simp)+
  then show ?thesis using quiet_read_memory [of g offset src_end]
    unfolding quiet_def mcopy_buffer_def by (auto split: if_splits)
qed

lemma metered_mcopy_body:
  "overflow_checks H \<Longrightarrow> metered 1 0 (mcopy_body H dest_offset offset n)"
  unfolding mcopy_body_def
  by (rule metered_expansion quiet_mcopy_expand quiet_mcopy_buffer quiet_intros refl | assumption | simp)+

lemma balanced_next: "p \<le> g \<Longrightarrow> balanced p 0 (next_pc g)"
  by (intro priced_balanced priced_next)

lemma balanced_MCOPY:
  "overflow_checks (f_host F) \<Longrightarrow> balanced 1 (- 3) (op_MCOPY F)"
  unfolding op_MCOPY_def
  by (rule metered_balanced [OF metered_mcopy_body] balanced_next quiet_intros refl | assumption | simp)+

lemma i64_arith_checked: "overflow_checks H \<Longrightarrow> i64_arith H n = Ok c \<Longrightarrow> c = n"
  unfolding i64_arith_def by (metis res.distinct(3) res.inject(1))

lemma i64_arith_fuel [simp]: "i64_arith H n \<noteq> OutOfFuel"
  unfolding i64_arith_def by (simp split: if_split)

lemma log_gas_checked:
  assumes "overflow_checks H" "log_gas H n sz = Ok gas"
  shows "gas = 375 + (375 * int n + 8 * i64_of_u64 sz)"
proof -
  from assms(2) obtain per_byte var where "i64_arith H (8 * i64_of_u64 sz) = (Ok per_byte :: (int, exec_error) res)"
    and "i64_arith H (375 * int n + per_byte) = (Ok var :: (int, exec_error) res)"
    and "i64_arith H (375 + var) = (Ok gas :: (int, exec_error) res)"
    unfolding log_gas_def res_bind_Ok_iff by blast
  then show ?thesis by (auto dest!: i64_arith_checked [OF assms(1)])
qed

lemma log_gas_ge:
  assumes "overflow_checks H" "log_gas H n sz = Ok gas" "sz \<le> alloc_limit"
  shows "375 \<le> gas"
  using log_gas_checked [OF assms(1,2)] assms(3) by (simp add: i64_of_u64_def)

lemma log_gas_fuel [simp]: "log_gas H n sz \<noteq> OutOfFuel"
proof -
  have "r \<noteq> OutOfFuel \<Longrightarrow> (\<And>x. f x \<noteq> OutOfFuel) \<Longrightarrow> res_bind r f \<noteq> OutOfFuel"
    for r :: "(int, exec_error) res" and f :: "int \<Rightarrow> (int, exec_error) res"
    by (cases r) simp_all
  then show ?thesis by (simp add: log_gas_def)
qed

lemma log_data_too_long:
  assumes "overflow_checks H" "alloc_limit < n" "paid m"
  shows "log_data H offset n m \<in> {(Panic, m), (Err (InvalidAllocation (offset + n)), m)}"
  using assms(2,3)
  by (auto simp: log_data_def monad_defs usize_add_checked [OF assms(1)] paid_def slack_def)

lemma balanced_log_data:
  assumes "overflow_checks H" and "\<And>data. n \<le> alloc_limit \<Longrightarrow> balanced p d (f data)"
  shows "balanced p d (bindM (log_data H offset n) f)"
proof (cases "n \<le> alloc_limit")
  case True
  have "quiet False 0 (log_data H offset n)"
    unfolding log_data_def by (rule quiet_intros refl | simp)+
  with True assms(2) show ?thesis by - (rule balanced_bind refl | assumption | simp)+
next
  case False
  then have "paid m \<Longrightarrow> bindM (log_data H offset n) f m \<in> {(Panic, m), (Err (InvalidAllocation (offset + n)), m)}" for m
    using log_data_too_long [OF assms(1), of n m offset] by (auto simp: bindM_def)
  then show ?thesis unfolding balanced_def by fastforce
qed

lemma balanced_LOG:
  assumes "overflow_checks (f_host F)"
  shows "balanced 1 (- 2 - int (op_n (i_opcode (f_instr F)))) (op_LOG F)"
proof -
  have next_ok: "balanced 1 0 (next_pc gas)"
    if "log_gas (f_host F) n sz = Ok gas" "sz \<le> alloc_limit" for gas n sz
    using log_gas_ge [OF assms that] by (intro balanced_next) simp
  show ?thesis unfolding op_LOG_def Let_def seqM_def
    by (rule balanced_lift [OF log_gas_fuel] balanced_log_data [OF assms] next_ok
        quiet_intros refl | assumption | simp)+
qed

lemma quiet_return_data [quiet_intros]: "quiet True 0 (return_data H offset n)"
  unfolding return_data_def by (rule quiet_intros refl | simp)+

lemma decode_error_string_fuel [simp]: "decode_error_string bs \<noteq> OutOfFuel"
  by (auto simp: decode_error_string_def Let_def as_usize_def)

lemma metered_return_body: "metered 0 (- 2) (return_body F rv)"
  unfolding return_body_def by (rule metered_expansion quiet_intros refl | simp)+

lemma lawful_RETURN: "lawful N F (op_RETURN F)"
proof -
  let ?stop = "\<lambda>m. m\<lparr>m_evm := (m_evm m)\<lparr>e_stopped := True, e_reverted := (f_op F = 0xfd)\<rparr>\<rparr>"
  have eq: "op_RETURN F m = return_body F (f_op F = 0xfd) (?stop m)" for m
    by (simp add: op_RETURN_def seqM_def bindM_def upd_evm_def modifyM_def)
  have inv: "frame_inv (?stop m)" if "frame_inv m" for m using that by (simp add: frame_inv_def)
  note body = metered_return_body [unfolded metered_def, rule_format, OF frame_inv_slack [OF inv]]
  show ?thesis
  proof (rule lawfulI)
    fix m r m' assume "frame_inv m" "op_RETURN F m = (r, m')"
    from body [OF this(1) this(2) [unfolded eq]]
    show "r \<noteq> OutOfFuel" and "g_limit (m_gas m') = g_limit (m_gas m)" by simp_all
  next
    fix m s m' assume "frame_inv m" "op_RETURN F m = (Ok s, m')"
    from body [OF this(1) this(2) [unfolded eq]] metered_step_inv [OF inv [OF this(1)]]
    show "lawful_result F m s m'"
      by (auto simp: lawful_result_def metered_step_def split: step_result.split)
  qed
qed

lemma lawful_INVALID: "f_op F = 0xfe \<Longrightarrow> lawful N F (op_INVALID F)"
  by (rule lawfulI) (auto simp: op_INVALID_def next_pc_eq lawful_result_def frame_inv_def)

end
