(* ===== verification/Calls.thy ===== *)
theory Calls
  imports MemOps
begin

text \<open>
  The message calls and contract creations of \<open>src/executor.rs\<close>: the methods \<open>call\<close> and
  \<open>create\<close> and the six instructions that use them (\<open>CREATE\<close>, \<open>CALL\<close>, \<open>CALLCODE\<close>,
  \<open>DELEGATECALL\<close>, \<open>CREATE2\<close>, \<open>STATICCALL\<close>). Both start a nested frame; the function
  that executes it is the parameter \<open>exec\<close> here and is tied back to the interpreter in
  \<open>Executor\<close>. What they rely on of it is the locale \<open>sub_executor\<close>.

  The long methods are split where the source has its comments: arguments, memory,
  account access, base cost, precompiled contract, value transfer, nested frame, settlement.
\<close>

type_synonym executor = "bytecode \<Rightarrow> call \<Rightarrow> call_context \<Rightarrow> bytes exec"

section \<open>Running a nested frame\<close>

definition inner_evm :: "int \<Rightarrow> evm" where
  "inner_evm g = evm_default\<lparr>e_gas := gas_new g\<rparr>"

text \<open>
  \<open>Executor::with_tracer(self.tracer.fork())\<close> on a fresh \<open>Evm\<close> and the shared \<open>Ext\<close>.
  The result: the returned bytes, the inner \<open>Evm\<close> and the inner trace.
\<close>

definition run_inner ::
    "executor \<Rightarrow> bytecode \<Rightarrow> call \<Rightarrow> call_context \<Rightarrow> int \<Rightarrow> (bytes \<times> evm \<times> trace) exec" where
  "run_inner exec code call ctx g = (\<lambda>m.
     case exec code call ctx
            \<lparr>m_evm = inner_evm g, m_ext = m_ext m, m_ret = [], m_trace = log_fork (m_trace m)\<rparr> of
       (Ok ret, m') \<Rightarrow> (Ok (ret, m_evm m', m_trace m'), m\<lparr>m_ext := m_ext m'\<rparr>)
     | (Err e, m') \<Rightarrow> (Err e, m\<lparr>m_ext := m_ext m'\<rparr>)
     | (Panic, m') \<Rightarrow> (Panic, m\<lparr>m_ext := m_ext m'\<rparr>)
     | (OutOfFuel, m') \<Rightarrow> (OutOfFuel, m\<lparr>m_ext := m_ext m'\<rparr>))"

definition trace_join :: "trace \<Rightarrow> bool \<Rightarrow> unit exec" where
  "trace_join inner reverted = modifyM (\<lambda>m. m\<lparr>m_trace := log_join (m_trace m) inner reverted\<rparr>)"

definition extend_touches :: "account_touch list \<Rightarrow> unit exec" where
  "extend_touches ts = upd_evm (\<lambda>e. e\<lparr>e_touches := e_touches e @ ts\<rparr>)"

text \<open>\<open>remaining_gas - remaining_gas / 64\<close>.\<close>

definition all_but_one_64th :: "int \<Rightarrow> int" where
  "all_but_one_64th remaining_gas = remaining_gas - trunc_div remaining_gas 64"

section \<open>call\<close>

record call_args =
  ca_gas :: u256
  ca_address :: addr160
  ca_value :: u256
  ca_args_offset :: nat
  ca_args_size :: nat
  ca_ret_offset :: nat
  ca_ret_size :: nat

definition pop_call_args :: "frame \<Rightarrow> call_args exec" where
  "pop_call_args F =
     bindM evm_pop (\<lambda>w. let call_gas = min w (of_int i64_max) in
     bindM pop_address (\<lambda>addr.
     bindM (if k_call_type (f_ctx F) \<notin> {CT_Static, CT_Delegate} then evm_pop
            else if k_call_type (f_ctx F) = CT_Static then returnM 0
            else returnM (c_value (f_call F))) (\<lambda>val.
     bindM pop_usize (\<lambda>args_offset. bindM pop_usize (\<lambda>args_size.
     bindM pop_usize (\<lambda>ret_offset. bindM pop_usize (\<lambda>ret_size.
       returnM \<lparr>ca_gas = call_gas, ca_address = addr, ca_value = val,
         ca_args_offset = args_offset, ca_args_size = args_size,
         ca_ret_offset = ret_offset, ca_ret_size = ret_size\<rparr>)))))))"

definition call_expand :: "host \<Rightarrow> call_args \<Rightarrow> unit exec" where
  "call_expand H a =
     bindM (if ca_args_size a > 0 then liftM (usize_add H (ca_args_offset a) (ca_args_size a))
            else returnM 0) (\<lambda>args_max.
     bindM (if ca_ret_size a > 0 then liftM (usize_add H (ca_ret_offset a) (ca_ret_size a))
            else returnM 0) (\<lambda>ret_max.
       let sz = max args_max ret_max in (\<lambda>m.
         if sz > length (m_memory m) then
           (if sz > allocation_sanity_limit then throwM (InvalidAllocation sz) m
            else resize_memory (div_ceil sz 32 * 32) m)
         else (Ok (), m))))"

definition is_delegation :: "bytes \<Rightarrow> bool" where
  "is_delegation code = (length code = 23 \<and> take 3 code = [0xef, 0x01, 0x00])"

record call_target =
  ct_code :: bytes
  ct_codehash :: u256
  ct_create_cost :: int
  ct_access_cost :: int

definition call_access :: "frame \<Rightarrow> call_args \<Rightarrow> call_target exec" where
  "call_access F a = (let addr = ca_address a in
     bindM (if is_precompile addr then returnM False else on_ext (ext_is_empty (f_host F) addr)) (\<lambda>is_empty.
     let create_cost = (if \<not> is_zero (ca_value a) \<and> is_empty then 25000 else 0) in
     bindM (on_ext (ext_code (f_host F) addr)) (\<lambda>(code, codehash).
     seqM (touch (T_GetCode addr codehash code))
       (bindM (address_access_cost addr) (\<lambda>access_cost.
        if is_delegation code then
          (let target = addr_of_bytes (drop 3 code) in
           bindM (on_ext (ext_code (f_host F) target)) (\<lambda>(target_code, target_hash).
           seqM (touch (T_GetCode target target_hash target_code))
             (bindM (address_access_cost target) (\<lambda>target_cost.
                returnM \<lparr>ct_code = target_code, ct_codehash = codehash, ct_create_cost = create_cost,
                  ct_access_cost = access_cost + 100 + (target_cost - 100)\<rparr>))))
        else returnM \<lparr>ct_code = code, ct_codehash = codehash, ct_create_cost = create_cost,
               ct_access_cost = access_cost\<rparr>)))))"

definition transfers_value :: "frame \<Rightarrow> call_args \<Rightarrow> bool" where
  "transfers_value F a = (k_call_type (f_ctx F) \<notin> {CT_Static, CT_Delegate} \<and> \<not> is_zero (ca_value a))"

definition call_stipend :: "frame \<Rightarrow> call_args \<Rightarrow> int" where
  "call_stipend F a = (if transfers_value F a then 2300 else 0)"

definition call_base_cost :: "frame \<Rightarrow> call_args \<Rightarrow> int \<Rightarrow> call_target \<Rightarrow> int" where
  "call_base_cost F a mem_cost t =
     ct_access_cost t + mem_cost + ct_create_cost t + (if transfers_value F a then 9000 else 0)"

text \<open>
  Not enough gas for the base cost. The slice in the debug output of the event is kept for
  its range check.
\<close>

definition call_oog :: "frame \<Rightarrow> call_args \<Rightarrow> int exec" where
  "call_oog F a =
     bindM (liftM (usize_add (f_host F) (ca_args_offset a) (ca_args_size a))) (\<lambda>args_end.
     bindM (getsM (\<lambda>m. length (m_memory m))) (\<lambda>len.
     bindM (read_memory (min (ca_args_offset a) len) (min args_end len)) (\<lambda>_.
     seqM (trace_opcode F False (\<lambda>e. (gas_remaining (e_gas e),
             g_used (e_gas e) + gas_remaining (e_gas e), 0, 0)))
       (seqM (upd_evm (\<lambda>e. e\<lparr>e_refund := g_refund (e_gas e)\<rparr>))
         (seqM (evm_push 0) (throwM OutOfGas))))))"

definition trace_call :: "frame \<Rightarrow> int \<Rightarrow> unit exec" where
  "trace_call F total_cost = trace_opcode F False (\<lambda>e. (total_cost, g_used (e_gas e) + total_cost,
     gas_remaining (e_gas e) - total_cost, 0))"

definition call_precompile :: "frame \<Rightarrow> call_args \<Rightarrow> int \<Rightarrow> bytes \<Rightarrow> unit exec" where
  "call_precompile F a total_cost data =
     bindM (case precompile_execute (f_host F) (ca_address a) data of
              Ok ret \<Rightarrow> seqM (set_ret ret) (returnM 1)
            | Err _ \<Rightarrow> returnM 0
            | Panic \<Rightarrow> panicM
            | OutOfFuel \<Rightarrow> panicM) (\<lambda>result.
     bindM (liftM (usize_add (f_host F) (ca_args_offset a) (ca_args_size a))) (\<lambda>args_end.
     bindM (read_memory (ca_args_offset a) args_end) (\<lambda>_.
     seqM (trace_call F total_cost)
       (bindM (getsM m_ret) (\<lambda>ret.
        let copy_len = min (length ret) (ca_ret_size a) in
        bindM (liftM (usize_add (f_host F) (ca_ret_offset a) copy_len)) (\<lambda>ret_end.
        seqM (write_memory (ca_ret_offset a) ret_end (take copy_len ret))
          (evm_push result)))))))"

definition move_value :: "frame \<Rightarrow> addr160 \<Rightarrow> addr160 \<Rightarrow> u256 \<Rightarrow> u256 \<Rightarrow> u256 \<Rightarrow> unit exec" where
  "move_value F src dst sender_balance receiver_balance val =
     bindM (liftM (word_sub sender_balance val)) (\<lambda>new_sender_balance.
     seqM (on_ext (set_value src new_sender_balance))
       (seqM (touch (T_SetValue src sender_balance new_sender_balance))
         (seqM (trace_push (ED_Account (AE_SetValue src sender_balance new_sender_balance)) (f_depth F) False)
           (bindM (liftM (word_add receiver_balance val)) (\<lambda>new_receiver_balance.
            seqM (on_ext (set_value dst new_receiver_balance))
              (seqM (touch (T_SetValue dst receiver_balance new_receiver_balance))
                (trace_push (ED_Account (AE_SetValue dst receiver_balance new_receiver_balance))
                  (f_depth F) False)))))))"

definition call_transfer :: "frame \<Rightarrow> call_args \<Rightarrow> unit exec" where
  "call_transfer F a = (let this = frame_this F; addr = ca_address a in
     bindM (on_ext (ext_balance (f_host F) this)) (\<lambda>sender_balance.
     bindM (on_ext (ext_balance (f_host F) addr)) (\<lambda>receiver_balance.
       if transfers_value F a \<and> sender_balance \<ge> ca_value a \<and> this \<noteq> addr
       then move_value F this addr sender_balance receiver_balance (ca_value a)
       else returnM ())))"

definition inner_call :: "frame \<Rightarrow> call_args \<Rightarrow> bytes \<Rightarrow> int \<Rightarrow> call" where
  "inner_call F a data gas_to_forward =
     (let borrowed = (k_call_type (f_ctx F) \<in> {CT_Delegate, CT_Callcode}) in
      \<lparr>c_data = data, c_value = ca_value a,
        c_from = (if borrowed then c_from (f_call F) else frame_this F),
        c_to = (if borrowed then frame_this F else ca_address a),
        c_gas = of_int gas_to_forward\<rparr>)"

definition settle_call :: "evm \<Rightarrow> bytes \<Rightarrow> unit exec" where
  "settle_call inner ret =
     (if e_reverted inner then
        seqM (upd_evm (\<lambda>e. e\<lparr>e_refund := g_refund (e_gas e)\<rparr>))
          (seqM (set_ret ret)
            (seqM (evm_push 0)
              (seqM (on_ext (evm_revert inner))
                (extend_touches (filter survives_revert (e_touches inner))))))
      else
        seqM (upd_evm (\<lambda>e. let g = gas_add_refund (g_refund (e_gas inner)) (e_gas e)
                 in e\<lparr>e_gas := g, e_refund := g_refund g\<rparr>))
          (seqM (extend_touches (e_touches inner))
            (seqM (set_ret ret) (evm_push 1))))"

definition charge_used :: "int \<Rightarrow> unit exec" where
  "charge_used n = upd_evm (\<lambda>e. e\<lparr>e_gas := (e_gas e)\<lparr>g_used := g_used (e_gas e) + n\<rparr>\<rparr>)"

definition copy_return :: "host \<Rightarrow> call_args \<Rightarrow> bytes \<Rightarrow> unit exec" where
  "copy_return H a ret =
     (let copy_len = min (length ret) (ca_ret_size a) in
      if copy_len > 0 then
        bindM (liftM (usize_add H (ca_ret_offset a) copy_len)) (\<lambda>ret_end.
          write_memory (ca_ret_offset a) ret_end (take copy_len ret))
      else returnM ())"

text \<open>After the nested frame: trace, returned data, gas, journal, result.\<close>

definition finish_call ::
    "frame \<Rightarrow> call_args \<Rightarrow> int \<Rightarrow> bytes \<Rightarrow> evm \<Rightarrow> trace \<Rightarrow> unit exec" where
  "finish_call F a total_cost ret inner tr =
     seqM (trace_call F total_cost)
       (seqM (trace_join tr (e_reverted inner))
         (seqM (copy_return (f_host F) a ret)
           (seqM (charge_used (g_used (e_gas inner) - call_stipend F a))
             (settle_call inner ret))))"

definition call_inner ::
    "executor \<Rightarrow> frame \<Rightarrow> call_args \<Rightarrow> call_target \<Rightarrow> int \<Rightarrow> int \<Rightarrow> bytes \<Rightarrow> unit exec" where
  "call_inner exec F a t gas_to_forward total_cost data =
     seqM (call_transfer F a)
       (let code = decode_bytecode (ct_code t) in
        seqM (trace_push (ED_Account (AE_GetCode (ca_address a) (ct_codehash t) (bc_bytecode code)))
               (f_depth F) False)
          (bindM (run_inner exec code (inner_call F a data gas_to_forward)
                   ((f_ctx F)\<lparr>k_depth := f_depth F + 1\<rparr>) gas_to_forward) (\<lambda>(ret, inner, tr).
             finish_call F a total_cost ret inner tr)))"

definition call_data :: "host \<Rightarrow> call_args \<Rightarrow> bytes exec" where
  "call_data H a =
     (if ca_args_size a > 0 then
        bindM (liftM (usize_add H (ca_args_offset a) (ca_args_size a))) (read_memory (ca_args_offset a))
      else returnM [])"

text \<open>The price is known: refuse, run a precompiled contract, or start a nested frame.\<close>

definition call_dispatch :: "executor \<Rightarrow> frame \<Rightarrow> call_args \<Rightarrow> int \<Rightarrow> call_target \<Rightarrow> int exec" where
  "call_dispatch exec F a mem_cost t =
     (let base_gas_cost = call_base_cost F a mem_cost t in
      bindM (getsM m_remaining) (\<lambda>remaining.
      if base_gas_cost > remaining then call_oog F a
      else
        bindM (liftM (as_i64 (ca_gas a))) (\<lambda>call_gas.
        let gas_to_forward = min call_gas (all_but_one_64th (remaining - base_gas_cost)) + call_stipend F a;
            total_cost = base_gas_cost + gas_to_forward - call_stipend F a in
        bindM (call_data (f_host F) a) (\<lambda>data.
        if is_precompile (ca_address a) then
          seqM (call_precompile F a total_cost data)
            (seqM (evm_gas (precompile_gas_cost (ca_address a) data)) (returnM base_gas_cost))
        else seqM (call_inner exec F a t gas_to_forward total_cost data) (returnM base_gas_cost)))))"

text \<open>The method \<open>call\<close>; the result is what it leaves in \<open>*gas\<close>.\<close>

definition evm_call :: "executor \<Rightarrow> frame \<Rightarrow> int exec" where
  "evm_call exec F =
     bindM (pop_call_args F) (\<lambda>a.
     seqM (call_expand (f_host F) a)
       (bindM memory_expansion_cost (\<lambda>mem_cost.
        bindM (call_access F a) (\<lambda>t. call_dispatch exec F a mem_cost t))))"

text \<open>The arms of the four calls: an error of \<open>call\<close> halts the frame.\<close>

definition call_arm :: "executor \<Rightarrow> frame \<Rightarrow> call_context \<Rightarrow> step_result exec" where
  "call_arm exec F ctx =
     catchM (evm_call exec (F\<lparr>f_ctx := ctx\<rparr>)) next_pc
       (\<lambda>_. bindM (getsM m_remaining) (\<lambda>r. returnM (Halt r)))"

definition op_CALL :: "executor \<Rightarrow> frame \<Rightarrow> step_result exec" where
  "op_CALL exec F =
     bindM (getsM (\<lambda>m. rev (m_stack m))) (\<lambda>top.
       if k_call_type (f_ctx F) = CT_Static \<and> length top \<le> 2 then throwM StackUnderflow
       else if k_call_type (f_ctx F) = CT_Static \<and> \<not> is_zero (top ! 2)
         then throwM (StaticCallViolation (f_op F))
       else call_arm exec F ((f_ctx F)\<lparr>k_call_type := CT_Call\<rparr>))"

definition op_CALLCODE :: "executor \<Rightarrow> frame \<Rightarrow> step_result exec" where
  "op_CALLCODE exec F = call_arm exec F ((f_ctx F)\<lparr>k_call_type := CT_Callcode\<rparr>)"

definition op_DELEGATECALL :: "executor \<Rightarrow> frame \<Rightarrow> step_result exec" where
  "op_DELEGATECALL exec F = call_arm exec F ((f_ctx F)\<lparr>k_call_type := CT_Delegate\<rparr>)"

definition op_STATICCALL :: "executor \<Rightarrow> frame \<Rightarrow> step_result exec" where
  "op_STATICCALL exec F =
     call_arm exec F ((f_ctx F)\<lparr>k_call_type := CT_Static, k_is_static_call := True\<rparr>)"

section \<open>create\<close>

definition u64_succ :: "host \<Rightarrow> u64 \<Rightarrow> (u64, exec_error) res" where
  "u64_succ H n = (if n = - 1 \<and> overflow_checks H then Panic else Ok (n + 1))"

definition init_code_cost :: "frame \<Rightarrow> nat \<Rightarrow> int" where
  "init_code_cost F n = (let word_size = int (div_ceil n 32) in
     2 * word_size + (if k_call_type (f_ctx F) = CT_Create2 then 6 * word_size else 0))"

text \<open>The creator's nonce is incremented before the address is computed.\<close>

definition bump_nonce :: "host \<Rightarrow> addr160 \<Rightarrow> nat \<Rightarrow> u256 exec" where
  "bump_nonce H this depth =
     bindM (on_ext (ext_nonce H this)) (\<lambda>nonce.
     bindM (liftM (word_add nonce 1)) (\<lambda>nonce1.
     seqM (on_ext (set_nonce this nonce1))
       (bindM (liftM (as_u64 nonce)) (\<lambda>val.
        bindM (liftM (u64_succ H val)) (\<lambda>new.
        seqM (touch (T_SetNonce this val new))
          (seqM (trace_push (ED_Account (AE_SetNonce this val new)) depth False)
            (returnM nonce)))))))"

definition created_address :: "frame \<Rightarrow> u256 \<Rightarrow> u256 \<Rightarrow> bytes \<Rightarrow> addr160" where
  "created_address F nonce salt code =
     (if k_call_type (f_ctx F) = CT_Create2
      then addr_create2 (keccak256 (f_host F)) (frame_this F) salt code
      else addr_create (keccak256 (f_host F)) (frame_this F) nonce)"

definition warm_touch :: "addr160 \<Rightarrow> unit exec" where
  "warm_touch a = bindM (on_ext (warm_address a)) (\<lambda>new. if new then touch (T_WarmUp a) else returnM ())"

definition register_created :: "addr160 \<Rightarrow> unit exec" where
  "register_created created =
     seqM (on_ext (modifyM (\<lambda>x. x\<lparr>x_created_accounts := x_created_accounts x @ [created]\<rparr>)))
       (seqM (warm_touch created) (on_ext (entry_or_default created)))"

definition create_failed :: "evm \<Rightarrow> unit exec" where
  "create_failed inner =
     seqM (evm_push 0)
       (seqM (on_ext (evm_revert inner))
         (extend_touches (filter survives_revert (e_touches inner))))"

text \<open>The new account: code, nonce 1 (EIP-161), endowment.\<close>

definition deploy_account :: "frame \<Rightarrow> addr160 \<Rightarrow> u256 \<Rightarrow> bytes \<Rightarrow> unit exec" where
  "deploy_account F created val code =
     (let this = frame_this F; hash = from_bytes (keccak256 (f_host F) code) in
      bindM (on_ext (ext_code (f_host F) created)) (\<lambda>_.
      seqM (on_ext (set_code created (code, hash)))
        (seqM (on_ext (set_nonce created 1))
          (bindM (on_ext (ext_balance (f_host F) this)) (\<lambda>sender_balance.
           bindM (on_ext (ext_balance (f_host F) created)) (\<lambda>receiver_balance.
           seqM (if \<not> is_zero val \<and> k_call_type (f_ctx F) \<notin> {CT_Static, CT_Delegate}
                     \<and> sender_balance \<ge> val
                 then move_value F this created sender_balance receiver_balance val
                 else returnM ())
             (seqM (touch (T_Create created val 1 code hash))
               (trace_push (ED_Account (AE_Create created this 1 val hash code)) (f_depth F) False))))))))"

definition deploy :: "frame \<Rightarrow> addr160 \<Rightarrow> u256 \<Rightarrow> evm \<Rightarrow> bytes \<Rightarrow> unit exec" where
  "deploy F created val inner code =
     seqM (deploy_account F created val code)
       (seqM (upd_evm (\<lambda>e. let g = gas_add_refund (g_refund (e_gas inner)) (e_gas e)
                in e\<lparr>e_gas := g, e_refund := g_refund g\<rparr>))
         (seqM (extend_touches (e_touches inner)) (evm_push (word_of_addr created))))"

definition settle_create ::
    "frame \<Rightarrow> addr160 \<Rightarrow> u256 \<Rightarrow> int \<Rightarrow> int \<Rightarrow> evm \<Rightarrow> bytes \<Rightarrow> unit exec" where
  "settle_create F created val base_cost gas_to_forward inner code =
     (let deployed_code_cost = (if e_reverted inner then 0 else 200 * int (length code)) in
      if gas_to_forward < g_used (e_gas inner) + deployed_code_cost then
        seqM (charge_used (base_cost + gas_to_forward)) (create_failed inner)
      else
        seqM (charge_used (base_cost + deployed_code_cost + g_used (e_gas inner)))
          (if e_reverted inner then create_failed inner else deploy F created val inner code))"

definition create_inner ::
    "executor \<Rightarrow> frame \<Rightarrow> addr160 \<Rightarrow> u256 \<Rightarrow> bytecode \<Rightarrow> int \<Rightarrow> unit exec" where
  "create_inner exec F created val code base_cost =
     bindM (getsM (\<lambda>m. m_remaining m - base_cost)) (\<lambda>remaining_gas.
     if remaining_gas \<le> 0 then panicM
     else let gas_to_forward = all_but_one_64th remaining_gas in
       bindM (run_inner exec code
                \<lparr>c_data = [], c_value = val, c_from = frame_this F, c_to = addr_zero,
                  c_gas = of_int gas_to_forward\<rparr>
                ((f_ctx F)\<lparr>k_created := created, k_depth := f_depth F + 1\<rparr>) gas_to_forward)
         (\<lambda>(ret, inner, tr).
          seqM (trace_call F (base_cost + gas_to_forward))
            (seqM (trace_join tr (e_reverted inner))
              (settle_create F created val base_cost gas_to_forward inner ret))))"

text \<open>The method \<open>create\<close>; it leaves \<open>*gas\<close> at 0.\<close>

definition evm_create :: "executor \<Rightarrow> frame \<Rightarrow> unit exec" where
  "evm_create exec F = (let H = f_host F in
     bindM evm_pop (\<lambda>val. bindM pop_usize (\<lambda>offset. bindM pop_usize (\<lambda>size.
     bindM (if k_call_type (f_ctx F) = CT_Create2 then evm_pop else returnM 0) (\<lambda>salt.
     seqM (if size > 0 then bindM (liftM (usize_add H offset size)) expand_memory else returnM ())
       (bindM memory_expansion_cost (\<lambda>mem_cost.
        bindM (liftM (usize_add H offset size)) (\<lambda>till.
        bindM (read_memory offset till) (\<lambda>init.
        let code = decode_bytecode init;
            base_cost = mem_cost + 32000 + init_code_cost F (length init) in
        bindM (bump_nonce H (frame_this F) (f_depth F)) (\<lambda>nonce.
        let created = created_address F nonce salt (bc_bytecode code) in
        seqM (register_created created)
          (create_inner exec F created val code base_cost)))))))))))"

definition op_CREATE :: "executor \<Rightarrow> frame \<Rightarrow> step_result exec" where
  "op_CREATE exec F =
     (if k_call_type (f_ctx F) = CT_Static then throwM (StaticCallViolation (f_op F))
      else seqM (evm_create exec F) (next_pc 0))"

definition op_CREATE2 :: "executor \<Rightarrow> frame \<Rightarrow> step_result exec" where
  "op_CREATE2 exec F =
     (if k_call_type (f_ctx F) = CT_Static then throwM (StaticCallViolation (f_op F))
      else seqM (evm_create exec (F\<lparr>f_ctx := (f_ctx F)\<lparr>k_call_type := CT_Create2\<rparr>\<rparr>)) (next_pc 0))"

end
