(* ===== verification/Executor.thy ===== *)
theory Executor
  imports Calls
begin

text \<open>
  The interpreter of \<open>src/executor.rs\<close>: the dispatch of \<open>execute_instruction\<close>, the loop of
  \<open>execute_with_context\<close>, and \<open>execute\<close>, which runs a whole transaction.

  The loop is bounded by fuel: every turn, and every frame it starts, has one unit less. The
  result \<open>OutOfFuel\<close> marks a run that was cut short; \<open>fuel_suffices\<close> shows that the gas of
  a frame plus 2 is always enough, so the interpreter always ends.
\<close>

section \<open>Dispatch\<close>

definition op_table :: "executor \<Rightarrow> (nat \<times> (frame \<Rightarrow> step_result exec)) list" where
  "op_table exec = [
     (0x00, op_STOP), (0x01, op_ADD), (0x02, op_MUL), (0x03, op_SUB), (0x04, op_DIV),
     (0x05, op_SDIV), (0x06, op_MOD), (0x07, op_SMOD), (0x08, op_ADDMOD), (0x09, op_MULMOD),
     (0x0a, op_EXP), (0x0b, op_SIGNEXTEND),
     (0x10, op_LT), (0x11, op_GT), (0x12, op_SLT), (0x13, op_SGT), (0x14, op_EQ),
     (0x15, op_ISZERO), (0x16, op_AND), (0x17, op_OR), (0x18, op_XOR), (0x19, op_NOT),
     (0x1a, op_BYTE), (0x1b, op_SHL), (0x1c, op_SHR), (0x1d, op_SAR), (0x1e, op_CLZ),
     (0x20, op_SHA3),
     (0x30, op_ADDRESS), (0x31, op_BALANCE), (0x32, op_ORIGIN), (0x33, op_CALLER),
     (0x34, op_CALLVALUE), (0x35, op_CALLDATALOAD), (0x36, op_CALLDATASIZE),
     (0x37, op_CALLDATACOPY), (0x38, op_CODESIZE), (0x39, op_CODECOPY), (0x3a, op_GASPRICE),
     (0x3b, op_EXTCODESIZE), (0x3c, op_EXTCODECOPY), (0x3d, op_RETURNDATASIZE),
     (0x3e, op_RETURNDATACOPY), (0x3f, op_EXTCODEHASH),
     (0x40, op_BLOCKHASH), (0x41, op_COINBASE), (0x42, op_TIMESTAMP), (0x43, op_NUMBER),
     (0x44, op_PREVRANDAO), (0x45, op_GASLIMIT), (0x46, op_CHAINID), (0x47, op_SELFBALANCE),
     (0x48, op_BASEFEE), (0x49, op_BLOBHASH), (0x4a, op_BLOBBASEFEE),
     (0x50, op_POP), (0x51, op_MLOAD), (0x52, op_MSTORE), (0x53, op_MSTORE8), (0x54, op_SLOAD),
     (0x55, op_SSTORE), (0x56, op_JUMP), (0x57, op_JUMPI), (0x58, op_PC), (0x59, op_MSIZE),
     (0x5a, op_GAS), (0x5b, op_JUMPDEST), (0x5c, op_TLOAD), (0x5d, op_TSTORE), (0x5e, op_MCOPY),
     (0x5f, op_PUSH0),
     (0xf0, op_CREATE exec), (0xf1, op_CALL exec), (0xf2, op_CALLCODE exec), (0xf3, op_RETURN),
     (0xf4, op_DELEGATECALL exec), (0xf5, op_CREATE2 exec), (0xfa, op_STATICCALL exec),
     (0xfd, op_RETURN), (0xfe, op_INVALID), (0xff, op_SELFDESTRUCT)]"

definition execute_instruction :: "executor \<Rightarrow> frame \<Rightarrow> step_result exec" where
  "execute_instruction exec F = (let c = unat (f_op F) in
     if 0x60 \<le> c \<and> c \<le> 0x7f then op_PUSH F
     else if 0x80 \<le> c \<and> c \<le> 0x8f then op_DUP F
     else if 0x90 \<le> c \<and> c \<le> 0x9f then op_SWAP F
     else if 0xa0 \<le> c \<and> c \<le> 0xa4 then op_LOG F
     else case map_of (op_table exec) c of
            Some handler \<Rightarrow> handler F
          | None \<Rightarrow> throwM (UnknownOpcode (f_op F)))"

section \<open>The loop\<close>

datatype turn = Continue | Finish bytes

definition stop_reverted :: "unit exec" where
  "stop_reverted = upd_evm (\<lambda>e. e\<lparr>e_stopped := True, e_reverted := True\<rparr>)"

definition trace_step :: "frame \<Rightarrow> int \<Rightarrow> unit exec" where
  "trace_step F cost =
     bindM (getsM m_evm) (\<lambda>e.
       let charged_cost = min cost (gas_remaining (e_gas e));
           refund = g_refund (e_gas e) - e_refund e in
       seqM (upd_evm (\<lambda>e. e\<lparr>e_refund := g_refund (e_gas e)\<rparr>))
         (trace_opcode F False (\<lambda>e. (charged_cost, g_used (e_gas e) + charged_cost,
            gas_remaining (e_gas e) - charged_cost, refund))))"

text \<open>\<open>evm.gas.sub(evm.gas.remaining()).expect("must succeed")\<close>.\<close>

definition drain_gas :: "unit exec" where
  "drain_gas = (\<lambda>m. case gas_sub (m_remaining m) (m_gas m) of
       (Ok _, g) \<Rightarrow> (Ok (), m\<lparr>m_evm := (m_evm m)\<lparr>e_gas := g\<rparr>\<rparr>)
     | (_, g) \<Rightarrow> (Panic, m\<lparr>m_evm := (m_evm m)\<lparr>e_gas := g\<rparr>\<rparr>))"

definition halted :: "frame \<Rightarrow> halt_reason \<Rightarrow> turn exec" where
  "halted F reason =
     seqM stop_reverted
       (seqM (trace_push (ED_Halt reason) (f_depth F) True) (returnM (Finish [])))"

definition after_step :: "frame \<Rightarrow> step_result \<Rightarrow> turn exec" where
  "after_step F result =
     (let (cost, halt) = (case result of StepOk c \<Rightarrow> (c, False) | Halt c \<Rightarrow> (c, True));
          is_sstore = (halt \<and> op_name (i_opcode (f_instr F)) = ''SSTORE'') in
      seqM (if halt then stop_reverted else returnM ())
        (seqM (if \<not> is_call (f_instr F) \<and> \<not> is_sstore then trace_step F cost else returnM ())
          (if halt \<or> f_op F = 0xfe then
             seqM drain_gas
               (halted F (if f_op F = 0xfe then HR_InvalidOpcode else HR_OutOfGas))
           else
             catchM (evm_gas cost)
               (\<lambda>_. returnM (if f_op F = 0xff then Finish [] else Continue))
               (\<lambda>_. halted F HR_OutOfGas))))"

definition failed_step :: "frame \<Rightarrow> turn exec" where
  "failed_step F =
     seqM stop_reverted
       (seqM (trace_opcode F True (\<lambda>e. (0, g_used (e_gas e), gas_remaining (e_gas e),
               g_refund (e_gas e) - e_refund e)))
         (bindM (getsM m_remaining) (\<lambda>r.
            catchM (evm_gas r) (\<lambda>_. returnM (Finish [])) (\<lambda>_. panicM))))"

definition execute_turn :: "executor \<Rightarrow> frame \<Rightarrow> turn exec" where
  "execute_turn exec F = catchM (execute_instruction exec F) (after_step F) (\<lambda>_. failed_step F)"

definition end_frame :: "bytecode \<Rightarrow> call_context \<Rightarrow> bytes exec" where
  "end_frame code ctx =
     bindM (getsM m_evm) (\<lambda>e.
     seqM (if \<not> e_stopped e \<and> bc_instructions code \<noteq> [] then
             trace_push (ED_OpCode \<lparr>oe_pc = e_pc e, oe_op = 0, oe_name = ''STOP'', oe_data = None,
                 oe_gas_cost = 0, oe_gas_used = g_used (e_gas e),
                 oe_gas_left = gas_remaining (e_gas e), oe_gas_back = 0,
                 oe_stack = e_stack e, oe_memory = chunks32 (e_memory e)\<rparr>) (k_depth ctx) False
           else returnM ())
       (getsM m_ret))"

text \<open>
  \<open>execute_with_context\<close> up to its loop: the call event, the warm caller, the depth limit.
\<close>

definition announce_call :: "call \<Rightarrow> call_context \<Rightarrow> unit exec" where
  "announce_call call ctx =
     seqM (trace_push (ED_Call (k_call_type ctx) (c_data call) (c_value call) (c_from call)
             (c_to call) (c_gas call)) (k_depth ctx) False)
       (if addr_is_zero (c_from call) then returnM () else warm_touch (c_from call))"

definition enter_frame :: "executor \<Rightarrow> executor" where
  "enter_frame loop code call ctx =
     seqM (announce_call call ctx)
       (if k_depth ctx > call_depth_limit then seqM stop_reverted (returnM [])
        else loop code call ctx)"

fun run_loop :: "nat \<Rightarrow> host \<Rightarrow> header \<Rightarrow> executor" where
  "run_loop 0 H hdr code call ctx = (\<lambda>m. (OutOfFuel, m))"
| "run_loop (Suc n) H hdr code call ctx = (\<lambda>m.
     if \<not> e_stopped (m_evm m) \<and> e_pc (m_evm m) < length (bc_instructions code) then
       bindM (execute_turn (enter_frame (run_loop n H hdr))
                \<lparr>f_host = H, f_header = hdr, f_code = code, f_call = call, f_ctx = ctx,
                  f_instr = bc_instructions code ! e_pc (m_evm m)\<rparr>)
         (\<lambda>t. case t of Finish bs \<Rightarrow> returnM bs | Continue \<Rightarrow> run_loop n H hdr code call ctx) m
     else end_frame code ctx m)"

definition execute_with_context :: "nat \<Rightarrow> host \<Rightarrow> header \<Rightarrow> executor" where
  "execute_with_context n H hdr = enter_frame (run_loop n H hdr)"

section \<open>Transactions\<close>

definition tx_warm :: "host \<Rightarrow> header \<Rightarrow> call \<Rightarrow> unit exec" where
  "tx_warm H hdr call =
     seqM (warm_touch (c_from call))
       (seqM (if addr_is_zero (c_to call) then returnM ()
              else seqM (warm_touch (c_to call))
                (bindM (on_ext (ext_code H (c_to call))) (\<lambda>(code, codehash).
                 seqM (touch (T_GetCode (c_to call) codehash code))
                   (if is_delegation code then warm_touch (addr_of_bytes (drop 3 code))
                    else returnM ()))))
         (if addr_is_zero (h_miner hdr) then returnM () else warm_touch (h_miner hdr)))"

definition calldata_cost :: "bytes \<Rightarrow> int" where
  "calldata_cost data =
     (let nonzero = length (filter (\<lambda>b. b \<noteq> 0) data)
      in int (nonzero * 16 + (length data - nonzero) * 4))"

definition tx_prepay :: "host \<Rightarrow> call \<Rightarrow> (u256 \<times> u256) exec" where
  "tx_prepay H call =
     bindM (getsM (\<lambda>m. t_gas_price (x_tx_ctx (m_ext m)))) (\<lambda>price.
     bindM (liftM (word_mul (c_gas call) price)) (\<lambda>gas_prepayment.
     bindM (on_ext (ext_balance H (c_from call))) (\<lambda>sender_balance.
     seqM (if is_zero gas_prepayment then returnM ()
           else on_ext (set_value (c_from call) (saturating_sub sender_balance gas_prepayment)))
       (returnM (gas_prepayment, sender_balance)))))"

definition tx_intrinsic :: "host \<Rightarrow> call \<Rightarrow> int exec" where
  "tx_intrinsic H call =
     bindM (getsM (\<lambda>m. access_list_cost (x_tx_ctx (m_ext m)))) (\<lambda>alc.
     bindM (liftM (as_i64 (c_gas call))) (\<lambda>gas.
     bindM (liftM (i64_arith H (gas - 21000))) (\<lambda>gas.
     bindM (liftM (i64_arith H (gas - alc))) (\<lambda>gas.
     seqM (on_ext apply_access_list)
       (bindM (liftM (i64_arith H (gas - calldata_cost (c_data call)))) (\<lambda>gas.
        seqM (upd_evm (\<lambda>e. e\<lparr>e_gas := gas_new gas\<rparr>)) (returnM alc)))))))"

definition tx_transfer :: "host \<Rightarrow> call \<Rightarrow> unit exec" where
  "tx_transfer H call =
     bindM (on_ext (ext_balance H (c_from call))) (\<lambda>src.
     bindM (on_ext (ext_balance H (c_to call))) (\<lambda>dst.
     if is_zero (c_value call) \<or> addr_is_zero (c_to call) then returnM ()
     else
       bindM (on_ext (account_get (c_from call))) (\<lambda>acc.
       let updated = saturating_sub (a_value acc) (c_value call) in
       seqM (on_ext (set_value (c_from call) updated))
         (seqM (touch (T_SetValue (c_from call) src updated))
           (seqM (trace_push (ED_Account (AE_SetValue (c_from call) src updated)) 1 False)
             (bindM (on_ext (account_get (c_to call))) (\<lambda>acc_to.
              bindM (liftM (word_add (a_value acc_to) (c_value call))) (\<lambda>sum.
              seqM (on_ext (set_value (c_to call) sum))
                (bindM (liftM (word_add dst (c_value call))) (\<lambda>dst_new.
                 seqM (touch (T_SetValue (c_to call) dst dst_new))
                   (bindM (liftM (word_add src (c_value call))) (\<lambda>src_new.
                      trace_push (ED_Account (AE_SetValue (c_to call) src src_new)) 1 False))))))))))))"

definition tx_run :: "nat \<Rightarrow> host \<Rightarrow> header \<Rightarrow> bytecode \<Rightarrow> call \<Rightarrow> addr160 \<Rightarrow> bytes exec" where
  "tx_run fuel H hdr code call created = (\<lambda>m.
     case execute_with_context fuel H hdr code call
            (context_default\<lparr>k_created := created, k_origin := c_from call, k_depth := 1\<rparr>)
            (m\<lparr>m_ret := [], m_trace := log_fork (m_trace m)\<rparr>) of
       (r, m') \<Rightarrow> (r, m'\<lparr>m_ret := m_ret m,
         m_trace := log_join (m_trace m) (m_trace m') (e_reverted (m_evm m'))\<rparr>))"

definition tx_gas_floor :: "bytes \<Rightarrow> int" where
  "tx_gas_floor data =
     (let zero_bytes = int (length (filter (\<lambda>b. b = 0) data));
          nonzero_bytes = int (length data) - zero_bytes
      in 21000 + 10 * (zero_bytes + nonzero_bytes * 4))"

definition tx_gas_costs :: "call \<Rightarrow> int \<Rightarrow> nat \<Rightarrow> int" where
  "tx_gas_costs call alc ret_len =
     (if addr_is_zero (c_to call)
      then 21000 + calldata_cost (c_data call) + 32000 + 2 * int (div_ceil (length (c_data call)) 32)
        + 200 * int ret_len + alc
      else 21000 + calldata_cost (c_data call) + alc)"

definition tx_gas_final :: "call \<Rightarrow> int \<Rightarrow> nat \<Rightarrow> evm \<Rightarrow> int" where
  "tx_gas_final call alc ret_len e =
     max (gas_finalized (e_gas e) (tx_gas_costs call alc ret_len) (e_reverted e))
       (tx_gas_floor (c_data call))"

definition tx_effective_price :: "header \<Rightarrow> tx_context \<Rightarrow> (u256, exec_error) res" where
  "tx_effective_price hdr t =
     (if is_zero (t_gas_max_priority_fee t) then Ok (t_gas_price t)
      else res_bind (word_add (h_base_fee hdr) (t_gas_max_priority_fee t)) (\<lambda>base_plus_priority.
        Ok (min (t_gas_max_fee t) base_plus_priority)))"

definition tx_coinbase_price :: "header \<Rightarrow> tx_context \<Rightarrow> (u256, exec_error) res" where
  "tx_coinbase_price hdr t =
     (if is_zero (t_gas_max_priority_fee t) then Ok (saturating_sub (t_gas_price t) (h_base_fee hdr))
      else res_bind (tx_effective_price hdr t) (\<lambda>p. Ok (saturating_sub p (h_base_fee hdr))))"

definition tx_refund_sender :: "host \<Rightarrow> call \<Rightarrow> u256 \<Rightarrow> u256 \<Rightarrow> unit exec" where
  "tx_refund_sender H call sender_balance gas_refund =
     seqM (if is_zero gas_refund then returnM ()
           else bindM (on_ext (ext_balance H (c_from call))) (\<lambda>src.
             bindM (liftM (word_add src gas_refund)) (\<lambda>new_balance.
               on_ext (set_value (c_from call) new_balance))))
       (bindM (on_ext (ext_balance H (c_from call))) (\<lambda>balance_after.
          touch (T_FeePay (c_from call) sender_balance balance_after)))"

definition tx_pay_coinbase :: "host \<Rightarrow> header \<Rightarrow> int \<Rightarrow> unit exec" where
  "tx_pay_coinbase H hdr gas_final = (let coinbase = h_miner hdr in
     if addr_is_zero coinbase then returnM ()
     else
       bindM (getsM (\<lambda>m. x_tx_ctx (m_ext m))) (\<lambda>t.
       bindM (liftM (tx_coinbase_price hdr t)) (\<lambda>price.
       bindM (liftM (word_of_i64 gas_final)) (\<lambda>gas.
       bindM (liftM (word_mul gas price)) (\<lambda>fee.
       bindM (on_ext (ext_balance H coinbase)) (\<lambda>current.
       if is_zero fee then touch (T_FeePay coinbase current current)
       else
         bindM (liftM (word_add current fee)) (\<lambda>new.
         seqM (on_ext (set_value coinbase new))
           (seqM (trace_push (ED_Account (AE_SetValue coinbase current new)) 1 False)
             (touch (T_FeePay coinbase current new))))))))))"

definition tx_blob_fee :: "host \<Rightarrow> header \<Rightarrow> unit exec" where
  "tx_blob_fee H hdr =
     bindM (getsM (\<lambda>m. x_tx_ctx (m_ext m))) (\<lambda>t.
     if t_blob_gas_used t > 0 \<and> \<not> addr_is_zero (h_miner hdr) then
       bindM (liftM (blob_gas_price (overflow_checks H) hdr)) (\<lambda>price.
       bindM (liftM (word_mul (of_nat (t_blob_gas_used t)) (min price (t_blob_max_fee t)))) (\<lambda>_.
         returnM ()))
     else returnM ())"

text \<open>\<open>Executor::execute\<close>, from the pre-warmed addresses to the fee event.\<close>

definition execute :: "nat \<Rightarrow> host \<Rightarrow> header \<Rightarrow> bytecode \<Rightarrow> call \<Rightarrow> bytes exec" where
  "execute fuel H hdr code call =
     seqM (tx_warm H hdr call)
       (bindM (tx_prepay H call) (\<lambda>(gas_prepayment, sender_balance).
        bindM (tx_intrinsic H call) (\<lambda>alc.
        seqM (tx_transfer H call)
          (bindM (bump_nonce H (c_from call) 1) (\<lambda>nonce.
           seqM (if bc_bytecode code = [] \<and> c_data call = [] \<and> \<not> addr_is_zero (c_to call)
                 then upd_evm (\<lambda>e. e\<lparr>e_stopped := True, e_reverted := False\<rparr>) else returnM ())
             (bindM (tx_run fuel H hdr code call (addr_create (keccak256 H) (c_from call) nonce)) (\<lambda>ret.
              bindM (getsM m_evm) (\<lambda>e.
              seqM (if e_reverted e then on_ext (evm_revert e) else returnM ())
                (let gas_final = tx_gas_final call alc (length ret) e in
                 bindM (getsM (\<lambda>m. x_tx_ctx (m_ext m))) (\<lambda>t.
                 bindM (liftM (tx_effective_price hdr t)) (\<lambda>price.
                 bindM (liftM (word_of_i64 gas_final)) (\<lambda>gas.
                 bindM (liftM (word_mul gas price)) (\<lambda>gas_used_fee.
                 bindM (liftM (word_sub gas_prepayment gas_used_fee)) (\<lambda>gas_refund.
                 seqM (tx_refund_sender H call sender_balance gas_refund)
                   (seqM (tx_pay_coinbase H hdr gas_final)
                     (seqM (tx_blob_fee H hdr)
                       (seqM (trace_push (ED_Fee gas (t_gas_price t) gas_used_fee) 1 False)
                         (returnM ret))))))))))))))))))"

end
