(* ===== verification/Solenoid.thy ===== *)
theory Solenoid
  imports Executor
begin

text \<open>
  \<open>src/solenoid.rs\<close>: the builders of creations, executions and transfers, and
  \<open>Runner::apply\<close>, which runs what a builder made ready. A call goes through
  \<open>Executor::execute\<close>; a creation runs its frame directly and settles gas, fees, nonce and
  code itself.
\<close>

section \<open>Builders\<close>

definition header_default :: header where
  "header_default = \<lparr>h_number = 0, h_hash = 0, h_size = 0, h_timestamp = 0, h_base_fee = 0,
     h_state_root = 0, h_mix_hash = 0, h_parent_hash = 0, h_gas_limit = 0, h_gas_used = 0,
     h_blob_gas_used = 0, h_excess_blob_gas = 0, h_extra_data = 0, h_miner = addr_zero\<rparr>"

record create_builder =
  cb_header :: header
  cb_from :: addr160
  cb_value :: u256
  cb_gas :: u256
  cb_code :: bytes

record execute_builder =
  eb_header :: header
  eb_from :: addr160
  eb_to :: addr160
  eb_value :: u256
  eb_gas :: u256
  eb_data :: bytes

record transfer_builder =
  tb_header :: header
  tb_from :: addr160
  tb_to :: addr160
  tb_value :: u256
  tb_gas :: u256

record runner =
  r_header :: header
  r_call :: call
  r_code :: bytes

definition solenoid_create :: "bytes \<Rightarrow> create_builder" where
  "solenoid_create code = \<lparr>cb_header = header_default, cb_from = addr_zero, cb_value = 0, cb_gas = 0,
     cb_code = code\<rparr>"

text \<open>The selector of the method, when one is named, followed by the arguments.\<close>

definition solenoid_execute :: "host \<Rightarrow> addr160 \<Rightarrow> string \<Rightarrow> bytes \<Rightarrow> execute_builder" where
  "solenoid_execute H to_addr method args =
     (let data = (if method \<noteq> [] then take 4 (keccak256 H (str_bytes method)) else []) @ args
      in \<lparr>eb_header = header_default, eb_from = addr_zero, eb_to = to_addr, eb_value = 0, eb_gas = 0,
           eb_data = data\<rparr>)"

definition solenoid_transfer :: "addr160 \<Rightarrow> u256 \<Rightarrow> transfer_builder" where
  "solenoid_transfer to_addr val = \<lparr>tb_header = header_default, tb_from = addr_zero, tb_to = to_addr,
     tb_value = val, tb_gas = 0\<rparr>"

definition create_with_header :: "header \<Rightarrow> create_builder \<Rightarrow> create_builder" where
  "create_with_header h b = b\<lparr>cb_header := h\<rparr>"

definition create_with_sender :: "addr160 \<Rightarrow> create_builder \<Rightarrow> create_builder" where
  "create_with_sender a b = b\<lparr>cb_from := a\<rparr>"

definition create_with_value :: "u256 \<Rightarrow> create_builder \<Rightarrow> create_builder" where
  "create_with_value v b = b\<lparr>cb_value := v\<rparr>"

definition create_with_gas :: "u256 \<Rightarrow> create_builder \<Rightarrow> create_builder" where
  "create_with_gas g b = b\<lparr>cb_gas := g\<rparr>"

definition create_ready :: "create_builder \<Rightarrow> runner" where
  "create_ready b = \<lparr>r_header = cb_header b,
     r_call = \<lparr>c_data = [], c_value = cb_value b, c_from = cb_from b, c_to = addr_zero, c_gas = cb_gas b\<rparr>,
     r_code = cb_code b\<rparr>"

definition execute_with_header :: "header \<Rightarrow> execute_builder \<Rightarrow> execute_builder" where
  "execute_with_header h b = b\<lparr>eb_header := h\<rparr>"

definition execute_with_sender :: "addr160 \<Rightarrow> execute_builder \<Rightarrow> execute_builder" where
  "execute_with_sender a b = b\<lparr>eb_from := a\<rparr>"

definition execute_with_value :: "u256 \<Rightarrow> execute_builder \<Rightarrow> execute_builder" where
  "execute_with_value v b = b\<lparr>eb_value := v\<rparr>"

definition execute_with_gas :: "u256 \<Rightarrow> execute_builder \<Rightarrow> execute_builder" where
  "execute_with_gas g b = b\<lparr>eb_gas := g\<rparr>"

definition execute_ready :: "execute_builder \<Rightarrow> runner" where
  "execute_ready b = \<lparr>r_header = eb_header b,
     r_call = \<lparr>c_data = eb_data b, c_value = eb_value b, c_from = eb_from b, c_to = eb_to b, c_gas = eb_gas b\<rparr>,
     r_code = []\<rparr>"

definition transfer_with_header :: "header \<Rightarrow> transfer_builder \<Rightarrow> transfer_builder" where
  "transfer_with_header h b = b\<lparr>tb_header := h\<rparr>"

definition transfer_with_sender :: "addr160 \<Rightarrow> transfer_builder \<Rightarrow> transfer_builder" where
  "transfer_with_sender a b = b\<lparr>tb_from := a\<rparr>"

definition transfer_with_value :: "u256 \<Rightarrow> transfer_builder \<Rightarrow> transfer_builder" where
  "transfer_with_value v b = b\<lparr>tb_value := v\<rparr>"

definition transfer_with_gas :: "u256 \<Rightarrow> transfer_builder \<Rightarrow> transfer_builder" where
  "transfer_with_gas g b = b\<lparr>tb_gas := g\<rparr>"

definition transfer_ready :: "transfer_builder \<Rightarrow> runner" where
  "transfer_ready b = \<lparr>r_header = tb_header b,
     r_call = \<lparr>c_data = [], c_value = tb_value b, c_from = tb_from b, c_to = tb_to b, c_gas = tb_gas b\<rparr>,
     r_code = []\<rparr>"

text \<open>
  The trait \<open>Builder\<close>: each setter decides one field of the runner and leaves the others
  alone.
\<close>

locale run_builder =
  fixes with_header :: "header \<Rightarrow> 'b \<Rightarrow> 'b"
    and with_sender :: "addr160 \<Rightarrow> 'b \<Rightarrow> 'b"
    and with_value :: "u256 \<Rightarrow> 'b \<Rightarrow> 'b"
    and with_gas :: "u256 \<Rightarrow> 'b \<Rightarrow> 'b"
    and ready_runner :: "'b \<Rightarrow> runner"
  assumes ready_header: "ready_runner (with_header h b) = (ready_runner b)\<lparr>r_header := h\<rparr>"
    and ready_sender: "ready_runner (with_sender a b) =
      (ready_runner b)\<lparr>r_call := (r_call (ready_runner b))\<lparr>c_from := a\<rparr>\<rparr>"
    and ready_value: "ready_runner (with_value v b) =
      (ready_runner b)\<lparr>r_call := (r_call (ready_runner b))\<lparr>c_value := v\<rparr>\<rparr>"
    and ready_gas: "ready_runner (with_gas g b) =
      (ready_runner b)\<lparr>r_call := (r_call (ready_runner b))\<lparr>c_gas := g\<rparr>\<rparr>"
begin

lemma configured:
  "ready_runner (with_gas g (with_value v (with_sender a (with_header h b)))) =
     \<lparr>r_header = h,
      r_call = (r_call (ready_runner b))\<lparr>c_from := a, c_value := v, c_gas := g\<rparr>,
      r_code = r_code (ready_runner b)\<rparr>"
  by (simp add: ready_header ready_sender ready_value ready_gas)

lemma setters_commute:
  "ready_runner (with_sender a (with_header h b)) = ready_runner (with_header h (with_sender a b))"
  "ready_runner (with_gas g (with_value v b)) = ready_runner (with_value v (with_gas g b))"
  "ready_runner (with_value v (with_sender a b)) = ready_runner (with_sender a (with_value v b))"
  by (simp_all add: ready_header ready_sender ready_value ready_gas)

end

interpretation creating: run_builder create_with_header create_with_sender create_with_value
    create_with_gas create_ready
  by unfold_locales (simp_all add: create_ready_def create_with_header_def create_with_sender_def
      create_with_value_def create_with_gas_def)

interpretation executing: run_builder execute_with_header execute_with_sender execute_with_value
    execute_with_gas execute_ready
  by unfold_locales (simp_all add: execute_ready_def execute_with_header_def execute_with_sender_def
      execute_with_value_def execute_with_gas_def)

interpretation transferring: run_builder transfer_with_header transfer_with_sender transfer_with_value
    transfer_with_gas transfer_ready
  by unfold_locales (simp_all add: transfer_ready_def transfer_with_header_def transfer_with_sender_def
      transfer_with_value_def transfer_with_gas_def)

section \<open>Running what is ready\<close>

record gas_result =
  gr_gas_max :: int
  gr_gas_use :: int
  gr_gas_fee :: u256

record call_result =
  cr_evm :: evm
  cr_ret :: bytes
  cr_tracer :: trace
  cr_gas :: gas_result

text \<open>The code to run: the runner's own for a creation, the callee's otherwise, with EIP-7702 delegation.\<close>

definition runner_code :: "host \<Rightarrow> runner \<Rightarrow> bytes exec" where
  "runner_code H R = (let to_addr = c_to (r_call R) in
     bindM (if addr_is_zero to_addr then returnM (r_code R)
            else bindM (on_ext (ext_code H to_addr)) (\<lambda>(code, codehash).
              seqM (touch (T_GetCode to_addr codehash code)) (returnM code))) (\<lambda>code.
     if is_delegation code then
       (let target = addr_of_bytes (drop 3 code) in
        bindM (on_ext (ext_code H target)) (\<lambda>(code, codehash).
        seqM (touch (T_GetCode target codehash code)) (returnM code)))
     else returnM code))"

definition upfront_gas :: "call \<Rightarrow> int" where
  "upfront_gas call =
     (let data_cost = calldata_cost (c_data call) in
      if addr_is_zero (c_to call)
      then data_cost + 32000 + 21000 + 2 * int (div_ceil (length (c_data call)) 32)
      else 21000 + data_cost)"

definition runner_gas :: "host \<Rightarrow> call \<Rightarrow> int exec" where
  "runner_gas H call =
     bindM (getsM (\<lambda>m. access_list_cost (x_tx_ctx (m_ext m)))) (\<lambda>alc.
     let upfront = upfront_gas call + alc in
     seqM (on_ext apply_access_list)
       (bindM (liftM (as_i64 (c_gas call))) (\<lambda>gas.
        bindM (liftM (i64_arith H (gas - upfront))) (\<lambda>gas.
        seqM (upd_evm (\<lambda>e. e\<lparr>e_gas := gas_new gas\<rparr>)) (returnM upfront)))))"

text \<open>The address a creation would get, registered for calls too.\<close>

definition runner_created :: "host \<Rightarrow> call \<Rightarrow> addr160 exec" where
  "runner_created H call =
     seqM (bindM (on_ext (ext_pull H (c_from call))) (\<lambda>_. returnM ()))
       (bindM (on_ext (account_get (c_from call))) (\<lambda>acc.
        let created = addr_create (keccak256 H) (c_from call) (a_nonce acc) in
        seqM (register_created created) (returnM created)))"

definition runner_endow :: "host \<Rightarrow> call \<Rightarrow> addr160 \<Rightarrow> unit exec" where
  "runner_endow H call created =
     (if addr_is_zero (c_to call) \<and> \<not> is_zero (c_value call) then
        bindM (on_ext (ext_balance H (c_from call))) (\<lambda>sender_balance.
        bindM (on_ext (ext_balance H created)) (\<lambda>created_balance.
        if sender_balance \<ge> c_value call then
          bindM (liftM (word_sub sender_balance (c_value call))) (\<lambda>new_sender.
          bindM (liftM (word_add created_balance (c_value call))) (\<lambda>new_created.
          seqM (on_ext (set_value (c_from call) new_sender))
            (seqM (on_ext (set_value created new_created))
              (seqM (touch (T_SetValue (c_from call) sender_balance new_sender))
                (touch (T_SetValue created created_balance new_created))))))
        else returnM ()))
      else returnM ())"

text \<open>\<open>account_mut(&from).nonce += 1\<close>; a creation also records it.\<close>

definition nonce_plus_one :: "addr160 \<Rightarrow> u256 exec" where
  "nonce_plus_one a =
     bindM (on_ext (account_get a)) (\<lambda>acc.
     bindM (liftM (word_add (a_nonce acc) 1)) (\<lambda>n.
     seqM (on_ext (set_nonce a n)) (returnM (a_nonce acc))))"

definition nonce_recorded :: "host \<Rightarrow> addr160 \<Rightarrow> unit exec" where
  "nonce_recorded H a =
     bindM (nonce_plus_one a) (\<lambda>nonce.
     bindM (liftM (as_u64 nonce)) (\<lambda>val.
     bindM (liftM (u64_succ H val)) (\<lambda>new.
       touch (T_SetNonce a val new))))"

definition gas_report :: "call \<Rightarrow> int \<Rightarrow> gas_result exec" where
  "gas_report call gas_final =
     bindM (liftM (as_i64 (c_gas call))) (\<lambda>gas_max.
     bindM (liftM (word_of_i64 gas_final)) (\<lambda>gas.
     bindM (getsM (\<lambda>m. t_gas_price (x_tx_ctx (m_ext m)))) (\<lambda>price.
     bindM (liftM (word_mul gas price)) (\<lambda>fee.
       returnM \<lparr>gr_gas_max = gas_max, gr_gas_use = gas_final, gr_gas_fee = fee\<rparr>))))"

definition runner_call :: "nat \<Rightarrow> host \<Rightarrow> runner \<Rightarrow> bytecode \<Rightarrow> int \<Rightarrow> (bytes \<times> gas_result) exec" where
  "runner_call fuel H R code upfront =
     bindM (execute fuel H (r_header R) code (r_call R)) (\<lambda>ret.
     bindM (getsM m_evm) (\<lambda>e.
     seqM (if e_reverted e then bindM (nonce_plus_one (c_from (r_call R))) (\<lambda>_. returnM ()) else returnM ())
       (bindM (gas_report (r_call R) (gas_finalized (e_gas e) upfront (e_reverted e))) (\<lambda>report.
          returnM (ret, report)))))"

text \<open>
  After the frame of a creation: without gas for the deposit the creation fails and its gas
  is gone.
\<close>

definition code_deposit :: "call \<Rightarrow> int \<Rightarrow> bytes \<Rightarrow> (bytes \<times> int) exec" where
  "code_deposit call upfront ret =
     (let deployed_code_cost = 200 * int (length ret) in
      bindM (getsM m_evm) (\<lambda>e.
      if \<not> e_reverted e \<and> gas_remaining (e_gas e) < deployed_code_cost then
        seqM (upd_evm (\<lambda>e. e\<lparr>e_reverted := True\<rparr>))
          (bindM (liftM (as_i64 (c_gas call))) (\<lambda>gas_limit.
           seqM (catchM (evm_gas gas_limit) returnM (\<lambda>_. returnM ()))
             (returnM ([], gas_limit))))
      else returnM (ret, gas_finalized (e_gas e) (upfront + deployed_code_cost) (e_reverted e))))"

definition runner_coinbase :: "host \<Rightarrow> header \<Rightarrow> int \<Rightarrow> unit exec" where
  "runner_coinbase H hdr gas_final = (let coinbase = h_miner hdr in
     if addr_is_zero coinbase then returnM ()
     else
       bindM (getsM (\<lambda>m. x_tx_ctx (m_ext m))) (\<lambda>t.
       bindM (liftM (tx_coinbase_price hdr t)) (\<lambda>price.
       bindM (liftM (word_of_i64 gas_final)) (\<lambda>gas.
       bindM (liftM (word_mul gas price)) (\<lambda>fee.
       if is_zero fee then returnM ()
       else
         bindM (on_ext (ext_pull H coinbase)) (\<lambda>_.
         bindM (on_ext (account_get coinbase)) (\<lambda>acc.
         bindM (liftM (word_add (a_value acc) fee)) (\<lambda>new.
         seqM (on_ext (set_value coinbase new))
           (touch (T_FeePay coinbase (a_value acc) new))))))))))"

definition install_code :: "host \<Rightarrow> addr160 \<Rightarrow> addr160 \<Rightarrow> bytes \<Rightarrow> unit exec" where
  "install_code H sender created ret =
     bindM (on_ext (ext_pull H created)) (\<lambda>_.
     bindM (on_ext (ext_pull H sender)) (\<lambda>_.
     seqM (nonce_recorded H sender)
       (let hash = from_bytes (keccak256 H ret) in
        seqM (on_ext (set_code created (ret, hash)))
          (seqM (on_ext (set_nonce created 1))
            (touch (T_Create created 0 1 ret hash))))))"

definition charge_sender :: "host \<Rightarrow> addr160 \<Rightarrow> int \<Rightarrow> unit exec" where
  "charge_sender H sender gas_final =
     bindM (liftM (word_of_i64 gas_final)) (\<lambda>gas.
     bindM (getsM (\<lambda>m. t_gas_price (x_tx_ctx (m_ext m)))) (\<lambda>price.
     bindM (liftM (word_mul gas price)) (\<lambda>gas_fee.
     bindM (on_ext (ext_balance H sender)) (\<lambda>sender_balance.
     let new_sender_balance = saturating_sub sender_balance gas_fee in
     seqM (on_ext (set_value sender new_sender_balance))
       (touch (T_FeePay sender sender_balance new_sender_balance))))))"

definition runner_create ::
    "nat \<Rightarrow> host \<Rightarrow> runner \<Rightarrow> bytecode \<Rightarrow> addr160 \<Rightarrow> int \<Rightarrow> (bytes \<times> gas_result) exec" where
  "runner_create fuel H R code created upfront = (let call = r_call R in
     bindM (execute_with_context fuel H (r_header R) code call
              (context_default\<lparr>k_created := created, k_call_type := CT_Create, k_depth := 1\<rparr>)) (\<lambda>ret.
     bindM (code_deposit call upfront ret) (\<lambda>(ret, gas_final).
     seqM (runner_coinbase H (r_header R) gas_final)
       (bindM (getsM m_evm) (\<lambda>e.
        seqM (if e_reverted e then seqM (on_ext (evm_revert e)) (nonce_recorded H (c_from call))
              else install_code H (c_from call) created ret)
          (seqM (charge_sender H (c_from call) gas_final)
            (bindM (gas_report call gas_final) (\<lambda>report. returnM (ret, report)))))))))"

definition runner_body :: "nat \<Rightarrow> host \<Rightarrow> runner \<Rightarrow> (bytes \<times> gas_result) exec" where
  "runner_body fuel H R =
     seqM (if addr_is_zero (h_miner (r_header R)) then returnM ()
           else bindM (on_ext (warm_address (h_miner (r_header R)))) (\<lambda>_. returnM ()))
       (bindM (runner_code H R) (\<lambda>code.
        bindM (runner_gas H (r_call R)) (\<lambda>upfront.
        bindM (runner_created H (r_call R)) (\<lambda>created.
        seqM (runner_endow H (r_call R) created)
          (if addr_is_zero (c_to (r_call R))
           then runner_create fuel H R (decode_bytecode code) created upfront
           else runner_call fuel H R (decode_bytecode code) upfront)))))"

text \<open>\<open>Runner::apply\<close> on a world state, with a new \<open>Evm\<close> and an empty tracer.\<close>

definition runner_apply :: "nat \<Rightarrow> host \<Rightarrow> runner \<Rightarrow> call_result ext_m" where
  "runner_apply fuel H R = (\<lambda>x.
     case runner_body fuel H R \<lparr>m_evm = evm_default, m_ext = x, m_ret = [], m_trace = []\<rparr> of
       (Ok (ret, report), m) \<Rightarrow>
         (Ok \<lparr>cr_evm = m_evm m, cr_ret = ret, cr_tracer = m_trace m, cr_gas = report\<rparr>, m_ext m)
     | (Err e, m) \<Rightarrow> (Err e, m_ext m)
     | (Panic, m) \<Rightarrow> (Panic, m_ext m)
     | (OutOfFuel, m) \<Rightarrow> (OutOfFuel, m_ext m))"

end
