(* ===== verification/CallLaws.thy ===== *)
theory CallLaws
  imports Calls
begin

text \<open>
  Gas accounting of message calls and creations. The locale \<open>sub_executor\<close> states what
  \<open>call\<close> and \<open>create\<close> rely on when they start a nested frame: it never uses more gas than
  it was given nor less than nothing, it reports failure through \<open>reverted\<close> and not through
  an error, and enough fuel is enough. Inside the locale both methods are shown to charge a
  positive amount and never more than the frame has left.

  \<open>valid\<close> is a Hoare triple for the frame's computations; \<open>meter u l k\<close> is the state
  assertion "used \<open>u\<close> of the limit \<open>l\<close>, at most \<open>k\<close> words on the stack, memory paid for".
\<close>

section \<open>Triples\<close>

definition valid ::
    "bool \<Rightarrow> int \<Rightarrow> (machine \<Rightarrow> bool) \<Rightarrow> 'a exec \<Rightarrow> ('a \<Rightarrow> machine \<Rightarrow> bool) \<Rightarrow> bool" where
  "valid b l P c Q \<longleftrightarrow> (\<forall>m r m'. P m \<longrightarrow> c m = (r, m') \<longrightarrow>
     g_limit (m_gas m') = l \<and> (b \<longrightarrow> r \<noteq> OutOfFuel) \<and> (\<forall>a. r = Ok a \<longrightarrow> Q a m'))"

definition meter :: "int \<Rightarrow> int \<Rightarrow> int \<Rightarrow> machine \<Rightarrow> bool" where
  "meter u l k m \<longleftrightarrow> g_used (m_gas m) = u \<and> g_limit (m_gas m) = l \<and> paid m \<and>
     int (length (m_stack m)) \<le> k"

definition unpaid :: "int \<Rightarrow> int \<Rightarrow> int \<Rightarrow> machine \<Rightarrow> bool" where
  "unpaid u l k m \<longleftrightarrow> g_used (m_gas m) = u \<and> g_limit (m_gas m) = l \<and> slack m \<and>
     int (length (m_stack m)) \<le> k"

lemma validI:
  assumes "\<And>m r m'. P m \<Longrightarrow> c m = (r, m') \<Longrightarrow> g_limit (m_gas m') = l"
    and "\<And>m r m'. P m \<Longrightarrow> c m = (r, m') \<Longrightarrow> b \<Longrightarrow> r \<noteq> OutOfFuel"
    and "\<And>m a m'. P m \<Longrightarrow> c m = (Ok a, m') \<Longrightarrow> Q a m'"
  shows "valid b l P c Q"
  using assms unfolding valid_def by blast

lemma valid_bind:
  assumes "valid b l P c Q" and "\<And>a. valid b l (Q a) (f a) R"
  shows "valid b l P (bindM c f) R"
  unfolding valid_def
proof (intro allI impI)
  fix m r m' assume P: "P m" and b: "bindM c f m = (r, m')"
  from b show "g_limit (m_gas m') = l \<and> (b \<longrightarrow> r \<noteq> OutOfFuel) \<and> (\<forall>a. r = Ok a \<longrightarrow> R a m')"
  proof (cases rule: bindM_outcome)
    case (ok a m1)
    then have "Q a m1" using assms(1) P by (auto simp: valid_def)
    then show ?thesis using assms(2) ok(2) by (auto simp: valid_def)
  qed (use assms(1) P in \<open>auto simp: valid_def\<close>)
qed

lemma valid_seq:
  "valid b l P c (\<lambda>_. Q) \<Longrightarrow> valid b l Q k R \<Longrightarrow> valid b l P (seqM c k) R"
  unfolding seqM_def by (rule valid_bind)

lemma valid_conseq:
  "valid b l P c Q \<Longrightarrow> (\<And>m. P' m \<Longrightarrow> P m) \<Longrightarrow> (\<And>a m. Q a m \<Longrightarrow> Q' a m) \<Longrightarrow> valid b l P' c Q'"
  unfolding valid_def by blast

lemma valid_pre_const: "(A \<Longrightarrow> valid b l P c Q) \<Longrightarrow> valid b l (\<lambda>m. A \<and> P m) c Q"
  unfolding valid_def by blast

lemma valid_if:
  "(A \<Longrightarrow> valid b l P c Q) \<Longrightarrow> (\<not> A \<Longrightarrow> valid b l P k Q) \<Longrightarrow> valid b l P (if A then c else k) Q"
  by simp

lemma valid_return: "(\<And>m. P m \<Longrightarrow> g_limit (m_gas m) = l \<and> Q a m) \<Longrightarrow> valid b l P (returnM a) Q"
  by (simp add: valid_def returnM_def)

lemma valid_panic: "(\<And>m. P m \<Longrightarrow> g_limit (m_gas m) = l) \<Longrightarrow> valid b l P panicM Q"
  by (simp add: valid_def panicM_def)

lemma meter_limit: "meter u l k m \<Longrightarrow> g_limit (m_gas m) = l"
  by (simp add: meter_def)

lemma valid_quiet:
  assumes "quiet False d c" and "k' = k + d"
  shows "valid b l (meter u l k) c (\<lambda>_. meter u l k')"
proof (rule validI)
  fix m r m' assume m: "meter u l k m" and c: "c m = (r, m')"
  show "g_limit (m_gas m') = l" using quiet_limit [OF assms(1) c] m by (simp add: meter_def)
  show "r \<noteq> OutOfFuel" using quiet_fuel [OF assms(1) c] .
next
  fix m a m' assume m: "meter u l k m" and c: "c m = (Ok a, m')"
  note q = quiet_Ok [OF assms(1) c] and lim = quiet_limit [OF assms(1) c]
  from q lim quiet_step_paid [OF q] m assms(2) show "meter u l k' m'"
    by (auto simp: meter_def quiet_step_def)
qed

text \<open>A quiet computation with a fact about its result.\<close>

lemma valid_quiet_res:
  assumes "quiet False d c" and "k' = k + d" and "\<And>m a m'. c m = (Ok a, m') \<Longrightarrow> R a"
  shows "valid b l (meter u l k) c (\<lambda>a m. R a \<and> meter u l k' m)"
  using valid_quiet [OF assms(1,2), of b l u] assms(3) unfolding valid_def by blast

lemma valid_grow:
  assumes "quiet True d c" and "k' = k + d"
  shows "valid b l (meter u l k) c (\<lambda>_. unpaid u l k')"
proof (rule validI)
  fix m r m' assume m: "meter u l k m" and c: "c m = (r, m')"
  show "g_limit (m_gas m') = l" using quiet_limit [OF assms(1) c] m by (simp add: meter_def)
  show "r \<noteq> OutOfFuel" using quiet_fuel [OF assms(1) c] .
next
  fix m a m' assume m: "meter u l k m" and c: "c m = (Ok a, m')"
  note q = quiet_Ok [OF assms(1) c] and lim = quiet_limit [OF assms(1) c]
  from q lim quiet_step_slack [OF q] m assms(2) show "unpaid u l k' m'"
    by (auto simp: meter_def unpaid_def paid_def quiet_step_def)
qed

lemma valid_expansion:
  "valid b l (unpaid u l k) memory_expansion_cost (\<lambda>x m. 0 \<le> x \<and> meter u l k m)"
  by (rule validI) (auto simp: unpaid_def meter_def memory_expansion_cost_eq slack_def paid_def)

lemma valid_remaining:
  "valid b l (meter u l k) (getsM m_remaining) (\<lambda>r m. r = l - u \<and> meter u l k m)"
  by (rule validI) (auto simp: meter_def getsM_def gas_remaining_def)

lemma valid_charge: "valid b l (meter u l k) (charge_used n) (\<lambda>_. meter (u + n) l k)"
  by (rule validI)
    (auto simp: charge_used_def upd_evm_def modifyM_def meter_def paid_def slack_def)

lemma gas_sub_Ok: "gas_sub n g = (Ok a, g') \<longleftrightarrow> n \<le> gas_remaining g \<and> g' = g\<lparr>g_used := g_used g + n\<rparr>"
  by (auto simp: gas_sub_def)

lemma evm_gas_eq: "evm_gas n m =
    (if n \<le> m_remaining m
     then (Ok (), m\<lparr>m_evm := (m_evm m)\<lparr>e_gas := (m_gas m)\<lparr>g_used := g_used (m_gas m) + n\<rparr>\<rparr>\<rparr>)
     else (Err OutOfGas, m\<lparr>m_evm := error_evm ((m_evm m)\<lparr>e_gas := (m_gas m)\<lparr>g_used := g_limit (m_gas m)\<rparr>\<rparr>)\<rparr>))"
  by (simp add: evm_gas_def gas_sub_def evm_error_eq gas_remaining_def)

lemma valid_gas: "valid b l (meter u l k) (evm_gas n) (\<lambda>_. meter (u + n) l k)"
  by (rule validI) (auto simp: evm_gas_eq meter_def paid_def slack_def split: if_splits)

section \<open>The parts of call and create\<close>

lemma quiet_extend [quiet_intros]: "quiet g 0 (extend_touches ts)"
  unfolding extend_touches_def by (rule quiet_upd) simp_all

lemma quiet_join [quiet_intros]: "quiet g 0 (trace_join tr b)"
  unfolding trace_join_def by (rule quiet_modify) simp

lemma quiet_refund_note [quiet_intros]:
  "quiet g 0 (upd_evm (\<lambda>e. e\<lparr>e_refund := g_refund (e_gas e)\<rparr>))"
  "quiet g 0 (upd_evm (\<lambda>e. let h = gas_add_refund n (e_gas e) in e\<lparr>e_gas := h, e_refund := g_refund h\<rparr>))"
  by (rule quiet_upd; simp add: gas_add_refund_def Let_def)+

lemma seqM_fuel:
  assumes "seqM c k x = (r, x')" "\<And>r x'. c x = (r, x') \<Longrightarrow> r \<noteq> OutOfFuel"
    "\<And>x r x'. k x = (r, x') \<Longrightarrow> r \<noteq> OutOfFuel"
  shows "r \<noteq> OutOfFuel"
  using assms(1) unfolding seqM_def by (cases rule: bindM_outcome) (use assms(2,3) in auto)

lemma revert_touch_fuel: "revert_touch t x = (r, x') \<Longrightarrow> r \<noteq> OutOfFuel"
  by (cases t)
    (auto simp: monad_defs set_nonce_def set_value_def set_code_def account_upd_def
      split: option.splits if_splits)

lemma revert_all_fuel: "revert_all ts x = (r, x') \<Longrightarrow> r \<noteq> OutOfFuel"
proof (induction ts arbitrary: x r x')
  case Nil
  then show ?case by (auto simp: returnM_def)
next
  case (Cons t ts)
  from Cons.prems show ?case unfolding revert_all.simps
    by (rule seqM_fuel) (use Cons.IH revert_touch_fuel in blast)+
qed

lemma quiet_revert [quiet_intros]: "quiet g 0 (on_ext (evm_revert e))"
  unfolding evm_revert_def by (rule quiet_on_ext) (erule revert_all_fuel)

lemma quiet_trace_call [quiet_intros]: "quiet g 0 (trace_call F t)"
  unfolding trace_call_def by (rule quiet_intros)

lemma quiet_warm_touch [quiet_intros]: "quiet g 0 (warm_touch a)"
  unfolding warm_touch_def by (rule quiet_intros refl | simp)+

lemma quiet_call_args:
  "quiet g (if k_call_type (f_ctx F) \<notin> {CT_Static, CT_Delegate} then - 7 else - 6) (pop_call_args F)"
proof (cases "k_call_type (f_ctx F) \<notin> {CT_Static, CT_Delegate}")
  case True
  show ?thesis unfolding pop_call_args_def if_P [OF True] by (rule quiet_intros refl | simp)+
next
  case False
  show ?thesis unfolding pop_call_args_def if_not_P [OF False] by (rule quiet_intros refl | simp)+
qed

lemma div_ceil_32: "div_ceil n 32 * 32 = padded n"
proof -
  define q r where "q = n div 32" and "r = n mod 32"
  then have n: "n = 32 * q + r" and r: "r < 32" and mod: "n mod 32 = r" by simp_all
  show ?thesis
  proof (cases "r = 0")
    case True
    then show ?thesis unfolding padded_def mod by (simp add: n div_ceil_def)
  next
    case False
    have "n + 31 = 32 * (q + 1) + (r - 1)" using n False by simp
    moreover have "r - 1 < 32" using r by simp
    ultimately have "(n + 31) div 32 = q + 1"
      by (simp only: div_mult_self4 div_less)
    then have "div_ceil n 32 = q + 1" by (simp add: div_ceil_def)
    then show ?thesis unfolding padded_def mod using n r False by simp
  qed
qed

lemma quiet_call_expand: "quiet True 0 (call_expand H a)"
proof -
  have "quiet True 0 (\<lambda>m. if sz > length (m_memory m) then
           (if sz > allocation_sanity_limit then throwM (InvalidAllocation sz) m
            else resize_memory (div_ceil sz 32 * 32) m)
         else (Ok (), m))" for sz
    using quiet_expand [of sz] unfolding expand_memory_def div_ceil_32 .
  then show ?thesis unfolding call_expand_def Let_def
    by - (rule quiet_intros refl | assumption | simp)+
qed

lemma quiet_call_access: "quiet g 0 (call_access F a)"
  unfolding call_access_def Let_def
  by (rule quiet_intros refl | simp only: add_0_left add_0_right | simp)+

lemma quiet_call_oog: "quiet g d (call_oog F a)"
  unfolding call_oog_def by (rule quiet_throw [of _ "d - 1"] quiet_intros refl | simp)+

lemma quiet_call_precompile: "quiet g 1 (call_precompile F a t data)"
proof -
  have "quiet g 0 (case r of Ok ret \<Rightarrow> seqM (set_ret ret) (returnM 1)
            | Err _ \<Rightarrow> returnM 0 | Panic \<Rightarrow> panicM | OutOfFuel \<Rightarrow> panicM)"
    for r :: "(bytes, exec_error) res"
    by (cases r) (auto intro!: quiet_seq [OF quiet_set_ret quiet_return] quiet_return quiet_panic)
  then show ?thesis unfolding call_precompile_def
    by - (rule quiet_intros refl | assumption | simp)+
qed

lemma quiet_move_value [quiet_intros]: "quiet g 0 (move_value F s d x y v)"
  unfolding move_value_def by (rule quiet_intros refl | simp)+

lemma quiet_call_transfer: "quiet g 0 (call_transfer F a)"
  unfolding call_transfer_def by (rule quiet_intros refl | simp)+

lemma quiet_settle_call: "quiet g 1 (settle_call inner ret)"
  unfolding settle_call_def by (rule quiet_intros refl | simp)+

lemma quiet_copy_return: "quiet g 0 (copy_return H a ret)"
  unfolding copy_return_def by (rule quiet_intros refl | simp)+

lemma quiet_bump_nonce: "quiet g 0 (bump_nonce H a n)"
  unfolding bump_nonce_def by (rule quiet_intros refl | simp add: u64_succ_def)+

lemma quiet_register: "quiet g 0 (register_created a)"
  unfolding register_created_def by (rule quiet_intros refl | simp)+

lemma quiet_create_failed: "quiet g 1 (create_failed inner)"
  unfolding create_failed_def by (rule quiet_intros refl | simp)+

lemma quiet_deploy: "quiet g 1 (deploy F created val inner code)"
  unfolding deploy_def deploy_account_def by (rule quiet_intros refl | simp)+

lemma call_access_cost_ge:
  assumes "call_access F a m = (Ok t, m')"
  shows "100 \<le> ct_access_cost t" and "0 \<le> ct_create_cost t"
  using assms unfolding call_access_def Let_def seqM_def
  by (auto simp: bindM_Ok_iff returnM_def split: prod.splits if_splits
      dest!: address_access_cost_ge)

section \<open>Prices of precompiled contracts\<close>

lemma bit_len_le: "bit_len bs \<le> 8 * length bs"
  by (induction bs) (auto simp: byte_bits_def)

lemma div_ceil_le: "a \<le> b * c \<Longrightarrow> 0 < b \<Longrightarrow> div_ceil a b \<le> c"
proof -
  assume "a \<le> b * c" "0 < b"
  then have "(a + b - 1) div b \<le> (b * c + (b - 1)) div b" by (intro div_le_mono) simp
  also have "\<dots> = c" using \<open>0 < b\<close> by (simp only: div_mult_self4 div_less)
  finally show ?thesis by (simp add: div_ceil_def)
qed

text \<open>An oversized input is priced \<open>u64::MAX\<close>; every other price is small.\<close>

lemma iteration_count_le:
  assumes "exp_len \<le> 1024"
  shows "iteration_count base_len exp_len input \<le> 16384"
proof -
  have "length (sub_list a (a + k) input) \<le> k" for a k by (simp add: sub_list_def)
  then have bits: "bit_len (sub_list a (a + k) input) \<le> 8 * k" for a k
    using bit_len_le [of "sub_list a (a + k) input"] le_trans mult_le_mono2 by blast
  show ?thesis
    using assms bits [of "96 + base_len" exp_len] bits [of "96 + base_len" 32]
    by (auto simp: iteration_count_def Let_def)
qed

lemma modexp_gas_cost_bounds:
  "500 \<le> modexp_gas_cost input"
  "modexp_gas_cost input = 2 ^ 64 - 1 \<or> modexp_gas_cost input < 2 ^ 32"
proof -
  have bound: "max (div_ceil (max a b) 8 * div_ceil (max a b) 8 * max i 1) 500 < (2 :: nat) ^ 32"
    if "a \<le> 1024" "b \<le> 1024" "i \<le> 16384" for a b i
  proof -
    have "div_ceil (max a b) 8 \<le> 128" using that by (intro div_ceil_le) auto
    then have "div_ceil (max a b) 8 * div_ceil (max a b) 8 * max i 1 \<le> 128 * 128 * 16384"
      using that(3) by (intro mult_le_mono) auto
    then show ?thesis by simp
  qed
  show "500 \<le> modexp_gas_cost input" by (simp add: modexp_gas_cost_def Let_def)
  show "modexp_gas_cost input = 2 ^ 64 - 1 \<or> modexp_gas_cost input < 2 ^ 32"
    unfolding modexp_gas_cost_def Let_def
    using bound [OF _ _ iteration_count_le] by (simp del: max_less_iff_conj)
qed

lemma i64_of_u64_ge: "n < 2 ^ 63 \<Longrightarrow> 0 \<le> i64_of_u64 n"
  by (simp add: i64_of_u64_def)

lemma precompile_gas_cost_ge:
  assumes "length input \<le> alloc_limit"
  shows "- 1 \<le> precompile_gas_cost a input"
proof -
  have words: "div_ceil (length input) 32 \<le> 2147483648"
    using assms by (intro div_ceil_le) auto
  have small: "n < 2 ^ 63 \<Longrightarrow> - 1 \<le> i64_of_u64 n" for n
    using i64_of_u64_ge [of n] by linarith
  have "- 1 \<le> i64_of_u64 (modexp_gas_cost input)"
    using modexp_gas_cost_bounds(2) [of input]
  proof
    assume "modexp_gas_cost input = 2 ^ 64 - 1"
    then show ?thesis by (simp add: i64_of_u64_def)
  qed (intro small, simp)
  moreover have "- 1 \<le> i64_of_u64 (blake2f_gas_cost input)"
  proof (rule small)
    have "be_nat (sub_list 0 4 input) < 256 ^ length (sub_list 0 4 input)" by (rule be_nat_lt)
    also have "\<dots> \<le> 256 ^ 4" by (rule power_increasing) (auto simp: sub_list_def)
    finally show "blake2f_gas_cost input < 2 ^ 63" by (simp add: blake2f_gas_cost_def)
  qed
  moreover have "length input div 192 \<le> alloc_limit" using assms div_le_dividend le_trans by blast
  ultimately show ?thesis
    using words by (simp add: precompile_gas_cost_def Let_def small)
qed

section \<open>Calls rely on the nested frame\<close>

lemma all_but_one_64th_bounds:
  "0 \<le> r \<Longrightarrow> 0 \<le> all_but_one_64th r \<and> all_but_one_64th r \<le> r"
  by (auto simp: all_but_one_64th_def trunc_div_def sgn_if)

lemma sint_small: "unat (w :: u64) < 2 ^ 63 \<Longrightarrow> sint w = int (unat w)"
proof -
  assume "unat w < 2 ^ 63"
  then have "int (unat w) < 2 ^ 63" by (metis of_nat_less_numeral_power_cancel_iff)
  then have "uint w < 2 ^ 63" by (simp only: of_nat_unat)
  moreover have "- (2 ^ 63) \<le> uint w" by (rule order_trans [of _ 0]) simp_all
  ultimately have "signed_take_bit 63 (uint w) = uint w"
    by (simp only: signed_take_bit_int_eq_self)
  then show ?thesis by (simp add: sint_uint)
qed

lemma as_i64_small: "unat w < 2 ^ 63 \<Longrightarrow> as_i64 w = Ok (int (unat w))"
proof -
  assume w: "unat w < 2 ^ 63"
  then have "unat (ucast w :: u64) = unat w"
    by (simp add: unsigned_ucast_eq take_bit_nat_eq_self)
  with w sint_small [of "ucast w"] show ?thesis by (simp add: as_i64_def as_u64_def)
qed

lemma as_i64_min:
  assumes c: "as_i64 (min w (of_int i64_max)) = Ok c"
  shows "0 \<le> c"
proof -
  have "min w (of_int i64_max :: u256) \<le> of_int i64_max" by (rule min.cobounded2)
  then have "unat (min w (of_int i64_max :: u256)) < 2 ^ 63"
    unfolding word_le_nat_alt by simp
  from as_i64_small [OF this] c show "0 \<le> c" by (metis of_nat_0_le_iff res.inject(1))
qed

locale sub_executor =
  fixes exec :: executor and N :: nat
  assumes exec_gas: "0 \<le> g \<Longrightarrow>
      exec code call ctx \<lparr>m_evm = inner_evm g, m_ext = x, m_ret = [], m_trace = tr\<rparr> = (Ok ret, m') \<Longrightarrow>
      0 \<le> g_used (m_gas m') \<and> g_used (m_gas m') \<le> g"
    and exec_fuel: "0 \<le> g \<Longrightarrow> g + 2 \<le> int N \<Longrightarrow>
      exec code call ctx \<lparr>m_evm = inner_evm g, m_ext = x, m_ret = [], m_trace = tr\<rparr> = (r, m') \<Longrightarrow>
      r \<noteq> OutOfFuel"
begin

lemma valid_run_inner:
  assumes "0 \<le> g" and "b \<Longrightarrow> g + 2 \<le> int N"
  shows "valid b l (meter u l k) (run_inner exec code call ctx g)
    (\<lambda>(ret, inner, tr) m. (0 \<le> g_used (e_gas inner) \<and> g_used (e_gas inner) \<le> g) \<and> meter u l k m)"
proof (rule validI)
  fix m r m' assume "meter u l k m" "run_inner exec code call ctx g m = (r, m')"
  then show "g_limit (m_gas m') = l"
    by (auto simp: run_inner_def meter_def split: prod.splits res.splits)
  show "b \<Longrightarrow> r \<noteq> OutOfFuel"
    using \<open>run_inner exec code call ctx g m = (r, m')\<close> assms
    by (auto simp: run_inner_def log_fork_def dest: exec_fuel split: prod.splits res.splits)
next
  fix m a m' assume "meter u l k m" "run_inner exec code call ctx g m = (Ok a, m')"
  then show "(\<lambda>(ret, inner, tr) m. (0 \<le> g_used (e_gas inner) \<and> g_used (e_gas inner) \<le> g) \<and>
      meter u l k m) a m'"
    using assms(1)
    by (auto simp: run_inner_def log_fork_def meter_def paid_def slack_def dest: exec_gas
        split: prod.splits res.splits)
qed

lemma valid_call_inner:
  assumes "0 \<le> g" and "b \<Longrightarrow> g + 2 \<le> int N"
  shows "valid b l (meter u l k) (call_inner exec F a t g tot data)
    (\<lambda>_ m. \<exists>u'. meter u' l (k + 1) m \<and> u - call_stipend F a \<le> u')"
proof -
  have finish: "valid b l (meter u l k) (finish_call F a tot ret inner tr)
      (\<lambda>_. meter (u + (g_used (e_gas inner) - call_stipend F a)) l (k + 1))" for ret inner tr
    unfolding finish_call_def
    by (rule valid_seq valid_charge valid_quiet quiet_copy_return quiet_settle_call quiet_intros refl
        | simp)+
  have after: "valid b l (\<lambda>m. 0 \<le> g_used (e_gas inner) \<and> g_used (e_gas inner) \<le> g \<and> meter u l k m)
      (finish_call F a tot ret inner tr)
      (\<lambda>_ m. \<exists>u'. meter u' l (k + 1) m \<and> u - call_stipend F a \<le> u')" for ret inner tr
    by (rule valid_pre_const)+ (rule valid_conseq [OF finish], auto)
  have run: "valid b l (meter u l k) (bindM (run_inner exec code call ctx g) (\<lambda>(ret, inner, tr).
       finish_call F a tot ret inner tr)) (\<lambda>_ m. \<exists>u'. meter u' l (k + 1) m \<and> u - call_stipend F a \<le> u')"
    for code call ctx
    by (rule valid_bind [OF valid_run_inner [OF assms]]) (auto simp: split_def intro: after)
  show ?thesis
    unfolding call_inner_def Let_def
    by (rule run valid_seq valid_quiet quiet_call_transfer quiet_trace | simp)+
qed

lemma call_data_length:
  assumes "call_data H a m = (Ok data, m')"
  shows "length data \<le> length (m_memory m)"
  using assms by (auto simp: call_data_def monad_defs read_memory_def slice_ok_def sub_list_def
      split: if_splits res.splits)

lemma valid_call_data:
  "valid b l (meter u l k) (call_data H a) (\<lambda>data m. length data \<le> alloc_limit \<and> meter u l k m)"
proof -
  have "quiet False 0 (call_data H a)" unfolding call_data_def by (rule quiet_intros refl | simp)+
  note q = valid_quiet [OF this, where b = b and l = l and u = u and k = k and k' = k, unfolded valid_def]
  show ?thesis
  proof (rule validI)
    fix m r m' assume m: "meter u l k m" and c: "call_data H a m = (r, m')"
    with q show "g_limit (m_gas m') = l" by auto
    from q m c show "b \<Longrightarrow> r \<noteq> OutOfFuel" by auto
  next
    fix m data m' assume m: "meter u l k m" and c: "call_data H a m = (Ok data, m')"
    from m have "length (m_memory m) \<le> alloc_limit" by (simp add: meter_def paid_def slack_def)
    with call_data_length [OF c] q m c show "length data \<le> alloc_limit \<and> meter u l k m'" by auto
  qed
qed

lemma valid_call_dispatch:
  assumes cost: "0 \<le> mem_cost" "100 \<le> ct_access_cost t" "0 \<le> ct_create_cost t"
    and gas: "\<exists>w. ca_gas a = min w (of_int i64_max)"
  shows "valid (l - u + 1 \<le> int N) l (meter u l k) (call_dispatch exec F a mem_cost t)
     (\<lambda>c m. \<exists>u'. meter u' l (k + 1) m \<and> u + 1 \<le> u' + c)" (is "valid ?b l _ _ ?Q")
proof -
  define base where "base = call_base_cost F a mem_cost t"
  define fwd where "fwd = (\<lambda>cg. min cg (all_but_one_64th (l - u - base)) + call_stipend F a)"
  have base: "100 + 4 * call_stipend F a - 200 \<le> base" "100 \<le> base" "call_stipend F a + 1 \<le> base"
    using cost by (auto simp: base_def call_base_cost_def call_stipend_def)
  have stip: "0 \<le> call_stipend F a" by (simp add: call_stipend_def)
  have oog: "valid ?b l (meter u l k) (call_oog F a) ?Q"
    by (rule valid_conseq [OF valid_quiet [OF quiet_call_oog [of False "- k - 1"] refl, where u = u and k = k]])
      (auto simp: meter_def)
  have pre: "valid ?b l (\<lambda>m. length data \<le> alloc_limit \<and> meter u l k m)
      (seqM (call_precompile F a tot data)
        (seqM (evm_gas (precompile_gas_cost (ca_address a) data)) (returnM base))) ?Q" for tot data
  proof (rule valid_pre_const)
    assume "length data \<le> alloc_limit"
    from precompile_gas_cost_ge [OF this, of "ca_address a"] base(2)
    show "valid ?b l (meter u l k) (seqM (call_precompile F a tot data)
        (seqM (evm_gas (precompile_gas_cost (ca_address a) data)) (returnM base))) ?Q"
      by - (rule valid_seq, rule valid_quiet [OF quiet_call_precompile refl], rule valid_seq,
          rule valid_gas, rule valid_return, auto simp: meter_def)
  qed
  have inner: "valid ?b l (\<lambda>m. length data \<le> alloc_limit \<and> meter u l k m)
      (seqM (call_inner exec F a t (fwd cg) tot data) (returnM base)) ?Q"
    if "base \<le> l - u" "0 \<le> cg" for cg tot data
  proof -
    have "0 \<le> fwd cg" "fwd cg + 1 \<le> l - u"
      using that stip base all_but_one_64th_bounds [of "l - u - base"] by (auto simp: fwd_def)
    then have "valid ?b l (meter u l k) (call_inner exec F a t (fwd cg) tot data)
        (\<lambda>_ m. \<exists>u'. meter u' l (k + 1) m \<and> u - call_stipend F a \<le> u')"
      by (intro valid_call_inner) auto
    then show ?thesis
      using base by - (rule valid_conseq, rule valid_seq, assumption, rule valid_return,
          auto simp: meter_def)
  qed
  have cg: "valid ?b l (meter u l k) (liftM (as_i64 (ca_gas a))) (\<lambda>cg m. 0 \<le> cg \<and> meter u l k m)"
  proof -
    obtain w where w: "ca_gas a = min w (of_int i64_max)" using gas by blast
    have "(as_i64 (ca_gas a) :: (int, exec_error) res) \<noteq> OutOfFuel"
      by (simp add: as_i64_def as_u64_def)
    moreover have "as_i64 (ca_gas a) = (Ok c :: (int, exec_error) res) \<Longrightarrow> 0 \<le> c" for c
      unfolding w by (rule as_i64_min)
    ultimately show ?thesis
      by (intro valid_quiet_res [OF quiet_lift]) (auto simp: liftM_def)
  qed
  have go: "valid ?b l (meter u l k)
      (bindM (liftM (as_i64 (ca_gas a))) (\<lambda>cg. bindM (call_data (f_host F) a) (\<lambda>data.
         if is_precompile (ca_address a)
         then seqM (call_precompile F a (tot cg) data)
               (seqM (evm_gas (precompile_gas_cost (ca_address a) data)) (returnM base))
         else seqM (call_inner exec F a t (fwd cg) (tot cg) data) (returnM base)))) ?Q"
    if "base \<le> l - u" for tot
    by (rule valid_bind [OF cg], rule valid_pre_const, rule valid_bind [OF valid_call_data],
        rule valid_if) (auto intro: pre inner that)
  show ?thesis
    unfolding call_dispatch_def Let_def base_def [symmetric]
    by (rule valid_bind [OF valid_remaining], rule valid_pre_const, hypsubst, rule valid_if [OF oog],
        rule go [unfolded fwd_def]) simp
qed

lemma pop_call_args_gas:
  "pop_call_args F m = (Ok a, m') \<Longrightarrow> \<exists>w. ca_gas a = min w (of_int i64_max)"
  unfolding pop_call_args_def Let_def bindM_Ok_iff returnM_def by fastforce

text \<open>The method \<open>call\<close>: what it has charged and what it leaves to charge is positive.\<close>

lemma valid_evm_call:
  "valid (l - u + 1 \<le> int N) l (meter u l k) (evm_call exec F)
     (\<lambda>c m. \<exists>u'. meter u' l (k - 5) m \<and> u + 1 \<le> u' + c)"
proof -
  define d :: int where "d = (if k_call_type (f_ctx F) \<notin> {CT_Static, CT_Delegate} then - 7 else - 6)"
  let ?b = "l - u + 1 \<le> int N" and ?Q = "\<lambda>c m. \<exists>u'. meter u' l (k + d + 1) m \<and> u + 1 \<le> u' + c"
  have pop: "valid ?b l (meter u l k) (pop_call_args F)
      (\<lambda>a m. (\<exists>w. ca_gas a = min w (of_int i64_max)) \<and> meter u l (k + d) m)"
    unfolding d_def by (rule valid_quiet_res [OF quiet_call_args refl]) (rule pop_call_args_gas)
  have "valid ?b l (meter u l k) (evm_call exec F) ?Q"
    unfolding evm_call_def
  proof (rule valid_bind [OF pop], rule valid_pre_const)
    fix a :: call_args assume gas: "\<exists>w. ca_gas a = min w (of_int i64_max)"
    have "valid ?b l (meter u l (k + d)) (call_access F a)
        (\<lambda>t m. (100 \<le> ct_access_cost t \<and> 0 \<le> ct_create_cost t) \<and> meter u l (k + d) m)"
      by (rule valid_quiet_res [OF quiet_call_access]) (auto dest: call_access_cost_ge)
    then have "valid ?b l (meter u l (k + d)) (bindM (call_access F a) (call_dispatch exec F a mc)) ?Q"
      if "0 \<le> mc" for mc
      by (rule valid_bind, intro valid_pre_const valid_call_dispatch) (use that gas in auto)
    then show "valid ?b l (meter u l (k + d)) (seqM (call_expand (f_host F) a)
        (bindM memory_expansion_cost (\<lambda>mc. bindM (call_access F a) (call_dispatch exec F a mc)))) ?Q"
      by - (rule valid_seq, rule valid_grow [OF quiet_call_expand], simp,
          rule valid_bind [OF valid_expansion], rule valid_pre_const, simp)
  qed
  then show ?thesis
    by (rule valid_conseq) (auto simp: meter_def d_def split: if_splits intro: order_trans)
qed

lemma lawful_call_arm: "lawful N F (call_arm exec F ctx)"
proof -
  have spec: "frame_inv m \<Longrightarrow> evm_call exec (F\<lparr>f_ctx := ctx\<rparr>) m = (r, m') \<Longrightarrow>
      g_limit (m_gas m') = g_limit (m_gas m) \<and> (m_remaining m + 1 \<le> int N \<longrightarrow> r \<noteq> OutOfFuel) \<and>
      (\<forall>c. r = Ok c \<longrightarrow> frame_inv m' \<and> g_used (m_gas m) + 1 \<le> g_used (m_gas m') + c)" for m r m'
    using valid_evm_call [of "g_limit (m_gas m)" "g_used (m_gas m)" 1024, unfolded valid_def,
        rule_format, of m "F\<lparr>f_ctx := ctx\<rparr>" r m']
    by (auto simp: meter_def frame_inv_paid gas_remaining_def)
  show ?thesis
    unfolding lawful_def
  proof (intro allI impI)
    fix m r m' assume inv: "frame_inv m" and h: "call_arm exec F ctx m = (r, m')"
    obtain r1 m1 where c: "evm_call exec (F\<lparr>f_ctx := ctx\<rparr>) m = (r1, m1)" by fastforce
    from spec [OF inv c] h show "g_limit (m_gas m') = g_limit (m_gas m) \<and>
        (m_remaining m + 1 \<le> int N \<longrightarrow> r \<noteq> OutOfFuel) \<and> (\<forall>s. r = Ok s \<longrightarrow> lawful_result F m s m')"
      by (cases r1)
        (auto simp: call_arm_def catchM_def c next_pc_eq getsM_def bindM_def returnM_def
          lawful_result_def frame_inv_def)
  qed
qed

text \<open>The method \<open>create\<close> charges its costs itself.\<close>

lemma valid_settle_create:
  assumes "0 \<le> g_used (e_gas inner)" "0 \<le> g"
  shows "valid b l (meter u l k) (settle_create F created val base g inner code)
    (\<lambda>_ m. \<exists>u'. meter u' l (k + 1) m \<and> u + base \<le> u')"
proof -
  have fail: "valid b l (meter u l k) (seqM (charge_used n) (create_failed inner))
      (\<lambda>_. meter (u + n) l (k + 1))" for n
    by (rule valid_seq [OF valid_charge], rule valid_quiet [OF quiet_create_failed refl])
  have succeed: "valid b l (meter u l k) (seqM (charge_used n) (deploy F created val inner code))
      (\<lambda>_. meter (u + n) l (k + 1))" for n
    by (rule valid_seq [OF valid_charge], rule valid_quiet [OF quiet_deploy refl])
  show ?thesis
    unfolding settle_create_def Let_def
    by (intro valid_if)
      (rule valid_conseq [OF fail] valid_conseq [OF succeed], use assms in \<open>auto split: if_splits\<close>)+
qed

lemma valid_create_inner:
  assumes "32000 \<le> base"
  shows "valid (l - u + 1 \<le> int N) l (meter u l k) (create_inner exec F created val code base)
    (\<lambda>_ m. \<exists>u'. meter u' l (k + 1) m \<and> u + base \<le> u')" (is "valid ?b l _ _ ?Q")
proof -
  let ?g = "all_but_one_64th (l - u - base)"
  have rem: "valid ?b l (meter u l k) (getsM (\<lambda>m. m_remaining m - base))
      (\<lambda>r m. r = l - u - base \<and> meter u l k m)"
    by (rule validI) (auto simp: meter_def getsM_def gas_remaining_def)
  have finish: "valid ?b l (\<lambda>m. 0 \<le> g_used (e_gas inner) \<and> g_used (e_gas inner) \<le> ?g \<and> meter u l k m)
      (seqM (trace_call F tot) (seqM (trace_join tr (e_reverted inner))
        (settle_create F created val base ?g inner ret))) ?Q"
    if "0 \<le> ?g" for ret inner tr tot
    by (rule valid_pre_const)+
      (rule valid_seq valid_settle_create valid_quiet quiet_intros that refl | assumption | simp)+
  have run: "valid ?b l (meter u l k) (bindM (run_inner exec code call ctx ?g) (\<lambda>(ret, inner, tr).
       seqM (trace_call F tot) (seqM (trace_join tr (e_reverted inner))
         (settle_create F created val base ?g inner ret)))) ?Q"
    if "0 < l - u - base" for call ctx tot
  proof -
    have g: "0 \<le> ?g" "?g \<le> l - u - base" using all_but_one_64th_bounds that by auto
    then have fuel: "?b \<Longrightarrow> ?g + 2 \<le> int N" using assms by linarith
    show ?thesis
      by (rule valid_bind [OF valid_run_inner [OF g(1) fuel]])
        (auto simp: split_def intro: finish [OF g(1)])
  qed
  show ?thesis
    unfolding create_inner_def Let_def
    by (rule valid_bind [OF rem], rule valid_pre_const, hypsubst, rule valid_if,
        rule valid_panic, erule meter_limit, rule run) simp
qed

lemma valid_evm_create:
  "valid (l - u + 1 \<le> int N) l (meter u l k) (evm_create exec F)
     (\<lambda>_ m. \<exists>u'. meter u' l (k - 2) m \<and> u + 1 \<le> u')"
proof -
  define d :: int where "d = (if k_call_type (f_ctx F) = CT_Create2 then - 1 else 0)"
  let ?b = "l - u + 1 \<le> int N" and ?Q = "\<lambda>_ m. \<exists>u'. meter u' l (k - 3 + d + 1) m \<and> u + 32000 \<le> u'"
  have salt: "quiet False d (if k_call_type (f_ctx F) = CT_Create2 then evm_pop else returnM 0)"
    by (simp add: d_def quiet_pop quiet_return)
  have grow: "quiet True 0 (if n > 0 then bindM (liftM (usize_add (f_host F) offset n)) expand_memory
      else returnM ())" for n offset
    by (rule quiet_intros refl | simp)+
  have inner: "valid ?b l (meter u l k') (create_inner exec F created val code
        (mc + 32000 + init_code_cost F n)) (\<lambda>_ m. \<exists>u'. meter u' l k'' m \<and> u + 32000 \<le> u')"
    if "0 \<le> mc" "k'' = k' + 1" for created val code mc n k' k''
  proof -
    have le: "32000 \<le> mc + 32000 + init_code_cost F n" using that(1) by (simp add: init_code_cost_def Let_def)
    show ?thesis by (rule valid_conseq [OF valid_create_inner [OF le]]) (use le that(2) in force)+
  qed
  have "valid ?b l (meter u l k) (evm_create exec F) ?Q"
    unfolding evm_create_def Let_def
    by (rule valid_bind [OF valid_quiet [OF quiet_pop]] valid_bind [OF valid_quiet [OF quiet_pop_usize]]
        valid_bind [OF valid_quiet [OF salt]] valid_seq [OF valid_grow [OF grow]]
        valid_bind [OF valid_expansion] valid_pre_const
        valid_bind [OF valid_quiet [OF quiet_lift]] valid_bind [OF valid_quiet [OF quiet_read_memory]]
        valid_bind [OF valid_quiet [OF quiet_bump_nonce]] valid_seq [OF valid_quiet [OF quiet_register]]
        inner refl | assumption | simp)+
  then show ?thesis
    by (rule valid_conseq) (auto simp: meter_def d_def split: if_splits intro: order_trans)
qed

lemma lawful_create:
  "lawful N F (seqM (evm_create exec F') (next_pc 0))"
  unfolding lawful_def
proof (intro allI impI)
  fix m r m' assume inv: "frame_inv m" and h: "seqM (evm_create exec F') (next_pc 0) m = (r, m')"
  from inv have "meter (g_used (m_gas m)) (g_limit (m_gas m)) 1024 m"
    by (simp add: meter_def frame_inv_paid)
  note spec = valid_evm_create [unfolded valid_def, rule_format, OF this]
  from h [unfolded seqM_def] show "g_limit (m_gas m') = g_limit (m_gas m) \<and>
      (m_remaining m + 1 \<le> int N \<longrightarrow> r \<noteq> OutOfFuel) \<and> (\<forall>s. r = Ok s \<longrightarrow> lawful_result F m s m')"
    by (cases rule: bindM_outcome)
      (auto dest!: spec simp: next_pc_eq lawful_result_def frame_inv_paid meter_def paid_def
        slack_def gas_remaining_def)
qed

lemma lawful_throw: "lawful N F (throwM e)"
  by (simp add: lawful_def throwM_def)

lemma lawful_guarded:
  "lawful N F c \<Longrightarrow>
     lawful N F (bindM (getsM f) (\<lambda>x. if P x then throwM e1 else if Q x then throwM e2 else c))"
  by (auto simp: lawful_def bindM_def getsM_def throwM_def)

lemma lawful_calls:
  "lawful N F (op_CREATE exec F)" "lawful N F (op_CREATE2 exec F)" "lawful N F (op_CALL exec F)"
  "lawful N F (op_CALLCODE exec F)" "lawful N F (op_DELEGATECALL exec F)"
  "lawful N F (op_STATICCALL exec F)"
  by (auto simp: op_CREATE_def op_CREATE2_def op_CALLCODE_def op_DELEGATECALL_def op_STATICCALL_def
      op_CALL_def intro!: lawful_throw lawful_create lawful_call_arm lawful_guarded)

end

end
