(* ===== verification/Steps.thy ===== *)
theory Steps
  imports Prelude
begin

text \<open>
  Relations between the states before and after a computation: a reflexive and transitive
  relation that every primitive step keeps is kept by the computations composed of them.
\<close>

section \<open>Relations kept by computations\<close>

definition settled :: "('a, 'e) res \<Rightarrow> bool" where
  "settled r \<longleftrightarrow> r \<noteq> Panic \<and> r \<noteq> OutOfFuel"

definition preserves :: "('s \<Rightarrow> 's \<Rightarrow> bool) \<Rightarrow> ('s, 'e, 'a) monad \<Rightarrow> bool" where
  "preserves R c \<longleftrightarrow> (\<forall>m r m'. c m = (r, m') \<longrightarrow> settled r \<longrightarrow> R m m')"

lemma settled_simps [simp]:
  "settled (Ok a)" "settled (Err e)" "\<not> settled Panic" "\<not> settled OutOfFuel"
  by (simp_all add: settled_def)

lemma preservesD: "preserves R c \<Longrightarrow> c m = (r, m') \<Longrightarrow> settled r \<Longrightarrow> R m m'"
  by (simp add: preserves_def)

locale step_relation =
  fixes R :: "'s \<Rightarrow> 's \<Rightarrow> bool"
  assumes R_refl: "R m m"
    and R_trans: "R m m1 \<Longrightarrow> R m1 m2 \<Longrightarrow> R m m2"
begin

lemma preserves_bind:
  assumes "preserves R c" and "\<And>a. preserves R (f a)"
  shows "preserves R (bindM c f)"
  unfolding preserves_def
proof (intro allI impI)
  fix m r m' assume b: "bindM c f m = (r, m')" and r: "settled r"
  from b show "R m m'"
  proof (cases rule: bindM_outcome)
    case (ok a m1)
    show ?thesis
      by (rule R_trans [OF preservesD [OF assms(1) ok(1)] preservesD [OF assms(2) ok(2) r]]) simp
  qed (use r preservesD [OF assms(1), of m] in auto)
qed

lemma preserves_seq: "preserves R c \<Longrightarrow> preserves R k \<Longrightarrow> preserves R (seqM c k)"
  unfolding seqM_def by (rule preserves_bind)

lemma preserves_catch:
  assumes "preserves R c" and "\<And>a. preserves R (f a)" and "\<And>e. preserves R (h e)"
  shows "preserves R (catchM c f h)"
  unfolding preserves_def
proof (intro allI impI)
  fix m r m' assume b: "catchM c f h m = (r, m')" and r: "settled r"
  obtain r1 m1 where c: "c m = (r1, m1)" by fastforce
  show "R m m'"
    using b r c preservesD [OF assms(1) c] R_trans [of m m1 m'] preservesD [OF assms(2)]
      preservesD [OF assms(3)]
    by (cases r1) (auto simp: catchM_def)
qed

lemma preserves_pure:
  "preserves R (returnM a)" "preserves R (getsM g)" "preserves R (throwM e)" "preserves R panicM"
  "preserves R (liftM r)"
  by (auto simp: preserves_def monad_defs R_refl)

lemma preserves_branch:
  "(b \<Longrightarrow> preserves R c) \<Longrightarrow> (\<not> b \<Longrightarrow> preserves R k) \<Longrightarrow> preserves R (if b then c else k)"
  "(\<And>a. preserves R (f a)) \<Longrightarrow> preserves R k \<Longrightarrow> preserves R (case x of None \<Rightarrow> k | Some a \<Rightarrow> f a)"
  "(\<And>a b. preserves R (g a b)) \<Longrightarrow> preserves R (case p of (a, b) \<Rightarrow> g a b)"
  "preserves R (f a') \<Longrightarrow> preserves R (Let a' f)"
  by (auto split: option.split prod.split)

lemma preserves_same_state:
  assumes "\<And>m r m'. c m = (r, m') \<Longrightarrow> settled r \<Longrightarrow> m' = m"
  shows "preserves R c"
  using assms R_refl by (metis preserves_def)

end

end
