(* ===== verification/Journal.thy ===== *)
theory Journal
  imports Executor CallLaws Steps
begin

text \<open>
  The journal. Every write to storage or to transient storage is recorded in \<open>touches\<close>
  with the value it replaced; \<open>Evm::revert\<close> walks the journal backwards.

  \<open>persist\<close> is the abstract state the journal protects: what every storage slot and every
  transient slot reads as. \<open>undo_all\<close> is the abstract roll-back. The relation
  \<open>journaled m m'\<close> says that undoing the entries added between \<open>m\<close> and \<open>m'\<close> gives back
  the persistent state of \<open>m\<close>; it is reflexive and transitive, so the locale
  \<open>step_relation\<close> carries it through every instruction.
\<close>

section \<open>The abstract state behind the journal\<close>

type_synonym slots = "addr160 \<times> u256 \<Rightarrow> u256 option"
type_synonym tslots = "addr160 \<times> u256 \<Rightarrow> u256"

definition transient_view :: "ext \<Rightarrow> tslots" where
  "transient_view x ak = (case x_transient x ak of Some v \<Rightarrow> v | None \<Rightarrow> 0)"

definition persist :: "ext \<Rightarrow> slots \<times> tslots" where
  "persist x = (storage_view x, transient_view x)"

fun undo :: "account_touch \<Rightarrow> slots \<times> tslots \<Rightarrow> slots \<times> tslots" where
  "undo (T_SetState a k v _ _) (s, t) = (s((a, k) := Some v), t)"
| "undo (T_SetTransientState a k v _) (s, t) = (s, t((a, k) := v))"
| "undo _ st = st"

definition undo_all :: "account_touch list \<Rightarrow> slots \<times> tslots \<Rightarrow> slots \<times> tslots" where
  "undo_all ts st = foldr undo ts st"

lemma undo_all_simps [simp]:
  "undo_all [] st = st" "undo_all (t # ts) st = undo t (undo_all ts st)"
  "undo_all (ts @ us) st = undo_all ts (undo_all us st)"
  by (simp_all add: undo_all_def)

lemma undo_survivor: "survives_revert t \<Longrightarrow> undo t st = st"
  by (cases st) (cases t, auto simp: survives_revert_def)

lemma undo_survivors: "undo_all (filter survives_revert ts) st = st"
  by (induction ts) (auto simp: undo_survivor)

section \<open>The roll-back implements the abstract one\<close>

lemma persist_cong:
  assumes "x_remote x' = x_remote x" "\<And>a k. cached_slot x' a k = cached_slot x a k"
    and "x_transient x' = x_transient x"
  shows "persist x' = persist x"
proof -
  have "storage_view x' ak = storage_view x ak" for ak
    by (simp only: storage_view_def assms)
  then show ?thesis by (auto simp: persist_def transient_view_def fun_eq_iff assms(3))
qed

lemma cached_slot_cong: "x_state x' = x_state x \<Longrightarrow> cached_slot x' a k = cached_slot x a k"
  by (simp add: cached_slot_def)

lemma account_upd_persist:
  assumes "account_upd a f x = (Ok u, x')" and "\<And>acc. a_state (f acc) = a_state acc"
  shows "persist x' = persist x"
proof (rule persist_cong)
  fix b k show "cached_slot x' b k = cached_slot x b k"
    using assms by (cases "b = a") (auto simp: account_upd_def cached_slot_def split: option.splits)
qed (use assms(1) in \<open>auto simp: account_upd_def split: option.splits\<close>)

lemma setter_persist:
  "set_value a v x = (Ok u, x') \<Longrightarrow> persist x' = persist x"
  "set_nonce a v x = (Ok u, x') \<Longrightarrow> persist x' = persist x"
  "set_code a c x = (Ok u, x') \<Longrightarrow> persist x' = persist x"
  unfolding set_value_def set_nonce_def set_code_def by (erule account_upd_persist, simp)+

lemma transient_set_slot: "transient_view (set_slot a k v x) = transient_view x"
  by (simp add: transient_view_def set_slot_def Let_def fun_eq_iff)

lemma persist_set_slot: "persist (set_slot a k v x) = undo (T_SetState a k v w b) (persist x)"
  by (simp add: persist_def transient_set_slot storage_view_set_slot fun_eq_iff)

lemma revert_touch_persist:
  assumes "revert_touch t x = (Ok u, x')"
  shows "persist x' = undo t (persist x)"
proof -
  have warm: "persist (x\<lparr>x_accessed_storage := s\<rparr>) = persist x"
    "persist (x\<lparr>x_accessed_addresses := s'\<rparr>) = persist x" for x s s'
    by (intro persist_cong cached_slot_cong; simp)+
  have trans: "persist (x\<lparr>x_transient := (x_transient x)((a, k) \<mapsto> v)\<rparr>)
      = undo (T_SetTransientState a k v w) (persist x)" for a k v w
    by (auto simp: persist_def storage_view_def transient_view_def cached_slot_def fun_eq_iff
        split: option.split)
  show ?thesis
    using assms
    by (cases t)
      (auto simp: monad_defs warm trans persist_set_slot dest!: setter_persist
        split: if_splits prod.splits res.splits)
qed

lemma revert_all_persist:
  "revert_all ts x = (Ok u, x') \<Longrightarrow> persist x' = undo_all (rev ts) (persist x)"
proof (induction ts arbitrary: x)
  case Nil
  then show ?case by (simp add: returnM_def)
next
  case (Cons t ts)
  from Cons.prems obtain v x1 where "revert_touch t x = (Ok v, x1)" "revert_all ts x1 = (Ok u, x')"
    by (auto simp: seqM_def bindM_Ok_iff)
  then show ?case using Cons.IH revert_touch_persist by simp
qed

lemma evm_revert_persist:
  "evm_revert e x = (Ok u, x') \<Longrightarrow> persist x' = undo_all (e_touches e) (persist x)"
  unfolding evm_revert_def by (drule revert_all_persist) simp

section \<open>Computations on the world state that the journal need not record\<close>

definition neutral :: "ext \<Rightarrow> ext \<Rightarrow> bool" where
  "neutral x x' \<longleftrightarrow> persist x' = persist x \<and> dom (x_state x) \<subseteq> dom (x_state x') \<and>
     x_remote x' = x_remote x \<and> x_tx_ctx x' = x_tx_ctx x"

interpretation state: step_relation neutral
  by unfold_locales (auto simp: neutral_def)

lemmas neutral_intros = state.preserves_bind state.preserves_seq state.preserves_pure
  state.preserves_branch

lemma neutral_same_views:
  assumes "storage_view x' = storage_view x" "x_transient x' = x_transient x"
    and "dom (x_state x) \<subseteq> dom (x_state x')" "x_remote x' = x_remote x" "x_tx_ctx x' = x_tx_ctx x"
  shows "neutral x x'"
  using assms by (auto simp: neutral_def persist_def transient_view_def fun_eq_iff)

lemma pull_neutral: "ext_pull H a x = (r, x') \<Longrightarrow> neutral x x'"
  by (frule ext_pull_views(1), frule ext_pull_views(5), erule ext_pull_cases)
    (auto intro!: neutral_same_views)

lemma neutral_modify:
  "(\<And>x. x_state (f x) = x_state x \<and> x_remote (f x) = x_remote x \<and> x_transient (f x) = x_transient x \<and>
      x_tx_ctx (f x) = x_tx_ctx x) \<Longrightarrow> neutral x (f x)"
  by (auto simp: neutral_def intro!: persist_cong cached_slot_cong)

lemma read_neutral:
  assumes "read x = (case x_state x a of Some acc \<Rightarrow> (Ok (sel acc), x)
              | None \<Rightarrow> bindM (ext_pull H a) (\<lambda>acc. returnM (sel acc)) x)"
    and "read x = (r, x')"
  shows "neutral x x'"
  using assms by (auto simp: monad_defs state.R_refl dest: pull_neutral
      split: option.splits prod.splits res.splits)

lemma neutral_reads:
  "preserves neutral (ext_balance H a)" "preserves neutral (ext_nonce H a)"
  "preserves neutral (ext_code H a)" "preserves neutral (ext_is_empty H a)"
proof -
  show 1: "preserves neutral (ext_balance H a)" "preserves neutral (ext_nonce H a)"
    "preserves neutral (ext_code H a)"
    unfolding preserves_def by (auto intro: read_neutral simp: ext_balance_def ext_nonce_def ext_code_def)
  show "preserves neutral (ext_is_empty H a)"
    unfolding ext_is_empty_def by (intro neutral_intros 1)
qed

lemma note_original_same:
  "x_state (note_original a k v x) = x_state x" "x_remote (note_original a k v x) = x_remote x"
  "x_transient (note_original a k v x) = x_transient x" "x_tx_ctx (note_original a k v x) = x_tx_ctx x"
  by (auto simp: note_original_def split: option.split)

lemma set_slot_same:
  "x_remote (set_slot a k v x) = x_remote x" "x_transient (set_slot a k v x) = x_transient x"
  "x_tx_ctx (set_slot a k v x) = x_tx_ctx x" "dom (x_state (set_slot a k v x)) = insert a (dom (x_state x))"
  by (auto simp: set_slot_def Let_def)

lemma get_neutral_present:
  assumes "x_state x a = Some acc" "ext_get H a k x = (r, x')"
  shows "neutral x x'"
  using assms ext_get_view_present(1) [OF assms]
  by (intro neutral_same_views)
    (auto simp: ext_get_present note_original_same set_slot_same split: option.splits,
      auto simp: set_slot_def Let_def)

lemma neutral_get: "preserves neutral (ext_get H a k)"
  unfolding preserves_def
proof (intro allI impI)
  fix x r x' assume g: "ext_get H a k x = (r, x')"
  show "neutral x x'"
  proof (cases "x_state x a")
    case (Some acc)
    then show ?thesis using get_neutral_present g by blast
  next
    case None
    obtain r0 x0 where p: "ext_pull H a x = (r0, x0)" by fastforce
    note n = pull_neutral [OF p]
    show ?thesis
    proof (cases r0)
      case (Ok acc)
      have "ext_get H a k x0 = (r, x')" using g p Ok None by (simp add: ext_get_absent)
      with get_neutral_present ext_pull_Ok_present p Ok n state.R_trans show ?thesis by blast
    qed (use g p None n in \<open>auto simp: ext_get_absent\<close>)
  qed
qed

lemma neutral_setters:
  "preserves neutral (set_value a v)" "preserves neutral (set_nonce a v)"
  "preserves neutral (set_code a c)"
proof -
  have "preserves neutral (account_upd a f)" if "\<And>acc. a_state (f acc) = a_state acc" for f
  proof -
    have "persist (x\<lparr>x_state := (x_state x)(a \<mapsto> f acc)\<rparr>) = persist x" if "x_state x a = Some acc" for x acc
      using account_upd_persist [of a f x "()"] that \<open>\<And>acc. a_state (f acc) = a_state acc\<close>
      by (simp add: account_upd_def)
    then show ?thesis
      unfolding preserves_def neutral_def by (auto simp: account_upd_def split: option.splits)
  qed
  then show "preserves neutral (set_value a v)" "preserves neutral (set_nonce a v)"
    "preserves neutral (set_code a c)"
    by (simp_all add: set_value_def set_nonce_def set_code_def)
qed

lemma neutral_entry: "preserves neutral (entry_or_default a)"
  unfolding preserves_def entry_or_default_def modifyM_def
  by (auto simp: neutral_def split: option.split intro!: persist_cong)
    (auto simp: cached_slot_def account_default_def split: option.split)

lemma neutral_misc:
  "preserves neutral (warm_address a)" "preserves neutral (warm_storage a k)"
  "preserves neutral (ext_get_block_hash n)" "preserves neutral (account_get a)"
  "preserves neutral (modifyM (\<lambda>x. x\<lparr>x_created_accounts := f x\<rparr>))"
  "preserves neutral (modifyM (\<lambda>x. x\<lparr>x_destroyed_accounts := g x\<rparr>))"
  unfolding preserves_def warm_address_def warm_storage_def ext_get_block_hash_def account_get_def
    modifyM_def query_def monad_defs
  by (auto intro!: neutral_modify [of "\<lambda>x. x\<lparr>x_accessed_addresses := g x\<rparr>" for g]
      neutral_modify [of "\<lambda>x. x\<lparr>x_accessed_storage := g x\<rparr>" for g]
      neutral_modify state.R_refl split: option.splits)

section \<open>Journaled computations\<close>

definition journaled :: "machine \<Rightarrow> machine \<Rightarrow> bool" where
  "journaled m m' \<longleftrightarrow>
     (\<exists>ts. e_touches (m_evm m') = e_touches (m_evm m) @ ts \<and>
        undo_all ts (persist (m_ext m')) = persist (m_ext m)) \<and>
     dom (x_state (m_ext m)) \<subseteq> dom (x_state (m_ext m')) \<and>
     x_remote (m_ext m') = x_remote (m_ext m) \<and> x_tx_ctx (m_ext m') = x_tx_ctx (m_ext m)"

interpretation journal: step_relation journaled
proof
  fix m show "journaled m m" by (auto simp: journaled_def intro: exI [of _ "[]"])
next
  fix m m1 m2 assume a: "journaled m m1" and b: "journaled m1 m2"
  from a obtain ts where ts: "e_touches (m_evm m1) = e_touches (m_evm m) @ ts"
    "undo_all ts (persist (m_ext m1)) = persist (m_ext m)" by (auto simp: journaled_def)
  from b obtain us where us: "e_touches (m_evm m2) = e_touches (m_evm m1) @ us"
    "undo_all us (persist (m_ext m2)) = persist (m_ext m1)" by (auto simp: journaled_def)
  from ts us have "e_touches (m_evm m2) = e_touches (m_evm m) @ ts @ us \<and>
      undo_all (ts @ us) (persist (m_ext m2)) = persist (m_ext m)" by simp
  then show "journaled m m2" using a b unfolding journaled_def by auto
qed

named_theorems journal_intros "computations that keep the journal complete"

lemmas journal_structure [journal_intros] = journal.preserves_bind journal.preserves_seq
  journal.preserves_pure journal.preserves_branch

lemma journaled_quiet:
  "e_touches (m_evm m') = e_touches (m_evm m) \<Longrightarrow> m_ext m' = m_ext m \<Longrightarrow> journaled m m'"
  by (auto simp: journaled_def intro: exI [of _ "[]"])

lemma journal_guard [journal_intros]: "preserves journaled k \<Longrightarrow> preserves journaled (guard_gas g k)"
  by (auto simp: preserves_def guard_gas_def journal.R_refl split: if_splits)

lemma journal_upd: "(\<And>e. e_touches (f e) = e_touches e) \<Longrightarrow> preserves journaled (upd_evm f)"
  by (auto simp: preserves_def upd_evm_def modifyM_def journaled_quiet)

lemma journal_modify:
  "(\<And>m. m_evm (f m) = m_evm m) \<Longrightarrow> (\<And>m. m_ext (f m) = m_ext m) \<Longrightarrow> preserves journaled (modifyM f)"
  by (auto simp: preserves_def modifyM_def journaled_quiet)

lemma journal_on_ext [journal_intros]:
  assumes "preserves neutral c"
  shows "preserves journaled (on_ext c)"
  unfolding preserves_def
proof (intro allI impI)
  fix m r m' assume "on_ext c m = (r, m')" and "settled r"
  then obtain x where "c (m_ext m) = (r, x)" and m': "m' = m\<lparr>m_ext := x\<rparr>"
    by (auto simp: on_ext_def split: prod.splits)
  with assms \<open>settled r\<close> have "neutral (m_ext m) x" by (auto simp: preserves_def)
  then show "journaled m m'" unfolding m'
    by (auto simp: journaled_def neutral_def intro: exI [of _ "[]"])
qed

lemmas journal_neutral [journal_intros] = neutral_reads neutral_get neutral_setters neutral_entry
  neutral_misc

lemma journal_touch:
  assumes "\<And>st. undo t st = st"
  shows "preserves journaled (touch t)"
  using assms
  by (auto simp: preserves_def touch_def upd_evm_def modifyM_def journaled_def intro: exI [of _ "[t]"])

lemma journal_touches [journal_intros]:
  "preserves journaled (touch (T_WarmUp a))" "preserves journaled (touch (T_GetValue a v))"
  "preserves journaled (touch (T_GetCode a h c))" "preserves journaled (touch (T_GetState a k v b))"
  "preserves journaled (touch (T_SetNonce a n n'))" "preserves journaled (touch (T_SetValue a v v'))"
  "preserves journaled (touch (T_Create a v w c h))" "preserves journaled (touch (T_FeePay a v v'))"
  by (rule journal_touch, simp)+

lemma journal_trace [journal_intros]: "preserves journaled (trace_push d n b)"
  unfolding trace_push_def by (rule journal_modify) simp_all

lemma journal_set_ret [journal_intros]: "preserves journaled (set_ret bs)"
  unfolding set_ret_def by (rule journal_modify) simp_all

lemma journal_join [journal_intros]: "preserves journaled (trace_join tr b)"
  unfolding trace_join_def by (rule journal_modify) simp_all

lemma error_evm_touches [simp]: "e_touches (error_evm e) = e_touches e"
  by (simp add: error_evm_def)

lemma journal_error [journal_intros]: "preserves journaled (evm_error e)"
  by (auto simp: preserves_def evm_error_eq journaled_quiet)

lemma journal_push [journal_intros]: "preserves journaled (evm_push v)"
  by (auto simp: preserves_def evm_push_eq journaled_quiet split: if_splits)

lemma journal_pop [journal_intros]: "preserves journaled evm_pop"
  by (auto simp: preserves_def evm_pop_eq journaled_quiet split: if_splits)

lemma journal_peek [journal_intros]: "preserves journaled (evm_peek n)"
  by (auto simp: preserves_def evm_peek_def evm_error_eq journaled_quiet split: if_splits)

lemma journal_gas [journal_intros]: "preserves journaled (evm_gas n)"
  by (auto simp: preserves_def evm_gas_eq journaled_quiet split: if_splits)

lemma journal_memory [journal_intros]:
  "preserves journaled (read_memory a b)" "preserves journaled (write_memory a b bs)"
  "preserves journaled (resize_memory n)" "preserves journaled (expand_memory n)"
  "preserves journaled memory_expansion_cost"
  by (auto simp: preserves_def read_memory_def write_memory_def resize_memory_def expand_memory_def
      memory_expansion_cost_def Let_def upd_evm_def monad_defs journaled_quiet split: if_splits)

lemma journal_helpers [journal_intros]:
  "preserves journaled (next_pc g)" "preserves journaled pop_usize" "preserves journaled pop_address"
  "preserves journaled (address_access_cost a)" "preserves journaled (trace_opcode F r costs)"
  unfolding next_pc_def pop_usize_def pop_address_def address_access_cost_def trace_opcode_def
  by (intro journal_intros journal_upd; simp)+

lemma journal_fixed [journal_intros]: "preserves journaled b \<Longrightarrow> preserves journaled (fixed_cost g b)"
  unfolding fixed_cost_def by (intro journal_intros)

lemma journal_get [journal_intros]: "preserves journaled (evm_get H a k)"
proof -
  have "evm_get H a k = catchM (on_ext (ext_get H a k)) returnM evm_error"
    by (rule HOL.ext) (auto simp: evm_get_def catchM_def returnM_def split: prod.split res.split)
  then show ?thesis
    by (simp only:) (intro journal.preserves_catch journal_intros)
qed

section \<open>Instructions\<close>

lemma journal_arith:
  "preserves journaled (op_STOP F)" "preserves journaled (op_ADD F)" "preserves journaled (op_MUL F)"
  "preserves journaled (op_SUB F)" "preserves journaled (op_DIV F)" "preserves journaled (op_SDIV F)"
  "preserves journaled (op_MOD F)" "preserves journaled (op_SMOD F)" "preserves journaled (op_ADDMOD F)"
  "preserves journaled (op_MULMOD F)" "preserves journaled (op_EXP F)"
  "preserves journaled (op_SIGNEXTEND F)" "preserves journaled (op_LT F)" "preserves journaled (op_GT F)"
  "preserves journaled (op_SLT F)" "preserves journaled (op_SGT F)" "preserves journaled (op_EQ F)"
  "preserves journaled (op_ISZERO F)" "preserves journaled (op_AND F)" "preserves journaled (op_OR F)"
  "preserves journaled (op_XOR F)" "preserves journaled (op_NOT F)" "preserves journaled (op_BYTE F)"
  "preserves journaled (op_SHL F)" "preserves journaled (op_SHR F)" "preserves journaled (op_SAR F)"
  "preserves journaled (op_CLZ F)" "preserves journaled (op_SHA3 F)"
  unfolding arith_op_defs op_STOP_def pop2_push_def or_panic_def Let_def
  by (intro journal_intros journal_upd; simp)+

lemma journal_copy_steps [journal_intros]:
  "preserves journaled (grow_buffer pad n buf)" "preserves journaled (slice_exec a b xs)"
  "preserves journaled (copy_code H d s n code)" "preserves journaled (copy_ret H d e s n)"
  unfolding grow_buffer_def slice_exec_def copy_code_def copy_ret_def Let_def
  by (intro journal_intros)+

lemma journal_env:
  "preserves journaled (op_ADDRESS F)" "preserves journaled (op_BALANCE F)"
  "preserves journaled (op_ORIGIN F)" "preserves journaled (op_CALLER F)"
  "preserves journaled (op_CALLVALUE F)" "preserves journaled (op_CALLDATALOAD F)"
  "preserves journaled (op_CALLDATASIZE F)" "preserves journaled (op_CODESIZE F)"
  "preserves journaled (op_GASPRICE F)" "preserves journaled (op_EXTCODESIZE F)"
  "preserves journaled (op_RETURNDATASIZE F)" "preserves journaled (op_EXTCODEHASH F)"
  "preserves journaled (op_BLOCKHASH F)" "preserves journaled (op_COINBASE F)"
  "preserves journaled (op_TIMESTAMP F)" "preserves journaled (op_NUMBER F)"
  "preserves journaled (op_PREVRANDAO F)" "preserves journaled (op_GASLIMIT F)"
  "preserves journaled (op_CHAINID F)" "preserves journaled (op_SELFBALANCE F)"
  "preserves journaled (op_BASEFEE F)" "preserves journaled (op_BLOBHASH F)"
  "preserves journaled (op_BLOBBASEFEE F)"
  unfolding env_op_defs Let_def by (intro journal_intros)+

lemma journal_copies:
  "preserves journaled (op_CALLDATACOPY F)" "preserves journaled (op_CODECOPY F)"
  "preserves journaled (op_RETURNDATACOPY F)" "preserves journaled (op_EXTCODECOPY F)"
  unfolding op_CALLDATACOPY_def op_CODECOPY_def op_RETURNDATACOPY_def op_EXTCODECOPY_def
  by (intro journal_intros)+

lemma journal_pop_many [journal_intros]: "preserves journaled (pop_many n)"
  by (induction n) (auto intro!: journal_intros)

lemma journal_jump [journal_intros]: "preserves journaled (jump_to d g)"
  unfolding jump_to_def by (intro journal_intros journal_upd) simp

lemma journal_mem_steps [journal_intros]:
  "preserves journaled (mstore8_expand H n)" "preserves journaled (mcopy_buffer H a b c)"
  "preserves journaled (mcopy_expand H a b)" "preserves journaled (log_data H a b)"
  "preserves journaled (return_data H a b)"
proof -
  have split: "preserves journaled (\<lambda>m. if P m then c m else k m)"
    if "preserves journaled c" "preserves journaled k" for P and c k :: "'a exec"
    using that by (auto simp: preserves_def)
  have unit: "(\<lambda>m. if P m then c m else (Ok (), m)) = (\<lambda>m. if P m then c m else returnM () m)"
    for P and c :: "unit exec" by (rule HOL.ext) (simp add: returnM_def)
  show "preserves journaled (mstore8_expand H n)" "preserves journaled (mcopy_expand H a b)"
    unfolding mstore8_expand_def mcopy_expand_def unit by (intro split journal_intros)+
  show "preserves journaled (log_data H a b)" "preserves journaled (return_data H a b)"
    unfolding log_data_def return_data_def by (intro journal_intros)+
  have "preserves journaled (bindM (liftM (usize_sub H len a)) (\<lambda>copy.
       bindM (read_memory a (a + copy)) (\<lambda>bs.
         if copy \<le> b then returnM (bs @ replicate (b - copy) 0) else panicM)))" for len
    by (intro journal_intros)
  then show "preserves journaled (mcopy_buffer H a b c)"
    using journal_memory(1) [of a c] unfolding mcopy_buffer_def preserves_def by (auto split: if_splits)
qed

lemma journal_mem:
  "preserves journaled (op_POP F)" "preserves journaled (op_MLOAD F)" "preserves journaled (op_MSTORE F)"
  "preserves journaled (op_MSTORE8 F)" "preserves journaled (op_SLOAD F)" "preserves journaled (op_JUMP F)"
  "preserves journaled (op_JUMPI F)" "preserves journaled (op_PC F)" "preserves journaled (op_MSIZE F)"
  "preserves journaled (op_GAS F)" "preserves journaled (op_JUMPDEST F)" "preserves journaled (op_TLOAD F)"
  "preserves journaled (op_MCOPY F)" "preserves journaled (op_PUSH0 F)" "preserves journaled (op_PUSH F)"
  "preserves journaled (op_DUP F)" "preserves journaled (op_SWAP F)" "preserves journaled (op_LOG F)"
  "preserves journaled (op_RETURN F)" "preserves journaled (op_INVALID F)"
  "preserves journaled (op_SELFDESTRUCT F)"
  unfolding mem_op_defs op_MLOAD_def op_MSTORE_def op_MSTORE8_def op_MCOPY_def mcopy_body_def op_LOG_def
    op_RETURN_def return_body_def op_INVALID_def Let_def
  by (intro journal_intros journal_upd; simp)+

text \<open>The two writing instructions add the entry that undoes them.\<close>

lemma preserves_journaled_dep:
  assumes "preserves journaled c"
    and "\<And>m a m1 r m'. c m = (Ok a, m1) \<Longrightarrow> f a m1 = (r, m') \<Longrightarrow> settled r \<Longrightarrow> journaled m1 m'"
  shows "preserves journaled (bindM c f)"
  unfolding preserves_def
proof (intro allI impI)
  fix m r m' assume b: "bindM c f m = (r, m')" and r: "settled r"
  from b show "journaled m m'"
  proof (cases rule: bindM_outcome)
    case (ok a m1)
    then show ?thesis
      using journal.R_trans [OF preservesD [OF assms(1) ok(1)] assms(2) [OF ok r]] by simp
  qed (use r preservesD [OF assms(1), of m] in auto)
qed

lemma ext_put_persist:
  assumes "ext_put H a k v x = (r, x')"
  shows "r = Ok ()" "persist x' = undo (T_SetState a k v w b) (persist x)"
    "dom (x_state x) \<subseteq> dom (x_state x')" "x_remote x' = x_remote x" "x_tx_ctx x' = x_tx_ctx x"
proof -
  let ?y = "set_slot a k v x"
  obtain acc where "x_state ?y a = Some acc" "a_state acc k = Some v"
    by (simp add: set_slot_def Let_def)
  then have "ext_get H a k ?y = (Ok v, note_original a k v ?y)" by (simp add: ext_get_present)
  then have put: "r = Ok () \<and> (x' = ?y \<or> x' = note_original a k v ?y)"
    using assms by (auto simp: ext_put_def monad_defs split: if_splits)
  then show "r = Ok ()" by simp
  have "neutral ?y (note_original a k v ?y)"
    by (rule neutral_same_views) (simp_all add: note_original_same)
  with put have "neutral ?y x'" using state.R_refl by auto
  then show "persist x' = undo (T_SetState a k v w b) (persist x)"
    "dom (x_state x) \<subseteq> dom (x_state x')" "x_remote x' = x_remote x" "x_tx_ctx x' = x_tx_ctx x"
    using persist_set_slot [of a k v x w b] set_slot_same [of a k v x] by (auto simp: neutral_def)
qed

lemma undo_put:
  assumes "storage_view x (a, k) = Some v"
  shows "undo (T_SetState a k v w b) (undo (T_SetState a k w' u c) (persist x)) = persist x"
  using assms by (auto simp: persist_def)

lemma sstore_commit_journaled:
  assumes val: "storage_view (m_ext m) (frame_this F, key) = Some val"
    and run: "sstore_commit F key original val new is_warm m = (r, m')" "settled r"
  shows "journaled m m'"
proof -
  let ?A = "frame_this F"
  obtain r1 x' where put: "ext_put (f_host F) ?A key new (m_ext m) = (r1, x')" by fastforce
  note p = ext_put_persist [OF put]
  have restored: "undo (T_SetState ?A key val new is_warm) (persist x') = persist (m_ext m)"
    unfolding p(2) [of 0 False] by (rule undo_put [OF val])
  have halt: "preserves journaled (seqM (trace_opcode F True c) (returnM (Halt 0)))" for c
    by (intro journal_intros)
  show ?thesis
  proof (cases "m_remaining m + sstore_refund original val new < 0
      \<or> m_remaining m < sstore_cost original val new is_warm")
    case True
    then show ?thesis using run preservesD [OF halt, of _ m]
      by (auto simp: sstore_commit_def Let_def bindM_def getsM_def split: if_splits)
  next
    case False
    then have "m_ext m' = x'"
      "e_touches (m_evm m') = e_touches (m_evm m) @ [T_SetState ?A key val new is_warm]"
      using run(1) put p(1)
      by (auto simp: sstore_commit_def Let_def evm_put_def on_ext_def upd_evm_def touch_def
          trace_push_def next_pc_eq monad_defs gas_add_refund_def)
    then show ?thesis using p(3-5) restored by (auto simp: journaled_def)
  qed
qed

lemma evm_get_view:
  assumes "evm_get H a k m = (Ok v, m')"
  shows "storage_view (m_ext m') (a, k) = Some v"
proof -
  from assms obtain x' where "ext_get H a k (m_ext m) = (Ok v, x')" "m_ext m' = x'"
    by (auto simp: evm_get_def on_ext_def evm_error_eq split: prod.splits res.splits)
  with ext_get_view(1) [OF this(1)] ext_get_view(2) [OF this(1) refl] show ?thesis by simp
qed

lemma journal_SSTORE: "preserves journaled (op_SSTORE F)"
proof -
  have "preserves journaled (bindM (evm_get (f_host F) (frame_this F) key) (\<lambda>val.
      bindM (getsM (\<lambda>m. case x_original (m_ext m) (frame_this F, key) of Some v \<Rightarrow> v | None \<Rightarrow> 0))
        (\<lambda>original. sstore_commit F key original val new is_warm)))" for key new is_warm
    by (rule preserves_journaled_dep [OF journal_get])
      (auto simp: bindM_def getsM_def dest: evm_get_view intro: sstore_commit_journaled)
  note tail = this
  show ?thesis unfolding op_SSTORE_def Let_def by (rule tail journal_intros)+
qed

lemma tstore_journaled:
  "preserves journaled (bindM (getsM (\<lambda>m. case x_transient (m_ext m) (a, k) of Some v \<Rightarrow> v | None \<Rightarrow> 0))
      (\<lambda>old. seqM (on_ext (modifyM (\<lambda>x. x\<lparr>x_transient := (x_transient x)((a, k) \<mapsto> val)\<rparr>)))
        (touch (T_SetTransientState a k old val))))"
proof -
  have view: "storage_view (x\<lparr>x_transient := t\<rparr>) = storage_view x" for x t
    by (auto simp: storage_view_def cached_slot_def fun_eq_iff split: option.split)
  have "(transient_view (x\<lparr>x_transient := (x_transient x)((a, k) \<mapsto> val)\<rparr>))
      ((a, k) := (case x_transient x (a, k) of Some v \<Rightarrow> v | None \<Rightarrow> 0)) = transient_view x" for x
    by (auto simp: transient_view_def fun_eq_iff)
  with view show ?thesis
    by (auto simp: preserves_def monad_defs on_ext_def touch_def upd_evm_def journaled_def persist_def)
qed

lemma journal_TSTORE: "preserves journaled (op_TSTORE F)"
  unfolding op_TSTORE_def Let_def by (rule tstore_journaled journal_intros)+

end
