(* ===== verification/ExecutorLaws.thy ===== *)
theory ExecutorLaws
  imports Executor CallLaws
begin

text \<open>
  The laws of the interpreter in a build with overflow checks. Every instruction is
  \<open>lawful\<close>; every turn of the loop that goes on has used at least one unit of gas, or has
  stopped the frame; hence the loop ends, uses no more gas than its limit, and keeps the stack
  and memory invariant. The nested frames are the loop itself with less fuel: the locale
  \<open>sub_executor\<close> is interpreted on it.
\<close>

context sub_executor begin

lemma lawful_table:
  assumes "overflow_checks (f_host F)"
  shows "list_all (\<lambda>(c, h). unat (f_op F) = c \<longrightarrow> lawful N F (h F)) (op_table exec)"
proof -
  have invalid: "unat (f_op F) = 254 \<Longrightarrow> lawful N F (op_INVALID F)"
    by (rule lawful_INVALID) (simp add: word_unat_eq_iff)
  note metered = metered_copies metered_memory metered_MSTORE8 [OF assms]
  note priced = priced_arith priced_logic priced_env priced_block priced_storage priced_flow
  show ?thesis
    unfolding op_table_def list.pred_inject prod.case
    by (intro conjI impI TrueI
        lawful_calls lawful_STOP lawful_RETURN invalid priced [THEN priced_lawful]
        metered [THEN metered_lawful] balanced_lawful [OF balanced_MCOPY [OF assms]])
      (assumption | simp)+
qed

lemma lawful_instruction:
  assumes "overflow_checks (f_host F)"
  shows "lawful N F (execute_instruction exec F)"
proof -
  have "lawful N F (h F)" if "map_of (op_table exec) (unat (f_op F)) = Some h" for h
    using lawful_table [OF assms] map_of_SomeD [OF that] by (auto simp: list_all_iff)
  then show ?thesis
    unfolding execute_instruction_def Let_def
    by (auto intro: priced_lawful priced_flow balanced_lawful [OF balanced_LOG [OF assms]] lawful_throw
        split: option.split)
qed

end

section \<open>One turn of the loop\<close>

lemma drain_gas_eq: "drain_gas m =
    (Ok (), m\<lparr>m_evm := (m_evm m)\<lparr>e_gas := (m_gas m)\<lparr>g_used := g_limit (m_gas m)\<rparr>\<rparr>\<rparr>)"
  by (simp add: drain_gas_def gas_sub_def gas_remaining_def)

lemmas turn_defs = trace_step_def trace_opcode_def trace_push_def stop_reverted_def
  halted_def upd_evm_def monad_defs Let_def

lemma after_step_Halt:
  "\<exists>m'. after_step F (Halt c) m = (Ok (Finish []), m') \<and> g_used (m_gas m') = g_limit (m_gas m) \<and>
     g_limit (m_gas m') = g_limit (m_gas m)"
  by (auto simp: after_step_def turn_defs drain_gas_eq)

lemma failed_step_eq:
  "\<exists>m'. failed_step F m = (Ok (Finish []), m') \<and> g_used (m_gas m') = g_limit (m_gas m) \<and>
     g_limit (m_gas m') = g_limit (m_gas m)"
  by (auto simp: failed_step_def turn_defs evm_gas_eq gas_remaining_def)

lemma after_step_StepOk:
  assumes "f_op F \<noteq> 0xfe"
  shows "\<exists>t m'. after_step F (StepOk c) m = (Ok t, m') \<and> g_limit (m_gas m') = g_limit (m_gas m) \<and>
     (if c \<le> m_remaining m
      then t = (if f_op F = 0xff then Finish [] else Continue) \<and>
        g_used (m_gas m') = g_used (m_gas m) + c \<and>
        e_stopped (m_evm m') = e_stopped (m_evm m) \<and> (frame_inv m \<longrightarrow> frame_inv m')
      else t = Finish [] \<and> g_used (m_gas m') = g_limit (m_gas m))"
  using assms
  by (auto simp: after_step_def turn_defs evm_gas_eq error_evm_def gas_remaining_def frame_inv_def)

lemma after_step_INVALID:
  assumes "f_op F = 0xfe"
  shows "\<exists>m'. after_step F (StepOk c) m = (Ok (Finish []), m') \<and>
     g_used (m_gas m') = g_limit (m_gas m) \<and> g_limit (m_gas m') = g_limit (m_gas m)"
  using assms by (auto simp: after_step_def turn_defs drain_gas_eq)

text \<open>What a turn promises: \<open>between\<close> bounds the gas used after it.\<close>

definition turn_ok :: "nat \<Rightarrow> machine \<Rightarrow> (turn, exec_error) res \<Rightarrow> machine \<Rightarrow> bool" where
  "turn_ok n m r m' \<longleftrightarrow>
     g_limit (m_gas m') = g_limit (m_gas m) \<and> (m_remaining m + 1 \<le> int n \<longrightarrow> r \<noteq> OutOfFuel) \<and>
     (\<forall>e. r \<noteq> Err e) \<and>
     (\<forall>t. r = Ok t \<longrightarrow> g_used (m_gas m) \<le> g_used (m_gas m') \<and> g_used (m_gas m') \<le> g_limit (m_gas m)) \<and>
     (r = Ok Continue \<longrightarrow> frame_inv m' \<and>
        (e_stopped (m_evm m') \<or> g_used (m_gas m) + 1 \<le> g_used (m_gas m')))"

context sub_executor begin

lemma turn_ok:
  assumes "overflow_checks (f_host F)" "frame_inv m" "g_used (m_gas m) \<le> g_limit (m_gas m)"
    and "execute_turn exec F m = (r, m')"
  shows "turn_ok N m r m'"
proof -
  obtain r1 m1 where i: "execute_instruction exec F m = (r1, m1)" by fastforce
  note law = lawful_instruction [OF assms(1), unfolded lawful_def, rule_format, OF assms(2) i]
  show ?thesis
  proof (cases r1)
    case (Ok s)
    then have turn: "after_step F s m1 = (r, m')" using assms(4) i by (simp add: execute_turn_def catchM_def)
    show ?thesis
    proof (cases s)
      case (Halt c)
      with after_step_Halt [of F c m1] turn law assms(3) show ?thesis by (auto simp: turn_ok_def)
    next
      case (StepOk c)
      show ?thesis
      proof (cases "f_op F = 0xfe")
        case True
        with after_step_INVALID [OF True, of c m1] turn law StepOk assms(3) show ?thesis
          by (auto simp: turn_ok_def)
      next
        case False
        with law Ok StepOk have "frame_inv m1" and "g_used (m_gas m) + 1 \<le> g_used (m_gas m1) + c \<or>
            e_stopped (m_evm m1) \<and> g_used (m_gas m) \<le> g_used (m_gas m1) + c"
          by (auto simp: lawful_result_def)
        with after_step_StepOk [OF False, of c m1] turn law StepOk assms(3) show ?thesis
          by (auto simp: turn_ok_def gas_remaining_def split: if_splits)
      qed
    qed
  next
    case (Err e)
    with failed_step_eq [of F m1] assms(3,4) i law show ?thesis
      by (auto simp: turn_ok_def execute_turn_def catchM_def)
  qed (use assms(4) i law in \<open>auto simp: turn_ok_def execute_turn_def catchM_def\<close>)
qed

end

section \<open>The loop and the frame\<close>

definition frame_ok :: "nat \<Rightarrow> machine \<Rightarrow> (bytes, exec_error) res \<Rightarrow> machine \<Rightarrow> bool" where
  "frame_ok n m r m' \<longleftrightarrow>
     g_limit (m_gas m') = g_limit (m_gas m) \<and> (m_remaining m + 2 \<le> int n \<longrightarrow> r \<noteq> OutOfFuel) \<and>
     (\<forall>e. r \<noteq> Err e) \<and>
     (\<forall>bs. r = Ok bs \<longrightarrow> g_used (m_gas m) \<le> g_used (m_gas m') \<and> g_used (m_gas m') \<le> g_limit (m_gas m))"

lemma end_frame_eq: "\<exists>m'. end_frame code ctx m = (Ok (m_ret m), m') \<and> m_evm m' = m_evm m"
  by (auto simp: end_frame_def trace_push_def monad_defs)

lemma announce_call_eq:
  "\<exists>m1. announce_call call ctx m = (Ok (), m1) \<and> m_gas m1 = m_gas m \<and> m_memory m1 = m_memory m \<and>
     m_stack m1 = m_stack m \<and> e_mem_cost (m_evm m1) = e_mem_cost (m_evm m)"
  by (auto simp: announce_call_def warm_touch_def trace_push_def on_ext_def warm_address_def touch_def
      upd_evm_def monad_defs)

lemma enter_frame_ok:
  assumes loop: "\<And>code call ctx m r m'. frame_inv m \<Longrightarrow> g_used (m_gas m) \<le> g_limit (m_gas m) \<Longrightarrow>
      loop code call ctx m = (r, m') \<Longrightarrow> frame_ok n m r m'"
    and inv: "frame_inv m" "g_used (m_gas m) \<le> g_limit (m_gas m)"
    and run: "enter_frame loop code call ctx m = (r, m')"
  shows "frame_ok n m r m'"
proof -
  obtain m1 where m1: "announce_call call ctx m = (Ok (), m1)" and gas: "m_gas m1 = m_gas m"
    and same: "m_memory m1 = m_memory m" "m_stack m1 = m_stack m"
      "e_mem_cost (m_evm m1) = e_mem_cost (m_evm m)"
    using announce_call_eq [of call ctx m] by blast
  have inv1: "frame_inv m1" "g_used (m_gas m1) \<le> g_limit (m_gas m1)"
    using inv same gas by (simp_all add: frame_inv_def)
  show ?thesis
  proof (cases "k_depth ctx > call_depth_limit")
    case True
    with run m1 inv(2) gas show ?thesis
      by (auto simp: enter_frame_def seqM_def bindM_def stop_reverted_def upd_evm_def modifyM_def
          returnM_def frame_ok_def)
  next
    case False
    with run m1 have "loop code call ctx m1 = (r, m')" by (simp add: enter_frame_def seqM_def bindM_def)
    from loop [OF inv1 this] show ?thesis using gas by (simp add: frame_ok_def)
  qed
qed

lemma inner_evm_inv: "0 \<le> g \<Longrightarrow>
    frame_inv \<lparr>m_evm = inner_evm g, m_ext = x, m_ret = [], m_trace = tr\<rparr>"
  by (simp add: frame_inv_def inner_evm_def evm_default_def mem_words_cost_def div_ceil_def)

lemma sub_executor_enter:
  assumes "\<And>code call ctx m r m'. frame_inv m \<Longrightarrow> g_used (m_gas m) \<le> g_limit (m_gas m) \<Longrightarrow>
      loop code call ctx m = (r, m') \<Longrightarrow> frame_ok n m r m'"
  shows "sub_executor (enter_frame loop) n"
proof -
  have ok: "frame_ok n \<lparr>m_evm = inner_evm g, m_ext = x, m_ret = [], m_trace = tr\<rparr> r m'"
    if "0 \<le> g" "enter_frame loop code call ctx
      \<lparr>m_evm = inner_evm g, m_ext = x, m_ret = [], m_trace = tr\<rparr> = (r, m')"
    for g code call ctx x tr r m'
    by (rule enter_frame_ok [OF _ inner_evm_inv [OF that(1)] _ that(2)])
      (use that(1) in \<open>auto intro: assms simp: inner_evm_def gas_new_def\<close>)
  show ?thesis
    by unfold_locales
      (use ok in \<open>force simp: frame_ok_def inner_evm_def gas_new_def gas_remaining_def\<close>)+
qed

lemma run_loop_ok:
  assumes "overflow_checks H"
  shows "frame_inv m \<Longrightarrow> g_used (m_gas m) \<le> g_limit (m_gas m) \<Longrightarrow>
    run_loop n H hdr code call ctx m = (r, m') \<Longrightarrow> frame_ok n m r m'"
proof (induction n arbitrary: code call ctx m r m')
  case 0
  then show ?case by (auto simp: frame_ok_def gas_remaining_def)
next
  case (Suc n)
  have sub: "sub_executor (enter_frame (run_loop n H hdr)) n"
    by (rule sub_executor_enter) (rule Suc.IH)
  show ?case
  proof (cases "\<not> e_stopped (m_evm m) \<and> e_pc (m_evm m) < length (bc_instructions code)")
    case False
    with Suc.prems end_frame_eq [of code ctx m] show ?thesis by (auto simp: frame_ok_def)
  next
    case True
    let ?F = "\<lparr>f_host = H, f_header = hdr, f_code = code, f_call = call, f_ctx = ctx,
                  f_instr = bc_instructions code ! e_pc (m_evm m)\<rparr>"
    obtain r1 m1 where turn: "execute_turn (enter_frame (run_loop n H hdr)) ?F m = (r1, m1)" by fastforce
    have ok: "turn_ok n m r1 m1"
      by (rule sub_executor.turn_ok [OF sub _ Suc.prems(1,2) turn]) (simp add: assms)
    show ?thesis
    proof (cases "r1 = Ok Continue")
      case cont: True
      with True turn Suc.prems(3) have rest: "run_loop n H hdr code call ctx m1 = (r, m')"
        by (simp add: bindM_def)
      from cont ok Suc.IH [OF _ _ rest] have "frame_ok n m1 r m'" by (auto simp: turn_ok_def)
      moreover have "r \<noteq> OutOfFuel" if "e_stopped (m_evm m1)" "0 < n"
        using that rest end_frame_eq [of code ctx m1] by (cases n) auto
      ultimately show ?thesis using ok cont Suc.prems(2)
        by (auto simp: turn_ok_def frame_ok_def gas_remaining_def)
    next
      case False
      with True turn Suc.prems(3) ok show ?thesis
        by (cases r1) (auto simp: bindM_def returnM_def turn_ok_def frame_ok_def split: turn.splits)
    qed
  qed
qed

lemma execute_with_context_ok:
  assumes "overflow_checks H" "frame_inv m" "g_used (m_gas m) \<le> g_limit (m_gas m)"
    and "execute_with_context n H hdr code call ctx m = (r, m')"
  shows "frame_ok n m r m'"
  using enter_frame_ok [OF run_loop_ok [OF assms(1)] assms(2,3)] assms(4)
  by (simp add: execute_with_context_def)

lemma sub_executor_loop: "overflow_checks H \<Longrightarrow> sub_executor (execute_with_context n H hdr) n"
  unfolding execute_with_context_def by (rule sub_executor_enter) (rule run_loop_ok)

text \<open>The interpreter of a build with overflow checks, as the provider of nested frames.\<close>

definition checked :: "host \<Rightarrow> host" where
  "checked H = H\<lparr>overflow_checks := True\<rparr>"

interpretation frames: sub_executor "execute_with_context n (checked H) hdr" n
  by (rule sub_executor_loop) (simp add: checked_def)

lemma checked_id: "overflow_checks H \<Longrightarrow> checked H = H"
  by (simp add: checked_def)

end
