(* ===== verification/JournalLaws.thy ===== *)
theory JournalLaws
  imports Journal ExecutorLaws
begin

text \<open>
  The journal of calls and of whole frames. A nested frame changes the shared world state
  before the caller records anything; the caller then either appends the nested journal to
  its own, or rolls it back and keeps only the entries that do not undo anything. Either way
  its own journal stays complete. The locale \<open>journaling_executor\<close> extends
  \<open>sub_executor\<close> by that promise of a nested frame, and is interpreted on the interpreter.
\<close>

section \<open>Triples with the journal\<close>

definition room :: "int \<Rightarrow> machine \<Rightarrow> bool" where
  "room k m \<longleftrightarrow> int (length (m_stack m)) \<le> k"

definition jvalid :: "(machine \<Rightarrow> bool) \<Rightarrow> 'a exec \<Rightarrow> ('a \<Rightarrow> machine \<Rightarrow> bool) \<Rightarrow> bool" where
  "jvalid P c Q \<longleftrightarrow> (\<forall>m r m'. P m \<longrightarrow> c m = (r, m') \<longrightarrow> settled r \<longrightarrow>
     journaled m m' \<and> (\<forall>a. r = Ok a \<longrightarrow> Q a m'))"

lemma jvalidI:
  assumes "\<And>m r m'. P m \<Longrightarrow> c m = (r, m') \<Longrightarrow> settled r \<Longrightarrow> journaled m m'"
    and "\<And>m a m'. P m \<Longrightarrow> c m = (Ok a, m') \<Longrightarrow> Q a m'"
  shows "jvalid P c Q"
  using assms unfolding jvalid_def by blast

lemma jvalid_bind:
  assumes "jvalid P c Q" and "\<And>a. jvalid (Q a) (f a) R"
  shows "jvalid P (bindM c f) R"
  unfolding jvalid_def
proof (intro allI impI)
  fix m r m' assume P: "P m" and b: "bindM c f m = (r, m')" and r: "settled r"
  from b show "journaled m m' \<and> (\<forall>a. r = Ok a \<longrightarrow> R a m')"
  proof (cases rule: bindM_outcome)
    case (ok a m1)
    then have "journaled m m1" "Q a m1" using assms(1) P by (auto simp: jvalid_def)
    moreover have "journaled m1 m' \<and> (\<forall>a. r = Ok a \<longrightarrow> R a m')"
      using assms(2) ok(2) r \<open>Q a m1\<close> by (auto simp: jvalid_def)
    ultimately show ?thesis using journal.R_trans by blast
  qed (use assms(1) P r in \<open>auto simp: jvalid_def\<close>)
qed

lemma jvalid_seq: "jvalid P c (\<lambda>_. Q) \<Longrightarrow> jvalid Q k R \<Longrightarrow> jvalid P (seqM c k) R"
  unfolding seqM_def by (rule jvalid_bind)

lemma jvalid_if:
  "(A \<Longrightarrow> jvalid P c Q) \<Longrightarrow> (\<not> A \<Longrightarrow> jvalid P k Q) \<Longrightarrow> jvalid P (if A then c else k) Q"
  by simp

lemma jvalid_conseq:
  "jvalid P c Q \<Longrightarrow> (\<And>m. P' m \<Longrightarrow> P m) \<Longrightarrow> (\<And>a m. Q a m \<Longrightarrow> Q' a m) \<Longrightarrow> jvalid P' c Q'"
  unfolding jvalid_def by blast

lemma jvalid_pre: "(A \<Longrightarrow> jvalid P c Q) \<Longrightarrow> jvalid (\<lambda>m. A \<and> P m) c Q"
  unfolding jvalid_def by blast

lemma jvalid_preserves: "preserves journaled c \<Longrightarrow> jvalid P c (\<lambda>_ _. True)"
  by (auto simp: jvalid_def preserves_def)

lemma jvalid_quiet_res:
  assumes "preserves journaled c" and "quiet g d c" and "k' = k + d"
    and "\<And>m a m'. c m = (Ok a, m') \<Longrightarrow> R a m'"
  shows "jvalid (room k) c (\<lambda>a m. R a m \<and> room k' m)"
proof (rule jvalidI)
  fix m r m' assume "c m = (r, m')" "settled r"
  then show "journaled m m'" by (rule preservesD [OF assms(1)])
next
  fix m a m' assume "room k m" "c m = (Ok a, m')"
  then show "R a m' \<and> room k' m'"
    using quiet_Ok [OF assms(2)] assms(3,4) by (force simp: room_def quiet_step_def)
qed

lemma jvalid_quiet:
  "preserves journaled c \<Longrightarrow> quiet g d c \<Longrightarrow> k' = k + d \<Longrightarrow> jvalid (room k) c (\<lambda>_. room k')"
  using jvalid_quiet_res [of c g d k' k "\<lambda>_ _. True"] by simp

section \<open>Steps that touch neither the world state nor the journal\<close>

definition still :: "machine \<Rightarrow> machine \<Rightarrow> bool" where
  "still m m' \<longleftrightarrow> m_ext m' = m_ext m \<and> e_touches (m_evm m') = e_touches (m_evm m) \<and>
     m_stack m' = m_stack m"

definition steady :: "'a exec \<Rightarrow> bool" where
  "steady c \<longleftrightarrow> (\<forall>m r m'. c m = (r, m') \<longrightarrow> settled r \<longrightarrow> is_Ok r \<and> still m m')"

lemma steadyD: "steady c \<Longrightarrow> c m = (r, m') \<Longrightarrow> settled r \<Longrightarrow> is_Ok r \<and> still m m'"
  by (simp add: steady_def)

lemma steady_steps:
  "steady (trace_join tr b)" "steady (set_ret bs)" "steady (charge_used k)" "steady (trace_call F n)"
  "steady (upd_evm (\<lambda>e. e\<lparr>e_refund := g_refund (e_gas e)\<rparr>))"
  "steady (upd_evm (\<lambda>e. let h = gas_add_refund k (e_gas e) in e\<lparr>e_gas := h, e_refund := g_refund h\<rparr>))"
  by (auto simp: steady_def trace_join_def set_ret_def charge_used_def trace_call_def trace_opcode_def
      trace_push_def upd_evm_def still_def monad_defs Let_def)

lemma steady_copy_return: "steady (copy_return H a ret)"
  by (auto simp: steady_def copy_return_def Let_def write_memory_def upd_evm_def still_def monad_defs
      usize_add_def split: if_splits)

section \<open>Settling a nested frame\<close>

definition same_world :: "machine \<Rightarrow> machine \<Rightarrow> bool" where
  "same_world m m' \<longleftrightarrow> dom (x_state (m_ext m)) \<subseteq> dom (x_state (m_ext m')) \<and>
     x_remote (m_ext m') = x_remote (m_ext m) \<and> x_tx_ctx (m_ext m') = x_tx_ctx (m_ext m)"

interpretation world: step_relation same_world
  by unfold_locales (auto simp: same_world_def)

text \<open>
  The nested frame is over and its journal has not been merged yet: undoing it would lead back
  to the world state of \<open>m0\<close>.
\<close>

definition pending :: "machine \<Rightarrow> evm \<Rightarrow> machine \<Rightarrow> bool" where
  "pending m0 inner m \<longleftrightarrow>
     (\<exists>ts. e_touches (m_evm m) = e_touches (m_evm m0) @ ts \<and> undo_all ts = (\<lambda>st. st)) \<and>
     undo_all (e_touches inner) (persist (m_ext m)) = persist (m_ext m0) \<and> same_world m0 m"

lemma pending_still: "pending m0 inner m \<Longrightarrow> still m m1 \<Longrightarrow> pending m0 inner m1"
  by (auto simp: pending_def still_def same_world_def)

lemma pendingE:
  assumes "pending m0 inner m"
  obtains ts where "e_touches (m_evm m) = e_touches (m_evm m0) @ ts" "\<And>st. undo_all ts st = st"
    "undo_all (e_touches inner) (persist (m_ext m)) = persist (m_ext m0)" "same_world m0 m"
  using assms by (auto simp: pending_def)

lemma pending_undo:
  "pending m0 inner m \<Longrightarrow> undo_all (e_touches inner) (persist (m_ext m)) = persist (m_ext m0)"
  by (simp add: pending_def)

lemma pending_journaled:
  assumes "pending m0 inner m" "e_touches (m_evm m') = e_touches (m_evm m) @ us"
    and "undo_all us (persist (m_ext m')) = persist (m_ext m0)" "same_world m m'"
  shows "journaled m0 m'"
  using assms(1)
proof (rule pendingE)
  fix ts assume ts: "e_touches (m_evm m) = e_touches (m_evm m0) @ ts" "\<And>st. undo_all ts st = st"
    "same_world m0 m"
  then have "e_touches (m_evm m') = e_touches (m_evm m0) @ (ts @ us) \<and>
      undo_all (ts @ us) (persist (m_ext m')) = persist (m_ext m0)" using assms(2,3) by simp
  then show ?thesis using ts(3) assms(4) unfolding journaled_def same_world_def by auto
qed

definition keeps_accounts :: "ext \<Rightarrow> ext \<Rightarrow> bool" where
  "keeps_accounts x x' \<longleftrightarrow> dom (x_state x) \<subseteq> dom (x_state x') \<and>
     x_remote x' = x_remote x \<and> x_tx_ctx x' = x_tx_ctx x"

interpretation accounts: step_relation keeps_accounts
  by unfold_locales (auto simp: keeps_accounts_def)

lemma neutral_keeps: "preserves neutral c \<Longrightarrow> preserves keeps_accounts c"
  by (auto simp: preserves_def neutral_def keeps_accounts_def)

lemma modify_keeps: "(\<And>x. keeps_accounts x (f x)) \<Longrightarrow> preserves keeps_accounts (modifyM f)"
  by (auto simp: preserves_def modifyM_def)

lemma revert_touch_keeps: "preserves keeps_accounts (revert_touch t)"
proof -
  have "preserves keeps_accounts (modifyM (set_slot a k v))"
    "preserves keeps_accounts (modifyM (\<lambda>x. x\<lparr>x_accessed_storage := f x\<rparr>))"
    "preserves keeps_accounts (modifyM (\<lambda>x. x\<lparr>x_accessed_addresses := g x\<rparr>))"
    "preserves keeps_accounts (modifyM (\<lambda>x. x\<lparr>x_transient := h x\<rparr>))" for a k v f g h
    by (rule modify_keeps; auto simp: keeps_accounts_def set_slot_def Let_def)+
  then show ?thesis
    by (cases t)
      (auto intro!: accounts.preserves_seq accounts.preserves_pure neutral_setters [THEN neutral_keeps])
qed

lemma revert_all_keeps: "preserves keeps_accounts (revert_all ts)"
  by (induction ts) (auto intro!: accounts.preserves_seq accounts.preserves_pure revert_touch_keeps)

lemma evm_revert_settled: "evm_revert e x = (r, x') \<Longrightarrow> settled r \<Longrightarrow> r = Ok ()"
proof -
  have touch: "revert_touch t x = (r, x') \<Longrightarrow> settled r \<Longrightarrow> is_Ok r" for t x x' and r :: "(unit, exec_error) res"
    by (cases t) (auto simp: monad_defs set_value_def set_nonce_def set_code_def account_upd_def
        split: if_splits option.splits)
  have "revert_all ts x = (r, x') \<Longrightarrow> settled r \<Longrightarrow> is_Ok r" for ts x x' and r :: "(unit, exec_error) res"
  proof (induction ts arbitrary: x)
    case (Cons t ts)
    from Cons.prems(1) [unfolded revert_all.simps seqM_def] show ?case
      by (cases rule: bindM_outcome) (use Cons touch in \<open>auto dest: touch\<close>)
  qed (auto simp: returnM_def)
  then show "evm_revert e x = (r, x') \<Longrightarrow> settled r \<Longrightarrow> r = Ok ()"
    unfolding evm_revert_def by (cases r) fastforce+
qed

text \<open>
  Computations that merge or roll back the journal of the nested frame, when the accounts \<open>A\<close>
  are loaded and the stack has room for the result.
\<close>

abbreviation loaded :: "addr160 set \<Rightarrow> machine \<Rightarrow> bool" where
  "loaded A m \<equiv> A \<subseteq> dom (x_state (m_ext m))"

definition settles :: "addr160 set \<Rightarrow> evm \<Rightarrow> 'a exec \<Rightarrow> bool" where
  "settles A inner c \<longleftrightarrow> (\<forall>m0 m r m'. pending m0 inner m \<longrightarrow> loaded A m \<longrightarrow> room 1023 m \<longrightarrow>
     c m = (r, m') \<longrightarrow> settled r \<longrightarrow> journaled m0 m')"

lemma settlesI:
  "(\<And>m0 m r m'. pending m0 inner m \<Longrightarrow> loaded A m \<Longrightarrow> room 1023 m \<Longrightarrow> c m = (r, m') \<Longrightarrow> settled r \<Longrightarrow>
      journaled m0 m') \<Longrightarrow> settles A inner c"
  by (simp add: settles_def)

lemma settlesD:
  "settles A inner c \<Longrightarrow> pending m0 inner m \<Longrightarrow> loaded A m \<Longrightarrow> room 1023 m \<Longrightarrow> c m = (r, m') \<Longrightarrow>
     settled r \<Longrightarrow> journaled m0 m'"
  by (simp add: settles_def)

lemma settles_steady:
  assumes "steady c" "settles A inner k"
  shows "settles A inner (seqM c k)"
proof (rule settlesI)
  fix m0 m r m' assume p: "pending m0 inner m" "loaded A m" "room 1023 m"
    and run: "seqM c k m = (r, m')" "settled r"
  from run(1) [unfolded seqM_def] show "journaled m0 m'"
  proof (cases rule: bindM_outcome)
    case (ok a m1)
    with steadyD [OF assms(1)] have "still m m1" by (metis settled_simps(1))
    with p have "pending m0 inner m1" "loaded A m1" "room 1023 m1"
      by (auto intro: pending_still simp: still_def room_def)
    then show ?thesis using settlesD [OF assms(2)] ok(2) run(2) by blast
  next
    case (err e)
    with steadyD [OF assms(1)] show ?thesis by (metis is_Ok.simps(2) settled_simps(2))
  qed (use run(2) in auto)
qed

lemma settles_if: "(b \<Longrightarrow> settles A i c) \<Longrightarrow> (\<not> b \<Longrightarrow> settles A i k) \<Longrightarrow> settles A i (if b then c else k)"
  by simp

lemma settles_extend:
  assumes "preserves journaled k"
  shows "settles A inner (seqM (extend_touches (e_touches inner)) k)"
proof (rule settlesI)
  fix m0 m r m' assume p: "pending m0 inner m"
    and run: "seqM (extend_touches (e_touches inner)) k m = (r, m')" "settled r"
  let ?m1 = "m\<lparr>m_evm := (m_evm m)\<lparr>e_touches := e_touches (m_evm m) @ e_touches inner\<rparr>\<rparr>"
  have "k ?m1 = (r, m')"
    using run(1) by (simp add: seqM_def bindM_def extend_touches_def upd_evm_def modifyM_def)
  then have "journaled ?m1 m'" by (rule preservesD [OF assms _ run(2)])
  moreover have "journaled m0 ?m1"
    by (rule pending_journaled [OF p, of _ "e_touches inner"])
      (simp_all add: pending_undo [OF p] same_world_def)
  ultimately show "journaled m0 m'" using journal.R_trans by blast
qed

lemma settles_create_failed: "settles A inner (create_failed inner)"
proof (rule settlesI)
  fix m0 m r m' assume p: "pending m0 inner m" and room: "room 1023 m"
    and run: "create_failed inner m = (r, m')" "settled r"
  let ?m1 = "m\<lparr>m_evm := (m_evm m)\<lparr>e_stack := m_stack m @ [0]\<rparr>\<rparr>"
  obtain r1 x where rev: "evm_revert inner (m_ext m) = (r1, x)" by fastforce
  have run': "seqM (on_ext (evm_revert inner)) (extend_touches (filter survives_revert (e_touches inner))) ?m1
      = (r, m')"
    using room run(1) by (simp add: create_failed_def seqM_def bindM_def evm_push_eq room_def)
  have "r1 \<noteq> Panic" "r1 \<noteq> OutOfFuel"
    using run' run(2) rev by (auto simp: seqM_def bindM_def on_ext_def)
  then have ok: "r1 = Ok ()" using evm_revert_settled [OF rev] by (simp add: settled_def)
  then have end_state: "m_ext m' = x"
      "e_touches (m_evm m') = e_touches (m_evm m) @ filter survives_revert (e_touches inner)"
    using run' rev
    by (simp_all add: seqM_def bindM_def on_ext_def extend_touches_def upd_evm_def modifyM_def) auto
  have "keeps_accounts (m_ext m) x"
    by (rule preservesD [OF revert_all_keeps rev [unfolded evm_revert_def]]) (simp add: ok)
  then have "same_world m m'" by (simp add: same_world_def keeps_accounts_def end_state(1))
  moreover have "persist x = persist (m_ext m0)"
    using evm_revert_persist [OF rev [unfolded ok]] pending_undo [OF p] by simp
  ultimately show "journaled m0 m'"
    by (intro pending_journaled [OF p end_state(2)]) (simp_all add: end_state(1) undo_survivors)
qed

lemma settles_settle_call: "settles A inner (settle_call inner ret)"
  unfolding settle_call_def create_failed_def [symmetric]
  by (intro settles_if settles_steady steady_steps settles_create_failed settles_extend journal_intros)

lemma settles_finish_call: "settles A inner (finish_call F a tot ret inner tr)"
  unfolding finish_call_def
  by (intro settles_steady steady_steps steady_copy_return settles_settle_call)

section \<open>Deploying a contract\<close>

definition calm :: "machine \<Rightarrow> machine \<Rightarrow> bool" where
  "calm m m' \<longleftrightarrow> neutral (m_ext m) (m_ext m') \<and> m_stack m' = m_stack m \<and>
     (\<exists>ts. e_touches (m_evm m') = e_touches (m_evm m) @ ts \<and> undo_all ts = (\<lambda>st. st))"

interpretation calm: step_relation calm
proof
  fix m show "calm m m"
    unfolding calm_def by (intro conjI state.R_refl refl exI [of _ "[]"]) (auto simp: fun_eq_iff)
next
  fix m m1 m2 assume a: "calm m m1" and b: "calm m1 m2"
  from a b obtain ts us where ts: "e_touches (m_evm m1) = e_touches (m_evm m) @ ts" "undo_all ts = (\<lambda>st. st)"
    and us: "e_touches (m_evm m2) = e_touches (m_evm m1) @ us" "undo_all us = (\<lambda>st. st)"
    unfolding calm_def by blast
  have "undo_all (ts @ us) = (\<lambda>st. st)" by (rule HOL.ext) (simp add: ts(2) us(2))
  moreover have "e_touches (m_evm m2) = e_touches (m_evm m) @ (ts @ us)" by (simp add: ts(1) us(1))
  ultimately show "calm m m2" using a b unfolding calm_def by (metis state.R_trans)
qed

lemma pending_calm:
  assumes p: "pending m0 inner m" and c: "calm m m1"
  shows "pending m0 inner m1"
proof -
  from p obtain ts where ts: "e_touches (m_evm m) = e_touches (m_evm m0) @ ts" "undo_all ts = (\<lambda>st. st)"
    unfolding pending_def by blast
  from c obtain us where us: "e_touches (m_evm m1) = e_touches (m_evm m) @ us" "undo_all us = (\<lambda>st. st)"
    unfolding calm_def by blast
  have "undo_all (ts @ us) = (\<lambda>st. st)" by (rule HOL.ext) (simp add: ts(2) us(2))
  then have "\<exists>vs. e_touches (m_evm m1) = e_touches (m_evm m0) @ vs \<and> undo_all vs = (\<lambda>st. st)"
    using ts(1) us(1) by (intro exI [of _ "ts @ us"]) simp
  moreover have "same_world m0 m1" "persist (m_ext m1) = persist (m_ext m)"
    using world.R_trans [of m0 m m1] p c by (auto simp: pending_def calm_def neutral_def same_world_def)
  ultimately show ?thesis using pending_undo [OF p] by (simp only: pending_def simp_thms)
qed

lemma calm_touch: "(\<And>st. undo t st = st) \<Longrightarrow> preserves calm (touch t)"
  unfolding preserves_def calm_def touch_def upd_evm_def modifyM_def
  by (auto simp: state.R_refl fun_eq_iff intro!: exI [of _ "[t]"])

lemma calm_on_ext: "preserves neutral c \<Longrightarrow> preserves calm (on_ext c)"
  unfolding preserves_def calm_def on_ext_def
  by (auto simp: fun_eq_iff split: prod.splits intro!: exI [of _ "[]"])

lemma calm_trace: "preserves calm (trace_push d n b)"
  unfolding preserves_def calm_def trace_push_def modifyM_def
  by (auto simp: state.R_refl fun_eq_iff intro!: exI [of _ "[]"])

lemma calm_deploy_account: "preserves calm (deploy_account F created val code)"
  unfolding deploy_account_def move_value_def Let_def
  by (intro calm.preserves_bind calm.preserves_seq calm.preserves_branch calm.preserves_pure calm_on_ext
      calm_touch calm_trace neutral_reads neutral_setters) simp_all

text \<open>Reads and updates of loaded accounts do not fail with an \<open>Err\<close>.\<close>

definition sure :: "addr160 set \<Rightarrow> 'a exec \<Rightarrow> bool" where
  "sure A c \<longleftrightarrow> (\<forall>m r m'. loaded A m \<longrightarrow> c m = (r, m') \<longrightarrow> (\<forall>e. r \<noteq> Err e) \<and> loaded A m')"

lemma sure_bind:
  assumes "sure A c" "\<And>a. sure A (f a)"
  shows "sure A (bindM c f)"
  unfolding sure_def
proof (intro allI impI)
  fix m r m' assume l: "loaded A m" and b: "bindM c f m = (r, m')"
  note c = assms(1) [unfolded sure_def, rule_format, OF l]
  from b show "(\<forall>e. r \<noteq> Err e) \<and> loaded A m'"
  proof (cases rule: bindM_outcome)
    case (ok a m1)
    with c [OF ok(1)] assms(2) [unfolded sure_def] show ?thesis by blast
  qed (use c in auto)
qed

lemma sure_seq: "sure A c \<Longrightarrow> sure A k \<Longrightarrow> sure A (seqM c k)"
  unfolding seqM_def by (rule sure_bind)

lemma sure_steps:
  "sure A (returnM a)" "sure A (touch t)" "sure A (trace_push d n b)"
  by (auto simp: sure_def returnM_def touch_def upd_evm_def trace_push_def modifyM_def)

lemma sure_arith:
  "sure A (liftM (word_sub v w))" "sure A (liftM (word_add v w))"
  by (auto simp: sure_def liftM_def word_sub_def word_add_def Let_def split: if_splits)

lemma sure_accounts:
  assumes "a \<in> A"
  shows "sure A (on_ext (ext_code H a))" "sure A (on_ext (ext_balance H a))"
    "sure A (on_ext (set_code a c))" "sure A (on_ext (set_nonce a v))" "sure A (on_ext (set_value a v))"
  using assms
  by (auto simp: sure_def on_ext_def ext_code_def ext_balance_def set_code_def set_nonce_def set_value_def
      account_upd_def split: option.splits prod.splits)

lemma sure_deploy_account:
  "sure {frame_this F, created} (deploy_account F created val code)"
  unfolding deploy_account_def move_value_def Let_def
  by (auto intro!: sure_bind sure_seq sure_steps sure_arith sure_accounts)

lemma settles_deploy: "settles {frame_this F, created} inner (deploy F created val inner code)"
proof (rule settlesI)
  fix m0 m r m' assume p: "pending m0 inner m" "loaded {frame_this F, created} m" "room 1023 m"
    and run: "deploy F created val inner code m = (r, m')" "settled r"
  let ?tail = "seqM (upd_evm (\<lambda>e. let g = gas_add_refund (g_refund (e_gas inner)) (e_gas e)
                in e\<lparr>e_gas := g, e_refund := g_refund g\<rparr>))
         (seqM (extend_touches (e_touches inner)) (evm_push (word_of_addr created)))"
  have tail: "settles {} inner ?tail"
    by (intro settles_steady steady_steps settles_extend journal_intros)
  from run(1) [unfolded deploy_def seqM_def [of "deploy_account F created val code"]]
  show "journaled m0 m'"
  proof (cases rule: bindM_outcome)
    case (ok a m1)
    then have "calm m m1" by (intro preservesD [OF calm_deploy_account ok(1)]) simp
    with p have "pending m0 inner m1" "room 1023 m1"
      by (auto intro: pending_calm simp: calm_def room_def)
    then show ?thesis using settlesD [OF tail _ _ _ ok(2) run(2)] by simp
  next
    case (err e)
    with sure_deploy_account p(2) show ?thesis unfolding sure_def by blast
  qed (use run(2) in auto)
qed

lemma settles_mono: "settles A inner c \<Longrightarrow> A \<subseteq> B \<Longrightarrow> settles B inner c"
  unfolding settles_def by blast

lemma settles_settle_create:
  "settles {frame_this F, created} inner (settle_create F created val base g inner code)"
  unfolding settle_create_def Let_def
  by (intro settles_if settles_steady steady_steps settles_create_failed settles_deploy)

section \<open>Calls and creations over a journaling executor\<close>

locale journaling_executor = sub_executor +
  assumes exec_journal: "0 \<le> g \<Longrightarrow>
      exec code call ctx \<lparr>m_evm = inner_evm g, m_ext = x, m_ret = [], m_trace = tr\<rparr> = (r, m') \<Longrightarrow>
      settled r \<Longrightarrow> is_Ok r \<and>
        journaled \<lparr>m_evm = inner_evm g, m_ext = x, m_ret = [], m_trace = tr\<rparr> m'"
begin

lemma run_inner_pending:
  assumes g: "0 \<le> g" and run: "run_inner exec code call ctx g m = (r, m')" "settled r"
  shows "\<exists>ret inner tr. r = Ok (ret, inner, tr) \<and> pending m inner m' \<and> m_stack m' = m_stack m"
proof -
  let ?i = "\<lparr>m_evm = inner_evm g, m_ext = m_ext m, m_ret = [], m_trace = log_fork (m_trace m)\<rparr>"
  obtain r1 m1 where e: "exec code call ctx ?i = (r1, m1)" by fastforce
  have s: "settled r1" using run e by (cases r1) (auto simp: run_inner_def)
  with exec_journal [OF g e] obtain ret where r1: "r1 = Ok ret" and j: "journaled ?i m1"
    by (cases r1) auto
  then have "r = Ok (ret, m_evm m1, m_trace m1)" "m' = m\<lparr>m_ext := m_ext m1\<rparr>"
    using run e by (auto simp: run_inner_def)
  moreover have "e_touches (m_evm ?i) = []" by (simp add: inner_evm_def evm_default_def)
  ultimately show ?thesis
    using j by (auto simp: pending_def journaled_def same_world_def fun_eq_iff)
qed

lemma jvalid_run:
  assumes "0 \<le> g" "\<And>ret inner tr. settles A inner (k ret inner tr)"
  shows "jvalid (\<lambda>m. loaded A m \<and> room 1023 m)
    (bindM (run_inner exec code call ctx g) (\<lambda>(ret, inner, tr). k ret inner tr)) (\<lambda>_ _. True)"
proof (rule jvalidI)
  fix m r m' assume p: "loaded A m \<and> room 1023 m" and r: "settled r"
    and b: "bindM (run_inner exec code call ctx g) (\<lambda>(ret, inner, tr). k ret inner tr) m = (r, m')"
  from b show "journaled m m'"
  proof (cases rule: bindM_outcome)
    case (ok a m1)
    from run_inner_pending [OF assms(1) ok(1)] obtain ret inner tr where a: "a = (ret, inner, tr)"
      and q: "pending m inner m1" "m_stack m1 = m_stack m" by auto
    then have "loaded A m1" "room 1023 m1" using p by (auto simp: pending_def same_world_def room_def)
    then show ?thesis using settlesD [OF assms(2) q(1)] ok(2) r by (simp add: a)
  next
    case (err e)
    with run_inner_pending [OF assms(1)] show ?thesis by fastforce
  qed (use r in auto)
qed simp

lemma journal_transfer: "preserves journaled (call_transfer F a)"
  unfolding call_transfer_def move_value_def Let_def by (intro journal_intros)

lemma jvalid_call_inner:
  assumes "0 \<le> g"
  shows "jvalid (room 1023) (call_inner exec F a t g tot data) (\<lambda>_ _. True)"
proof -
  have run: "jvalid (room 1023) (bindM (run_inner exec code call ctx g) (\<lambda>(ret, inner, tr).
      finish_call F a tot ret inner tr)) (\<lambda>_ _. True)" for code call ctx
    by (rule jvalid_conseq [OF jvalid_run [OF assms settles_finish_call, of "{}"]]) simp_all
  show ?thesis
    unfolding call_inner_def Let_def
    by (rule jvalid_seq [OF jvalid_quiet [OF journal_transfer quiet_call_transfer]],
        simp, rule jvalid_seq [OF jvalid_quiet [OF journal_trace quiet_trace]], simp, rule run)
qed

lemma journal_call_steps:
  "preserves journaled (pop_call_args F)" "preserves journaled (call_access F a)"
  "preserves journaled (call_oog F a)" "preserves journaled (call_data H a)"
  unfolding pop_call_args_def call_access_def call_oog_def call_data_def Let_def
  by (intro journal_intros journal_upd; simp)+

lemma journal_call_expand: "preserves journaled (call_expand H a)"
proof -
  have "preserves journaled (\<lambda>m. if n > length (m_memory m) then
           (if n > allocation_sanity_limit then throwM (InvalidAllocation n) m
            else resize_memory (div_ceil n 32 * 32) m) else (Ok (), m))" for n
    using journal_memory(3) [of "div_ceil n 32 * 32"]
    by (auto simp: preserves_def throwM_def journal.R_refl split: if_splits)
  then show ?thesis unfolding call_expand_def Let_def by (intro journal_intros)
qed

lemma journal_call_precompile: "preserves journaled (call_precompile F a tot data)"
proof -
  have "preserves journaled (case r of Ok ret \<Rightarrow> seqM (set_ret ret) (returnM 1)
      | Err _ \<Rightarrow> returnM 0 | Panic \<Rightarrow> panicM | OutOfFuel \<Rightarrow> panicM)" for r :: "(bytes, exec_error) res"
    by (cases r) (auto intro!: journal_intros)
  then show ?thesis
    unfolding call_precompile_def trace_call_def Let_def by (intro journal_intros)
qed

lemma jvalid_call_dispatch:
  assumes "\<exists>w. ca_gas a = min w (of_int i64_max)"
  shows "jvalid (room 1023) (call_dispatch exec F a mem_cost t) (\<lambda>_ _. True)"
proof -
  have cg: "jvalid (room 1023) (liftM (as_i64 (ca_gas a))) (\<lambda>cg m. 0 \<le> cg \<and> room 1023 m)"
    using assms as_i64_min by (intro jvalidI) (auto simp: liftM_def journal.R_refl)
  have data: "jvalid (room 1023) (call_data H a) (\<lambda>_. room 1023)" for H
  proof -
    have "quiet False 0 (call_data H a)" unfolding call_data_def by (rule quiet_intros refl | simp)+
    then show ?thesis by (rule jvalid_quiet [OF journal_call_steps(4)]) simp
  qed
  have rem: "jvalid (room 1023) (getsM m_remaining) (\<lambda>_. room 1023)"
    by (rule jvalidI) (auto simp: getsM_def journal.R_refl)
  have pre: "preserves journaled (seqM (call_precompile F a tot d) (seqM (evm_gas n) (returnM b)))" for tot d n b
    by (intro journal_intros journal_call_precompile)
  have inner: "jvalid (room 1023) (seqM (call_inner exec F a t g tot d) (returnM b)) (\<lambda>_ _. True)"
    if "0 \<le> g" for g tot d b
    by (rule jvalid_seq [OF jvalid_call_inner [OF that]]) (intro jvalid_preserves journal_intros)
  show ?thesis
    unfolding call_dispatch_def Let_def
    by (rule jvalid_bind [OF rem], rule jvalid_if, rule jvalid_preserves, rule journal_call_steps,
        rule jvalid_bind [OF cg], rule jvalid_pre, rule jvalid_bind [OF data], rule jvalid_if,
        rule jvalid_preserves, rule pre, rule inner)
      (use all_but_one_64th_bounds in \<open>auto simp: call_stipend_def\<close>)
qed

lemma jvalid_evm_call: "jvalid (room 1024) (evm_call exec F) (\<lambda>_ _. True)"
proof -
  have pop: "jvalid (room 1024) (pop_call_args F)
      (\<lambda>a m. (\<exists>w. ca_gas a = min w (of_int i64_max)) \<and> room 1018 m)"
  proof -
    let ?d = "if k_call_type (f_ctx F) \<notin> {CT_Static, CT_Delegate} then - 7 else - 6 :: int"
    have "jvalid (room 1024) (pop_call_args F)
        (\<lambda>a m. (\<exists>w. ca_gas a = min w (of_int i64_max)) \<and> room (1024 + ?d) m)"
      by (rule jvalid_quiet_res [OF journal_call_steps(1) quiet_call_args refl]) (rule pop_call_args_gas)
    then show ?thesis by (rule jvalid_conseq) (auto simp: room_def split: if_splits)
  qed
  have keep: "jvalid (room 1018) c (\<lambda>_. room 1018)" if "preserves journaled c" "quiet g 0 c"
    for c :: "'z exec" and g
    by (rule jvalid_quiet [OF that]) simp
  show ?thesis
    unfolding evm_call_def
    by (rule jvalid_bind [OF pop], rule jvalid_pre,
        rule jvalid_seq [OF keep [OF journal_call_expand quiet_call_expand]],
        rule jvalid_bind [where Q = "\<lambda>_. room 1018"],
        rule jvalidI, simp add: preservesD [OF journal_memory(5)],
        simp add: memory_expansion_cost_eq room_def,
        rule jvalid_bind [OF keep [OF journal_call_steps(2) quiet_call_access]],
        rule jvalid_conseq [OF jvalid_call_dispatch])
      (auto simp: room_def)
qed

lemma jvalid_call_arm: "jvalid (room 1024) (call_arm exec F ctx) (\<lambda>_ _. True)"
proof (rule jvalidI)
  fix m r m' assume m: "room 1024 m" and run: "call_arm exec F ctx m = (r, m')" and r: "settled r"
  obtain r1 m1 where c: "evm_call exec (F\<lparr>f_ctx := ctx\<rparr>) m = (r1, m1)" by fastforce
  have j: "settled r1 \<Longrightarrow> journaled m m1" using jvalid_evm_call m c by (auto simp: jvalid_def)
  have "preserves journaled (bindM (getsM m_remaining) (\<lambda>r. returnM (Halt r)))" by (intro journal_intros)
  note k = preservesD [OF this] preservesD [OF journal_helpers(1)]
  show "journaled m m'"
    using run r c j k journal.R_trans [of m m1 m']
    by (cases r1) (auto simp: call_arm_def catchM_def)
qed simp

lemma jvalid_create_inner:
  "jvalid (\<lambda>m. loaded {frame_this F, created} m \<and> room 1023 m)
     (create_inner exec F created val code base) (\<lambda>_ _. True)"
proof -
  let ?P = "\<lambda>m. loaded {frame_this F, created} m \<and> room 1023 m"
  have rem: "jvalid ?P (getsM f) (\<lambda>_. ?P)" for f :: "machine \<Rightarrow> int"
    by (rule jvalidI) (auto simp: getsM_def journal.R_refl)
  have settle: "settles {frame_this F, created} inner (seqM (trace_call F tot)
      (seqM (trace_join tr (e_reverted inner)) (settle_create F created val base g inner ret)))"
    for inner tot tr g ret
    by (intro settles_steady steady_steps settles_settle_create)
  have g: "0 \<le> all_but_one_64th r" if "\<not> r \<le> 0" for r using all_but_one_64th_bounds [of r] that by simp
  show ?thesis
    unfolding create_inner_def Let_def
    by (rule jvalid_bind [OF rem], rule jvalid_if, rule jvalid_preserves, rule journal_intros,
        rule jvalid_run [OF _ settle], rule g)
qed

lemma bump_nonce_loaded:
  assumes "bump_nonce H this d m = (Ok n, m')"
  shows "loaded {this} m'"
  using assms
  by (auto simp: bump_nonce_def seqM_def bindM_Ok_iff on_ext_def set_nonce_def account_upd_def touch_def
      upd_evm_def trace_push_def monad_defs split: prod.splits option.splits res.splits)

lemma register_created_loaded:
  assumes "register_created created m = (Ok u, m')"
  shows "loaded {created} m'"
  using assms
  by (auto simp: register_created_def warm_touch_def seqM_def bindM_Ok_iff on_ext_def entry_or_default_def
      touch_def upd_evm_def monad_defs split: prod.splits option.splits res.splits if_splits)

lemma journal_create_steps:
  "preserves journaled (bump_nonce H a n)" "preserves journaled (register_created a)"
  unfolding bump_nonce_def register_created_def warm_touch_def by (intro journal_intros)+

lemma jvalid_evm_create: "jvalid (room 1024) (evm_create exec F) (\<lambda>_ _. True)"
proof -
  have pop: "jvalid (room 1024) evm_pop (\<lambda>_. room 1023)"
    by (rule jvalid_quiet [OF journal_pop quiet_pop]) simp
  have pop_usize: "jvalid (room 1023) pop_usize (\<lambda>_. room 1023)"
    by (rule jvalid_conseq [OF jvalid_quiet [OF journal_helpers(2) quiet_pop_usize refl, of 1023]])
      (auto simp: room_def)
  have keep: "jvalid (room 1023) c (\<lambda>_. room 1023)" if "preserves journaled c" "quiet g d c" "d \<le> 0"
    for c :: "'z exec" and g d
    by (rule jvalid_conseq [OF jvalid_quiet [OF that(1,2) refl, of 1023]])
      (use that(3) in \<open>auto simp: room_def\<close>)
  have salt: "jvalid (room 1023) (if b then evm_pop else returnM 0) (\<lambda>_. room 1023)" for b
    by (cases b) (auto intro: keep [OF journal_pop quiet_pop] keep [OF journal.preserves_pure(1) quiet_return])
  have grow: "jvalid (room 1023) (if n > 0 then bindM (liftM (usize_add H offset n)) expand_memory
      else returnM ()) (\<lambda>_. room 1023)" for n offset H
  proof -
    have q: "quiet True 0 (if n > 0 then bindM (liftM (usize_add H offset n)) expand_memory else returnM ())"
      by (rule quiet_intros refl | simp)+
    show ?thesis by (rule keep [OF _ q order_refl]) (intro journal_intros)
  qed
  have mem: "jvalid (room 1023) memory_expansion_cost (\<lambda>_. room 1023)"
    by (rule jvalidI) (simp_all add: preservesD [OF journal_memory(5)] memory_expansion_cost_eq room_def)
  have lift: "jvalid (room 1023) (liftM (usize_add H i j)) (\<lambda>_. room 1023)" for H i j
    by (rule jvalidI) (auto simp: liftM_def journal.R_refl)
  have read: "jvalid (room 1023) (read_memory i j) (\<lambda>_. room 1023)" for i j
    by (rule keep [OF journal_memory(1) quiet_read_memory]) simp
  have nonce: "jvalid (room 1023) (bump_nonce H (frame_this F) n)
      (\<lambda>_ m. loaded {frame_this F} m \<and> room 1023 m)" for H n
    by (rule jvalid_quiet_res [OF journal_create_steps(1) quiet_bump_nonce]) (simp, rule bump_nonce_loaded)
  have reg: "jvalid (\<lambda>m. loaded {frame_this F} m \<and> room 1023 m) (register_created a)
      (\<lambda>_ m. loaded {frame_this F, a} m \<and> room 1023 m)" for a
  proof (rule jvalidI)
    fix m r m' assume "register_created a m = (r, m')" "settled r"
    then show "journaled m m'" by (rule preservesD [OF journal_create_steps(2)])
  next
    fix m u m' assume p: "loaded {frame_this F} m \<and> room 1023 m" and run: "register_created a m = (Ok u, m')"
    have "journaled m m'" using preservesD [OF journal_create_steps(2) run] by simp
    with p register_created_loaded [OF run] quiet_Ok [OF quiet_register run]
    show "loaded {frame_this F, a} m' \<and> room 1023 m'"
      by (auto simp: journaled_def room_def quiet_step_def)
  qed
  show ?thesis
    unfolding evm_create_def Let_def
    by (rule jvalid_bind [OF pop] jvalid_bind [OF pop_usize] jvalid_bind [OF salt] jvalid_seq [OF grow]
        jvalid_bind [OF mem] jvalid_bind [OF lift] jvalid_bind [OF read] jvalid_bind [OF nonce]
        jvalid_seq [OF reg] jvalid_create_inner)+
qed

section \<open>Instructions, turns and frames\<close>

lemma jvalid_calls:
  "jvalid (room 1024) (op_CREATE exec F) (\<lambda>_ _. True)" "jvalid (room 1024) (op_CREATE2 exec F) (\<lambda>_ _. True)"
  "jvalid (room 1024) (op_CALL exec F) (\<lambda>_ _. True)" "jvalid (room 1024) (op_CALLCODE exec F) (\<lambda>_ _. True)"
  "jvalid (room 1024) (op_DELEGATECALL exec F) (\<lambda>_ _. True)"
  "jvalid (room 1024) (op_STATICCALL exec F) (\<lambda>_ _. True)"
proof -
  have throw: "jvalid (room 1024) (throwM e) (\<lambda>_ _. True)" for e
    by (intro jvalid_preserves journal_intros)
  have create: "jvalid (room 1024) (seqM (evm_create exec F') (next_pc 0)) (\<lambda>_ _. True)" for F'
    by (rule jvalid_seq [OF jvalid_evm_create]) (intro jvalid_preserves journal_intros)
  show "jvalid (room 1024) (op_CREATE exec F) (\<lambda>_ _. True)" "jvalid (room 1024) (op_CREATE2 exec F) (\<lambda>_ _. True)"
    by (simp_all add: op_CREATE_def op_CREATE2_def throw create)
  show "jvalid (room 1024) (op_CALLCODE exec F) (\<lambda>_ _. True)"
    "jvalid (room 1024) (op_DELEGATECALL exec F) (\<lambda>_ _. True)"
    "jvalid (room 1024) (op_STATICCALL exec F) (\<lambda>_ _. True)"
    by (simp_all add: op_CALLCODE_def op_DELEGATECALL_def op_STATICCALL_def jvalid_call_arm)
  have top: "jvalid (room 1024) (getsM (\<lambda>m. rev (m_stack m))) (\<lambda>_. room 1024)"
    by (rule jvalidI) (auto simp: getsM_def journal.R_refl)
  show "jvalid (room 1024) (op_CALL exec F) (\<lambda>_ _. True)"
    unfolding op_CALL_def by (rule jvalid_bind [OF top]) (intro jvalid_if throw jvalid_call_arm)
qed

lemma jvalid_table: "list_all (\<lambda>(c, h). jvalid (room 1024) (h F) (\<lambda>_ _. True)) (op_table exec)"
  unfolding op_table_def list.pred_inject prod.case
  by (intro conjI TrueI jvalid_calls jvalid_preserves
      journal_arith journal_env journal_copies journal_mem journal_SSTORE journal_TSTORE) simp

lemma jvalid_instruction: "jvalid (room 1024) (execute_instruction exec F) (\<lambda>_ _. True)"
proof -
  have "jvalid (room 1024) (h F) (\<lambda>_ _. True)" if "map_of (op_table exec) c = Some h" for h c
    using jvalid_table map_of_SomeD [OF that] by (auto simp: list_all_iff)
  moreover have "jvalid (room 1024) (throwM e) (\<lambda>_ _. True)" for e
    by (intro jvalid_preserves journal_intros)
  ultimately show ?thesis
    unfolding execute_instruction_def Let_def
    by (auto intro: jvalid_preserves journal_mem split: option.split)
qed

lemma turn_journaled:
  assumes "length (m_stack m) \<le> 1024" "execute_turn exec F m = (r, m')" "settled r"
  shows "journaled m m'"
proof -
  obtain r1 m1 where i: "execute_instruction exec F m = (r1, m1)" by fastforce
  have j: "settled r1 \<Longrightarrow> journaled m m1"
    using jvalid_instruction i assms(1) by (auto simp: jvalid_def room_def)
  have upd: "preserves journaled (upd_evm (\<lambda>e. e\<lparr>e_refund := g_refund (e_gas e)\<rparr>))"
    "preserves journaled stop_reverted" "preserves journaled drain_gas"
    unfolding stop_reverted_def
    by (rule journal_upd, simp)+ (auto simp: preserves_def drain_gas_eq journaled_quiet)
  have halted: "preserves journaled (halted F x)" for x
    unfolding halted_def by (intro journal_intros upd)
  have after: "preserves journaled (after_step F s)" for s
    unfolding after_step_def Let_def trace_step_def
    by (intro journal_intros upd halted journal.preserves_catch | simp split: prod.split)+
  have failed: "preserves journaled (failed_step F)"
    unfolding failed_step_def by (intro journal_intros upd journal.preserves_catch)
  show ?thesis
    using assms(2,3) i j journal.R_trans [of m m1 m'] preservesD [OF after] preservesD [OF failed]
    by (cases r1) (auto simp: execute_turn_def catchM_def)
qed

end

definition frame_journaled :: "machine \<Rightarrow> (bytes, exec_error) res \<Rightarrow> machine \<Rightarrow> bool" where
  "frame_journaled m r m' \<longleftrightarrow> (settled r \<longrightarrow> journaled m m')"

lemma enter_frame_journaled:
  assumes loop: "\<And>code call ctx m r m'. frame_inv m \<Longrightarrow> g_used (m_gas m) \<le> g_limit (m_gas m) \<Longrightarrow>
      loop code call ctx m = (r, m') \<Longrightarrow> frame_journaled m r m'"
    and inv: "frame_inv m" "g_used (m_gas m) \<le> g_limit (m_gas m)"
    and run: "enter_frame loop code call ctx m = (r, m')"
  shows "frame_journaled m r m'"
proof -
  obtain m1 where m1: "announce_call call ctx m = (Ok (), m1)" and gas: "m_gas m1 = m_gas m"
    and same: "m_memory m1 = m_memory m" "m_stack m1 = m_stack m"
      "e_mem_cost (m_evm m1) = e_mem_cost (m_evm m)"
    using announce_call_eq [of call ctx m] by blast
  have inv1: "frame_inv m1" "g_used (m_gas m1) \<le> g_limit (m_gas m1)"
    using inv same gas by (simp_all add: frame_inv_def)
  have "preserves journaled (announce_call call ctx)"
    unfolding announce_call_def warm_touch_def by (intro journal_intros)
  from preservesD [OF this m1] have j1: "journaled m m1" by simp
  show ?thesis
  proof (cases "k_depth ctx > call_depth_limit")
    case True
    then have "m_ext m' = m_ext m1" "e_touches (m_evm m') = e_touches (m_evm m1)"
      using run m1 by (auto simp: enter_frame_def seqM_def bindM_def stop_reverted_def upd_evm_def
          modifyM_def returnM_def)
    with j1 show ?thesis unfolding frame_journaled_def by (metis journaled_quiet journal.R_trans)
  next
    case False
    with run m1 have "loop code call ctx m1 = (r, m')" by (simp add: enter_frame_def seqM_def bindM_def)
    from loop [OF inv1 this] j1 show ?thesis unfolding frame_journaled_def by (metis journal.R_trans)
  qed
qed

lemma journaling_enter:
  assumes ok: "\<And>code call ctx m r m'. frame_inv m \<Longrightarrow> g_used (m_gas m) \<le> g_limit (m_gas m) \<Longrightarrow>
      loop code call ctx m = (r, m') \<Longrightarrow> frame_ok n m r m'"
    and j: "\<And>code call ctx m r m'. frame_inv m \<Longrightarrow> g_used (m_gas m) \<le> g_limit (m_gas m) \<Longrightarrow>
      loop code call ctx m = (r, m') \<Longrightarrow> frame_journaled m r m'"
  shows "journaling_executor (enter_frame loop) n"
proof (rule journaling_executor.intro [OF sub_executor_enter [OF ok]])
  show "journaling_executor_axioms (enter_frame loop)"
  proof
    fix g code call ctx x tr r m'
    let ?i = "\<lparr>m_evm = inner_evm g, m_ext = x, m_ret = [], m_trace = tr\<rparr>"
    assume "0 \<le> g" and run: "enter_frame loop code call ctx ?i = (r, m')" and r: "settled r"
    have inv: "frame_inv ?i" "g_used (m_gas ?i) \<le> g_limit (m_gas ?i)"
      using inner_evm_inv [OF \<open>0 \<le> g\<close>] \<open>0 \<le> g\<close> by (auto simp: inner_evm_def gas_new_def)
    have "is_Ok r" using enter_frame_ok [OF ok inv run] r by (cases r) (auto simp: frame_ok_def)
    then show "is_Ok r \<and> journaled ?i m'"
      using enter_frame_journaled [OF j inv run] r by (simp add: frame_journaled_def)
  qed
qed

lemma run_loop_journaled:
  assumes "overflow_checks H"
  shows "frame_inv m \<Longrightarrow> g_used (m_gas m) \<le> g_limit (m_gas m) \<Longrightarrow>
    run_loop n H hdr code call ctx m = (r, m') \<Longrightarrow> frame_journaled m r m'"
proof (induction n arbitrary: code call ctx m r m')
  case 0
  then show ?case by (auto simp: frame_journaled_def)
next
  case (Suc n)
  let ?exec = "enter_frame (run_loop n H hdr)"
  have j: "journaling_executor ?exec n"
    by (rule journaling_enter) (rule run_loop_ok [OF assms], assumption+, rule Suc.IH)
  then have sub: "sub_executor ?exec n" by (simp add: journaling_executor_def)
  show ?case
  proof (cases "\<not> e_stopped (m_evm m) \<and> e_pc (m_evm m) < length (bc_instructions code)")
    case False
    have "preserves journaled (end_frame code ctx)" unfolding end_frame_def by (intro journal_intros)
    with Suc.prems(3) False show ?thesis by (auto simp: frame_journaled_def preserves_def)
  next
    case True
    let ?F = "\<lparr>f_host = H, f_header = hdr, f_code = code, f_call = call, f_ctx = ctx,
                  f_instr = bc_instructions code ! e_pc (m_evm m)\<rparr>"
    obtain r1 m1 where turn: "execute_turn ?exec ?F m = (r1, m1)" by fastforce
    have ok: "turn_ok n m r1 m1"
      by (rule sub_executor.turn_ok [OF sub _ Suc.prems(1,2) turn]) (simp add: assms)
    have tj: "settled r1 \<Longrightarrow> journaled m m1"
      by (rule journaling_executor.turn_journaled [OF j _ turn]) (use Suc.prems(1) in \<open>simp add: frame_inv_def\<close>)
    show ?thesis
    proof (cases "r1 = Ok Continue")
      case cont: True
      with True turn Suc.prems(3) have rest: "run_loop n H hdr code call ctx m1 = (r, m')"
        by (simp add: bindM_def)
      have "frame_journaled m1 r m'"
        by (rule Suc.IH [OF _ _ rest]) (use ok cont Suc.prems(2) in \<open>auto simp: turn_ok_def\<close>)
      with tj cont show ?thesis unfolding frame_journaled_def by (metis journal.R_trans settled_simps(1))
    next
      case False
      with True turn Suc.prems(3) tj show ?thesis
        by (cases r1) (auto simp: bindM_def returnM_def frame_journaled_def split: turn.splits)
    qed
  qed
qed

lemma execute_with_context_journaled:
  assumes "overflow_checks H" "frame_inv m" "g_used (m_gas m) \<le> g_limit (m_gas m)"
    and "execute_with_context n H hdr code call ctx m = (r, m')" "settled r"
  shows "journaled m m'"
  using enter_frame_journaled [OF run_loop_journaled [OF assms(1)] assms(2,3)] assms(4,5)
  by (simp add: execute_with_context_def frame_journaled_def)

text \<open>The interpreter of a build with overflow checks, as the provider of journaled frames.\<close>

lemma journaling_loop:
  assumes "overflow_checks H"
  shows "journaling_executor (execute_with_context n H hdr) n"
  unfolding execute_with_context_def
  by (rule journaling_enter) (rule run_loop_ok [OF assms] run_loop_journaled [OF assms], assumption+)+

interpretation journals: journaling_executor "execute_with_context n (checked H) hdr" n
  by (rule journaling_loop) (simp add: checked_def)

end
