(* ===== verification/Transactions.thy ===== *)
theory Transactions
  imports JournalLaws
begin

text \<open>
  Whole transactions: \<open>Executor::execute\<close> around the top frame. Up to the frame every step
  keeps the journal complete and leaves the fresh machine alone; after it every step leaves
  the persistent state alone. The rules below carry a postcondition through the sequence of
  steps and exclude that the fuel runs out.
\<close>

section \<open>Triples for the steps of a transaction\<close>

definition triple :: "(machine \<Rightarrow> bool) \<Rightarrow> 'a exec \<Rightarrow> ('a \<Rightarrow> machine \<Rightarrow> bool) \<Rightarrow> bool" where
  "triple P c Q \<longleftrightarrow> (\<forall>m r m'. P m \<longrightarrow> c m = (r, m') \<longrightarrow> r \<noteq> OutOfFuel \<and> (\<forall>a. r = Ok a \<longrightarrow> Q a m'))"

lemma tripleI:
  assumes "\<And>m r m'. P m \<Longrightarrow> c m = (r, m') \<Longrightarrow> r \<noteq> OutOfFuel"
    and "\<And>m a m'. P m \<Longrightarrow> c m = (Ok a, m') \<Longrightarrow> Q a m'"
  shows "triple P c Q"
  using assms unfolding triple_def by blast

lemma triple_bind:
  assumes "triple P c Q" and "\<And>a. triple (Q a) (f a) R"
  shows "triple P (bindM c f) R"
  unfolding triple_def
proof (intro allI impI)
  fix m r m' assume P: "P m" and b: "bindM c f m = (r, m')"
  note c = assms(1) [unfolded triple_def, rule_format, OF P]
  from b show "r \<noteq> OutOfFuel \<and> (\<forall>a. r = Ok a \<longrightarrow> R a m')"
  proof (cases rule: bindM_outcome)
    case (ok a m1)
    with c [OF ok(1)] assms(2) [unfolded triple_def] show ?thesis by blast
  qed (use c in auto)
qed

lemma triple_seq: "triple P c (\<lambda>_. Q) \<Longrightarrow> triple Q k R \<Longrightarrow> triple P (seqM c k) R"
  unfolding seqM_def by (rule triple_bind)

lemma triple_return: "(\<And>m. P m \<Longrightarrow> Q a m) \<Longrightarrow> triple P (returnM a) Q"
  by (rule tripleI) (auto simp: returnM_def)

lemma triple_gets: "(\<And>m. P m \<Longrightarrow> Q (f m) m) \<Longrightarrow> triple P (getsM f) Q"
  by (rule tripleI) (auto simp: getsM_def)

lemma triple_lift: "r \<noteq> OutOfFuel \<Longrightarrow> triple P (liftM r) (\<lambda>a m. r = Ok a \<and> P m)"
  by (rule tripleI) (auto simp: liftM_def)

lemma triple_pre: "(A \<Longrightarrow> triple P c Q) \<Longrightarrow> triple (\<lambda>m. A \<and> P m) c Q"
  unfolding triple_def by blast

section \<open>Before the frame\<close>

definition ready :: "machine \<Rightarrow> int \<Rightarrow> machine \<Rightarrow> bool" where
  "ready m0 l m \<longleftrightarrow> journaled m0 m \<and> frame_inv m \<and> g_used (m_gas m) = 0 \<and> g_limit (m_gas m) = l"

lemma ready_quiet:
  assumes "preserves journaled c" "quiet False 0 c"
  shows "triple (ready m0 l) c (\<lambda>_. ready m0 l)"
proof (rule tripleI)
  fix m r m' assume "c m = (r, m')"
  then show "r \<noteq> OutOfFuel" by (rule quiet_fuel [OF assms(2)])
next
  fix m a m' assume p: "ready m0 l m" and run: "c m = (Ok a, m')"
  have "journaled m m'" using preservesD [OF assms(1) run] by simp
  moreover have "g_limit (m_gas m') = g_limit (m_gas m)" using assms(2) run by (auto simp: quiet_def)
  ultimately show "ready m0 l m'"
    using p quiet_Ok [OF assms(2) run] journal.R_trans [of m0 m m']
    by (auto simp: ready_def quiet_step_def frame_inv_def memory_step_def)
qed

lemma neutral_access_list: "preserves neutral apply_access_list"
proof -
  have keys: "preserves neutral (warm_keys a ks)" for a ks
    by (induction ks) (auto intro!: neutral_intros neutral_misc)
  have "preserves neutral (warm_items items)" for items
    by (induction items) (auto intro!: neutral_intros neutral_misc keys)
  then show ?thesis unfolding apply_access_list_def by (intro neutral_intros)
qed

lemma tx_step_journaled:
  "preserves journaled (tx_warm H hdr call)" "preserves journaled (tx_prepay H call)"
  "preserves journaled (tx_transfer H call)" "preserves journaled (bump_nonce H a n)"
  unfolding tx_warm_def warm_touch_def tx_prepay_def tx_transfer_def bump_nonce_def Let_def
  by (intro journal_intros)+

lemma tx_step_quiet:
  "quiet False 0 (tx_warm H hdr call)" "quiet False 0 (tx_prepay H call)"
  "quiet False 0 (tx_transfer H call)"
proof -
  have get: "quiet False 0 (on_ext (account_get a))" for a
    by (rule quiet_on_ext) (auto simp: account_get_def split: option.splits)
  show "quiet False 0 (tx_warm H hdr call)" "quiet False 0 (tx_prepay H call)"
    "quiet False 0 (tx_transfer H call)"
    unfolding tx_warm_def tx_prepay_def tx_transfer_def
    by (rule get quiet_intros refl | simp)+
qed

text \<open>What the intrinsic costs leave for the frame.\<close>

definition tx_frame_gas :: "call \<Rightarrow> tx_context \<Rightarrow> int" where
  "tx_frame_gas call t = uint (c_gas call) - 21000 - access_list_cost t - calldata_cost (c_data call)"

lemma triple_i64:
  "overflow_checks H \<Longrightarrow> triple P (liftM (i64_arith H n)) (\<lambda>k m. k = n \<and> P m)"
  by (rule tripleI) (auto simp: liftM_def i64_arith_fuel dest: i64_arith_checked)

lemma triple_gas_limit:
  assumes "unat (c_gas call) < 2 ^ 63"
  shows "triple P (liftM (as_i64 (c_gas call))) (\<lambda>g m. g = uint (c_gas call) \<and> P m)"
proof -
  have "as_i64 (c_gas call) = (Ok (uint (c_gas call)) :: (int, exec_error) res)"
    using as_i64_small [OF assms] by simp
  then show ?thesis by (intro tripleI) (auto simp: liftM_def)
qed

lemma ready_list_cost:
  "triple (ready m0 l) (getsM (\<lambda>m. access_list_cost (x_tx_ctx (m_ext m))))
     (\<lambda>alc m. alc = access_list_cost (x_tx_ctx (m_ext m0)) \<and> ready m0 l m)"
  by (rule triple_gets) (simp add: ready_def journaled_def)

lemma ready_access_list: "triple (ready m0 l) (on_ext apply_access_list) (\<lambda>_. ready m0 l)"
proof (rule ready_quiet)
  show "preserves journaled (on_ext apply_access_list)"
    by (intro journal_intros neutral_access_list)
  have keys: "warm_keys a ks x \<noteq> (OutOfFuel, x')" for a ks x x'
    by (induction ks arbitrary: x) (auto simp: monad_defs warm_storage_def)
  have "warm_items items x = (r, x') \<Longrightarrow> r \<noteq> OutOfFuel" for items x r x'
    by (induction items arbitrary: x)
      (auto simp: seqM_def bindM_def warm_address_def returnM_def keys split: prod.splits res.splits)
  then show "quiet False 0 (on_ext apply_access_list)"
    by (intro quiet_on_ext) (auto simp: apply_access_list_def bindM_def getsM_def)
qed

lemma triple_new_gas:
  "triple (ready m0 l) (seqM (upd_evm (\<lambda>e. e\<lparr>e_gas := gas_new g\<rparr>)) (returnM a)) (\<lambda>b m. b = a \<and> ready m0 g m)"
  by (rule tripleI)
    (auto simp: seqM_def bindM_def upd_evm_def modifyM_def returnM_def ready_def journaled_def
      frame_inv_def gas_new_def)

lemma tx_intrinsic_ready:
  assumes H: "overflow_checks H" and small: "unat (c_gas call) < 2 ^ 63"
  shows "triple (ready m0 l) (tx_intrinsic H call) (\<lambda>alc m. alc = access_list_cost (x_tx_ctx (m_ext m0)) \<and>
     ready m0 (tx_frame_gas call (x_tx_ctx (m_ext m0))) m)"
proof -
  let ?t = "x_tx_ctx (m_ext m0)"
  have "triple (ready m0 l) (tx_intrinsic H call) (\<lambda>alc m. alc = access_list_cost ?t \<and>
      ready m0 (uint (c_gas call) - 21000 - access_list_cost ?t - calldata_cost (c_data call)) m)"
    unfolding tx_intrinsic_def
    by (rule triple_bind [OF ready_list_cost], rule triple_pre, rule triple_bind [OF triple_gas_limit [OF small]],
        rule triple_pre,
        rule triple_bind [OF triple_i64 [OF H]], rule triple_pre,
        rule triple_bind [OF triple_i64 [OF H]], rule triple_pre, rule triple_seq [OF ready_access_list],
        rule triple_bind [OF triple_i64 [OF H]], rule triple_pre, hypsubst, rule triple_new_gas)
  then show ?thesis by (simp add: tx_frame_gas_def)
qed

section \<open>The frame and what follows\<close>

lemma tx_run_journaled:
  assumes "overflow_checks H" "0 \<le> l" "l + 2 \<le> int fuel"
  shows "triple (ready m0 l) (tx_run fuel H hdr code call created)
    (\<lambda>_ m. journaled m0 m \<and> 0 \<le> g_used (m_gas m) \<and> g_used (m_gas m) \<le> l)"
  unfolding triple_def
proof (intro allI impI)
  fix m r m' assume m: "ready m0 l m" and run: "tx_run fuel H hdr code call created m = (r, m')"
  let ?ctx = "context_default\<lparr>k_created := created, k_origin := c_from call, k_depth := 1\<rparr>"
  let ?m = "m\<lparr>m_ret := [], m_trace := log_fork (m_trace m)\<rparr>"
  obtain m1 where e: "execute_with_context fuel H hdr code call ?ctx ?m = (r, m1)"
    and m': "m_evm m' = m_evm m1" "m_ext m' = m_ext m1"
    using run by (auto simp: tx_run_def split: prod.splits)
  have inv: "frame_inv ?m" "g_used (m_gas ?m) \<le> g_limit (m_gas ?m)"
    using m assms(2) by (auto simp: ready_def frame_inv_def)
  note ok = execute_with_context_ok [OF assms(1) inv e]
  have "journaled m0 m'" if "settled r"
  proof (rule journal.R_trans)
    show "journaled m0 ?m" using m by (simp add: ready_def journaled_def)
    show "journaled ?m m'"
      using execute_with_context_journaled [OF assms(1) inv e that] m' by (simp add: journaled_def)
  qed
  then show "r \<noteq> OutOfFuel \<and> (\<forall>a. r = Ok a \<longrightarrow>
      journaled m0 m' \<and> 0 \<le> g_used (m_gas m') \<and> g_used (m_gas m') \<le> l)"
    using ok m assms(3) m' by (auto simp: frame_ok_def ready_def gas_remaining_def)
qed

text \<open>The state of a finished transaction, and steps that keep it.\<close>

definition done_ok :: "machine \<Rightarrow> int \<Rightarrow> machine \<Rightarrow> bool" where
  "done_ok m0 l m \<longleftrightarrow> (e_reverted (m_evm m) \<longrightarrow> persist (m_ext m) = persist (m_ext m0)) \<and>
     0 \<le> g_used (m_gas m) \<and> g_used (m_gas m) \<le> l"

definition mild :: "machine \<Rightarrow> machine \<Rightarrow> bool" where
  "mild m m' \<longleftrightarrow> persist (m_ext m') = persist (m_ext m) \<and> e_reverted (m_evm m') = e_reverted (m_evm m) \<and>
     m_gas m' = m_gas m"

interpretation mild: step_relation mild
  by unfold_locales (simp_all add: mild_def)

lemma mild_steps:
  "preserves neutral c \<Longrightarrow> preserves mild (on_ext c)" "preserves mild (touch t)"
  "preserves mild (trace_push d n b)"
  by (auto simp: preserves_def mild_def on_ext_def neutral_def touch_def upd_evm_def trace_push_def
      modifyM_def split: prod.splits)

lemmas mild_intros = mild.preserves_bind mild.preserves_seq mild.preserves_pure mild.preserves_branch
  mild_steps neutral_reads neutral_setters

lemma tx_fees_mild:
  "preserves mild (tx_refund_sender H call b g)" "preserves mild (tx_pay_coinbase H hdr n)"
  "preserves mild (tx_blob_fee H hdr)"
  unfolding tx_refund_sender_def tx_pay_coinbase_def tx_blob_fee_def Let_def by (intro mild_intros)+

lemma fee_arith_fuel:
  "tx_effective_price hdr t \<noteq> OutOfFuel" "tx_coinbase_price hdr t \<noteq> OutOfFuel"
  "word_of_i64 n \<noteq> OutOfFuel" "blob_gas_price c hdr \<noteq> OutOfFuel"
proof -
  show price: "tx_effective_price hdr t \<noteq> OutOfFuel"
    by (cases "word_add (h_base_fee hdr) (t_gas_max_priority_fee t) :: (u256, exec_error) res")
      (auto simp: tx_effective_price_def dest: arith_fuel(6) [THEN notE])
  show "tx_coinbase_price hdr t \<noteq> OutOfFuel"
    using price by (cases "tx_effective_price hdr t") (auto simp: tx_coinbase_price_def)
qed (simp_all add: word_of_i64_def)

lemma tx_fees_quiet:
  "quiet False 0 (tx_refund_sender H call b g)" "quiet False 0 (tx_pay_coinbase H hdr n)"
  "quiet False 0 (tx_blob_fee H hdr)"
  unfolding tx_refund_sender_def tx_pay_coinbase_def tx_blob_fee_def Let_def
  by (rule quiet_intros refl | simp add: fee_arith_fuel)+

lemma triple_settle:
  assumes "e_touches (m_evm m0) = []"
  shows "triple (\<lambda>m. e = m_evm m \<and> journaled m0 m \<and> 0 \<le> g_used (m_gas m) \<and> g_used (m_gas m) \<le> l)
    (if e_reverted e then on_ext (evm_revert e) else returnM ())
    (\<lambda>_ m. e_gas e = m_gas m \<and> e_reverted e = e_reverted (m_evm m) \<and> done_ok m0 l m)"
proof (rule tripleI)
  fix m r m' assume "(if e_reverted e then on_ext (evm_revert e) else returnM ()) m = (r, m')"
  then show "r \<noteq> OutOfFuel"
    using quiet_fuel [OF quiet_revert] by (auto simp: returnM_def split: if_splits)
next
  fix m a m' assume p: "e = m_evm m \<and> journaled m0 m \<and> 0 \<le> g_used (m_gas m) \<and> g_used (m_gas m) \<le> l"
    and run: "(if e_reverted e then on_ext (evm_revert e) else returnM ()) m = (Ok a, m')"
  show "e_gas e = m_gas m' \<and> e_reverted e = e_reverted (m_evm m') \<and> done_ok m0 l m'"
  proof (cases "e_reverted e")
    case True
    then obtain x where rev: "evm_revert e (m_ext m) = (Ok a, x)" and m': "m' = m\<lparr>m_ext := x\<rparr>"
      using run by (auto simp: on_ext_def split: prod.splits)
    have "undo_all (e_touches e) (persist (m_ext m)) = persist (m_ext m0)"
      using p assms by (auto simp: journaled_def)
    with evm_revert_persist [OF rev] p show ?thesis by (simp add: m' done_ok_def)
  next
    case False
    with run p show ?thesis by (auto simp: returnM_def done_ok_def)
  qed
qed

text \<open>
  The gas a transaction is charged, as its last event reports it, belongs to the state it
  ends in.
\<close>

definition charged :: "call \<Rightarrow> int \<Rightarrow> bytes \<Rightarrow> machine \<Rightarrow> bool" where
  "charged call alc ret m \<longleftrightarrow> (\<exists>gas price fee. m_trace m \<noteq> [] \<and>
     last (m_trace m) = \<lparr>ev_data = ED_Fee gas price fee, ev_depth = 1, ev_reverted = False\<rparr> \<and>
     word_of_i64 (tx_gas_final call alc (length ret) (m_evm m)) = (Ok gas :: (u256, exec_error) res))"

definition closing :: "evm \<Rightarrow> machine \<Rightarrow> int \<Rightarrow> machine \<Rightarrow> bool" where
  "closing e m0 l m \<longleftrightarrow> e_gas e = m_gas m \<and> e_reverted e = e_reverted (m_evm m) \<and> done_ok m0 l m"

lemma closing_mild:
  assumes "preserves mild c" "quiet g d c"
  shows "triple (closing e m0 l) c (\<lambda>_. closing e m0 l)"
proof (rule tripleI)
  fix m r m' assume "c m = (r, m')"
  then show "r \<noteq> OutOfFuel" by (rule quiet_fuel [OF assms(2)])
next
  fix m a m' assume "closing e m0 l m" "c m = (Ok a, m')"
  then show "closing e m0 l m'"
    using preservesD [OF assms(1)] by (fastforce simp: closing_def done_ok_def mild_def)
qed

lemma tx_gas_final_cong:
  "e_gas e = e_gas e' \<Longrightarrow> e_reverted e = e_reverted e' \<Longrightarrow> tx_gas_final call alc n e = tx_gas_final call alc n e'"
  by (simp add: tx_gas_final_def)

lemma closing_fee:
  assumes "word_of_i64 (tx_gas_final call alc (length ret) e) = (Ok gas :: (u256, exec_error) res)"
  shows "triple (closing e m0 l) (seqM (trace_push (ED_Fee gas price fee) 1 False) (returnM ret))
    (\<lambda>ret m. done_ok m0 l m \<and> charged call alc ret m)"
proof (rule tripleI)
  fix m a m' assume p: "closing e m0 l m"
    and "seqM (trace_push (ED_Fee gas price fee) 1 False) (returnM ret) m = (Ok a, m')"
  then have m': "a = ret" "m_evm m' = m_evm m" "m_ext m' = m_ext m"
    "m_trace m' = m_trace m @ [\<lparr>ev_data = ED_Fee gas price fee, ev_depth = 1, ev_reverted = False\<rparr>]"
    by (auto simp: seqM_def bindM_def trace_push_def modifyM_def returnM_def log_push_def)
  have "tx_gas_final call alc (length ret) (m_evm m) = tx_gas_final call alc (length ret) e"
    using p by (intro tx_gas_final_cong) (simp_all add: closing_def)
  with p m' assms show "done_ok m0 l m' \<and> charged call alc a m'"
    by (auto simp: closing_def done_ok_def charged_def)
qed (auto simp: seqM_def bindM_def trace_push_def modifyM_def returnM_def)

text \<open>
  The whole transaction, with enough gas for the intrinsic costs: from a state whose journal
  undoes what happened since \<open>m0\<close>, and then on a fresh machine.
\<close>

lemma execute_triple_from:
  assumes H: "overflow_checks H" and touches: "e_touches (m_evm m0) = []"
    and gas: "unat (c_gas call) < 2 ^ 63" "0 \<le> tx_frame_gas call (x_tx_ctx (m_ext m0))"
      "tx_frame_gas call (x_tx_ctx (m_ext m0)) + 2 \<le> int fuel"
  shows "triple (ready m0 l0) (execute fuel H hdr code call)
    (\<lambda>ret m. done_ok m0 (tx_frame_gas call (x_tx_ctx (m_ext m0))) m \<and>
       charged call (access_list_cost (x_tx_ctx (m_ext m0))) ret m)"
proof -
  let ?l = "tx_frame_gas call (x_tx_ctx (m_ext m0))"
  have stop: "triple (ready m0 l) (if b then upd_evm (\<lambda>e. e\<lparr>e_stopped := True, e_reverted := False\<rparr>)
      else returnM ()) (\<lambda>_. ready m0 l)" for b l
    by (rule tripleI)
      (auto simp: upd_evm_def modifyM_def returnM_def ready_def journaled_def frame_inv_def split: if_splits)
  have evm: "triple (\<lambda>m. journaled m0 m \<and> 0 \<le> g_used (m_gas m) \<and> g_used (m_gas m) \<le> ?l) (getsM m_evm)
      (\<lambda>e m. e = m_evm m \<and> journaled m0 m \<and> 0 \<le> g_used (m_gas m) \<and> g_used (m_gas m) \<le> ?l)"
    by (rule triple_gets) simp
  note settle = triple_settle [OF touches, of _ ?l, folded closing_def]
  have keep: "triple (closing e m0 ?l) c (\<lambda>_. closing e m0 ?l)" if "preserves mild c" "quiet False 0 c"
    for e and c :: "'z exec"
    using that by (rule closing_mild)
  note pure = keep [OF mild.preserves_pure(2) quiet_gets] keep [OF mild.preserves_pure(5) quiet_lift]
  note fees = tx_fees_mild tx_fees_quiet fee_arith_fuel arith_fuel
  note pre = ready_quiet [OF tx_step_journaled(1) tx_step_quiet(1)]
    ready_quiet [OF tx_step_journaled(2) tx_step_quiet(2)]
    ready_quiet [OF tx_step_journaled(3) tx_step_quiet(3)]
    ready_quiet [OF tx_step_journaled(4) quiet_bump_nonce]
  show ?thesis
    unfolding execute_def Let_def
    by (rule triple_seq [OF pre(1)], rule triple_bind [OF pre(2)], unfold split_def,
        rule triple_bind [OF tx_intrinsic_ready [OF H gas(1)]], rule triple_pre, hypsubst,
        rule triple_seq [OF pre(3)], rule triple_bind [OF pre(4)], rule triple_seq [OF stop],
        rule triple_bind [OF tx_run_journaled [OF H gas(2,3)]],
        rule triple_bind [OF evm], rule triple_seq [OF settle], rule triple_bind [OF pure(1)],
        rule triple_bind [OF pure(2)], rule fees, rule triple_bind [OF triple_lift], rule fees, rule triple_pre,
        (rule triple_bind [OF pure(2)], rule fees)+, (rule triple_seq [OF keep], rule fees, rule fees)+,
        rule closing_fee)
qed

lemma execute_triple:
  assumes "overflow_checks H" "m_evm m0 = evm_default"
    and "unat (c_gas call) < 2 ^ 63" "0 \<le> tx_frame_gas call (x_tx_ctx (m_ext m0))"
      "tx_frame_gas call (x_tx_ctx (m_ext m0)) + 2 \<le> int fuel"
  shows "triple (ready m0 0) (execute fuel H hdr code call)
    (\<lambda>ret m. done_ok m0 (tx_frame_gas call (x_tx_ctx (m_ext m0))) m \<and>
       charged call (access_list_cost (x_tx_ctx (m_ext m0))) ret m)"
  by (rule execute_triple_from) (use assms in \<open>simp_all add: evm_default_def\<close>)

lemma tx_gas_final_ge: "21000 \<le> tx_gas_final call alc n e"
proof -
  have "length (filter (\<lambda>b. b = 0) (c_data call)) \<le> length (c_data call)" by (rule length_filter_le)
  then have "3 * int (length (filter (\<lambda>b. b = 0) (c_data call))) \<le> 4 * int (length (c_data call))" by linarith
  then show ?thesis by (simp add: tx_gas_final_def tx_gas_floor_def Let_def le_max_iff_disj)
qed

end
