(* ===== verification/SolenoidLaws.thy ===== *)
theory SolenoidLaws
  imports Solenoid Transactions
begin

text \<open>
  Postconditions of the steps of \<open>Runner::apply\<close>, in the triples of \<open>Transactions\<close>: up to
  the frame every step keeps the journal complete, and after a creation the steps that settle
  it leave persistent state alone.
\<close>

section \<open>Before the frame\<close>

definition upfront_total :: "call \<Rightarrow> tx_context \<Rightarrow> int" where
  "upfront_total call t = upfront_gas call + access_list_cost t"

text \<open>What the upfront reduction leaves for the frame.\<close>

definition runner_frame_gas :: "call \<Rightarrow> tx_context \<Rightarrow> int" where
  "runner_frame_gas call t = uint (c_gas call) - upfront_total call t"

lemma runner_frame_gas_call:
  "\<not> addr_is_zero (c_to call) \<Longrightarrow> runner_frame_gas call t = tx_frame_gas call t"
  by (simp add: runner_frame_gas_def upfront_total_def upfront_gas_def tx_frame_gas_def Let_def)

lemma quiet_pull: "quiet False 0 (on_ext (ext_pull H a))"
  by (rule quiet_on_ext) (rule ext_pull_fuel)

lemma quiet_account_get: "quiet False 0 (on_ext (account_get a))"
  by (rule quiet_on_ext) (auto simp: account_get_def split: option.splits)

lemma neutral_pull: "preserves neutral (ext_pull H a)"
  by (auto simp: preserves_def intro: pull_neutral)

lemma runner_steps_journaled:
  "preserves journaled (runner_code H R)" "preserves journaled (runner_created H call)"
  "preserves journaled (runner_endow H call created)"
  "preserves journaled (if b then returnM () else bindM (on_ext (warm_address a)) (\<lambda>_. returnM ()))"
  unfolding runner_code_def runner_created_def runner_endow_def register_created_def warm_touch_def Let_def
  by (intro journal_intros neutral_pull)+

lemma runner_steps_quiet:
  "quiet False 0 (runner_code H R)" "quiet False 0 (runner_created H call)"
  "quiet False 0 (runner_endow H call created)"
  "quiet False 0 (if b then returnM () else bindM (on_ext (warm_address a)) (\<lambda>_. returnM ()))"
  unfolding runner_code_def runner_created_def runner_endow_def Let_def
  by (rule quiet_pull quiet_account_get quiet_register quiet_intros refl | simp)+

lemma runner_gas_ready:
  assumes H: "overflow_checks H" and small: "unat (c_gas call) < 2 ^ 63"
  shows "triple (ready m0 l) (runner_gas H call) (\<lambda>upfront m.
     upfront = upfront_total call (x_tx_ctx (m_ext m0)) \<and>
     ready m0 (runner_frame_gas call (x_tx_ctx (m_ext m0))) m)"
proof -
  let ?t = "x_tx_ctx (m_ext m0)"
  have "triple (ready m0 l) (runner_gas H call) (\<lambda>upfront m.
      upfront = upfront_gas call + access_list_cost ?t \<and>
      ready m0 (uint (c_gas call) - (upfront_gas call + access_list_cost ?t)) m)"
    unfolding runner_gas_def Let_def
    by (rule triple_bind [OF ready_list_cost], rule triple_pre, rule triple_seq [OF ready_access_list],
        rule triple_bind [OF triple_gas_limit [OF small]], rule triple_pre,
        rule triple_bind [OF triple_i64 [OF H]], rule triple_pre, hypsubst, rule triple_new_gas)
  then show ?thesis by (simp add: runner_frame_gas_def upfront_total_def)
qed

section \<open>The frame of a creation and its settlement\<close>

definition after_frame :: "machine \<Rightarrow> int \<Rightarrow> machine \<Rightarrow> bool" where
  "after_frame m0 l m \<longleftrightarrow> journaled m0 m \<and> 0 \<le> g_used (m_gas m) \<and> g_used (m_gas m) \<le> l \<and>
     g_limit (m_gas m) = l"

lemma frame_triple:
  assumes "overflow_checks H" "0 \<le> l" "l + 2 \<le> int fuel"
  shows "triple (ready m0 l) (execute_with_context fuel H hdr code call ctx) (\<lambda>_. after_frame m0 l)"
  unfolding triple_def
proof (intro allI impI)
  fix m r m' assume m: "ready m0 l m" and run: "execute_with_context fuel H hdr code call ctx m = (r, m')"
  have inv: "frame_inv m" "g_used (m_gas m) \<le> g_limit (m_gas m)" using m assms(2) by (auto simp: ready_def)
  note ok = execute_with_context_ok [OF assms(1) inv run]
  have "journaled m0 m'" if "settled r"
    using execute_with_context_journaled [OF assms(1) inv run that] m journal.R_trans [of m0 m m']
    by (simp add: ready_def)
  then show "r \<noteq> OutOfFuel \<and> (\<forall>a. r = Ok a \<longrightarrow> after_frame m0 l m')"
    using ok m assms(3) by (auto simp: frame_ok_def ready_def gas_remaining_def after_frame_def)
qed

text \<open>What a creation that was not reverted owes.\<close>

definition deposit_paid :: "int \<Rightarrow> bytes \<Rightarrow> int \<Rightarrow> evm \<Rightarrow> bool" where
  "deposit_paid upfront ret g e \<longleftrightarrow> (\<not> e_reverted e \<longrightarrow>
     g = gas_finalized (e_gas e) (upfront + 200 * int (length ret)) False \<and>
     200 * int (length ret) \<le> gas_remaining (e_gas e))"

lemma deposit_triple:
  assumes small: "unat (c_gas call) < 2 ^ 63"
  shows "triple (after_frame m0 l) (code_deposit call upfront ret)
     (\<lambda>rg m. after_frame m0 l m \<and> deposit_paid upfront (fst rg) (snd rg) (m_evm m))"
proof (rule tripleI)
  fix m r m' assume "code_deposit call upfront ret m = (r, m')"
  then show "r \<noteq> OutOfFuel"
    by (auto simp: code_deposit_def catchM_def evm_gas_eq upd_evm_def monad_defs as_i64_def as_u64_def Let_def
        split: if_splits prod.splits res.splits)
next
  fix m rg m' assume p: "after_frame m0 l m" and run: "code_deposit call upfront ret m = (Ok rg, m')"
  have limit: "as_i64 (c_gas call) = (Ok (uint (c_gas call)) :: (int, exec_error) res)"
    using as_i64_small [OF small] by simp
  show "after_frame m0 l m' \<and> deposit_paid upfront (fst rg) (snd rg) (m_evm m')"
  proof (cases "\<not> e_reverted (m_evm m) \<and> gas_remaining (m_gas m) < 200 * int (length ret)")
    case True
    then have keep: "e_reverted (m_evm m')" "m_ext m' = m_ext m" "e_touches (m_evm m') = e_touches (m_evm m)"
      and gas: "g_limit (m_gas m') = l" "0 \<le> g_used (m_gas m')" "g_used (m_gas m') \<le> l"
      using run p
      by (auto simp: code_deposit_def catchM_def evm_gas_eq upd_evm_def monad_defs Let_def after_frame_def
          error_evm_def gas_remaining_def limit
          split: if_splits prod.splits res.splits)
    have "journaled m m'" by (rule journaled_quiet) (use keep in auto)
    then show ?thesis
      using p keep(1) gas journal.R_trans [of m0 m m'] by (auto simp: after_frame_def deposit_paid_def)
  next
    case False
    then have "m' = m" "rg = (ret, gas_finalized (m_gas m) (upfront + 200 * int (length ret)) (e_reverted (m_evm m)))"
      using run by (auto simp: code_deposit_def bindM_def getsM_def returnM_def Let_def split: if_splits)
    then show ?thesis using p False by (auto simp: deposit_paid_def)
  qed
qed

definition settling :: "machine \<Rightarrow> int \<Rightarrow> int \<Rightarrow> bytes \<Rightarrow> int \<Rightarrow> machine \<Rightarrow> bool" where
  "settling m0 l upfront ret g m \<longleftrightarrow> after_frame m0 l m \<and> deposit_paid upfront ret g (m_evm m)"

lemma settling_keep:
  assumes "preserves journaled c" "preserves mild c" "quiet b d c"
  shows "triple (settling m0 l upfront ret g) c (\<lambda>_. settling m0 l upfront ret g)"
proof (rule tripleI)
  fix m r m' assume "c m = (r, m')"
  then show "r \<noteq> OutOfFuel" by (rule quiet_fuel [OF assms(3)])
next
  fix m a m' assume p: "settling m0 l upfront ret g m" and run: "c m = (Ok a, m')"
  have "journaled m m'" "mild m m'" using preservesD [OF assms(1) run] preservesD [OF assms(2) run] by simp_all
  then show "settling m0 l upfront ret g m'"
    using p journal.R_trans [of m0 m m'] by (auto simp: settling_def after_frame_def deposit_paid_def mild_def)
qed

lemma coinbase_steps:
  "preserves journaled (runner_coinbase H hdr g)" "preserves mild (runner_coinbase H hdr g)"
  "quiet False 0 (runner_coinbase H hdr g)"
proof -
  show "preserves journaled (runner_coinbase H hdr g)"
    unfolding runner_coinbase_def Let_def by (intro journal_intros neutral_pull)
  show "preserves mild (runner_coinbase H hdr g)"
    unfolding runner_coinbase_def Let_def by (intro mild_intros neutral_pull neutral_misc)
  show "quiet False 0 (runner_coinbase H hdr g)"
    unfolding runner_coinbase_def Let_def
    by (rule quiet_pull quiet_account_get quiet_intros refl | simp add: fee_arith_fuel)+
qed

lemma settle_steps_mild:
  "preserves mild (nonce_plus_one a)" "preserves mild (nonce_recorded H a)"
  "preserves mild (install_code H a created code)" "preserves mild (charge_sender H a g)"
  unfolding nonce_plus_one_def nonce_recorded_def install_code_def charge_sender_def Let_def
  by (intro mild_intros neutral_pull neutral_misc)+

lemma quiet_nonce: "quiet False 0 (nonce_plus_one a)" "quiet False 0 (nonce_recorded H a)"
proof -
  show once: "quiet False 0 (nonce_plus_one a)"
    unfolding nonce_plus_one_def by (rule quiet_account_get quiet_intros refl | simp)+
  have "u64_succ H n \<noteq> OutOfFuel" for n by (simp add: u64_succ_def)
  then show "quiet False 0 (nonce_recorded H a)"
    unfolding nonce_recorded_def by - (rule once quiet_intros refl | simp)+
qed

lemma settle_steps_quiet:
  "quiet False 0 (install_code H a created code)" "quiet False 0 (charge_sender H a g)"
  unfolding install_code_def charge_sender_def Let_def
  by (rule quiet_pull quiet_nonce quiet_intros refl | simp add: fee_arith_fuel)+

lemma creation_settled:
  assumes "e_touches (m_evm m0) = []"
  shows "triple (\<lambda>m. e = m_evm m \<and> settling m0 l upfront ret g m)
    (if e_reverted e then seqM (on_ext (evm_revert e)) (nonce_recorded H a) else install_code H a created ret)
    (\<lambda>_ m. deposit_paid upfront ret g e \<and> g_limit (e_gas e) = l \<and> closing e m0 l m)"
proof -
  let ?P = "\<lambda>m. e = m_evm m \<and> settling m0 l upfront ret g m"
  have paid: "deposit_paid upfront ret g e \<and> g_limit (e_gas e) = l" if "?P m" for m using that by (auto simp: settling_def after_frame_def)
  have pre: "e = m_evm m \<and> journaled m0 m \<and> 0 \<le> g_used (m_gas m) \<and> g_used (m_gas m) \<le> l" if "?P m" for m
    using that by (auto simp: settling_def after_frame_def)
  note settle = triple_settle [OF assms, of e l, folded closing_def]
  show ?thesis
  proof (cases "e_reverted e")
    case True
    have "triple (\<lambda>m. e = m_evm m \<and> journaled m0 m \<and> 0 \<le> g_used (m_gas m) \<and> g_used (m_gas m) \<le> l)
        (seqM (on_ext (evm_revert e)) (nonce_recorded H a)) (\<lambda>_. closing e m0 l)"
      using settle True
      by (auto intro: triple_seq closing_mild [OF settle_steps_mild(2) quiet_nonce(2)])
    then show ?thesis using True paid pre unfolding triple_def by simp blast
  next
    case False
    have "triple (closing e m0 l) (install_code H a created ret) (\<lambda>_. closing e m0 l)"
      by (rule closing_mild [OF settle_steps_mild(3) settle_steps_quiet(1)])
    moreover have "closing e m0 l m" if "?P m" for m
      using pre [OF that] False by (auto simp: closing_def done_ok_def)
    ultimately show ?thesis using False paid unfolding triple_def by simp blast
  qed
qed

lemma report_triple:
  assumes "unat (c_gas call) < 2 ^ 63"
  shows "triple P (gas_report call g) (\<lambda>rep m. (gr_gas_use rep = g \<and> gr_gas_max rep = uint (c_gas call)) \<and> P m)"
proof (rule tripleI)
  have limit: "as_i64 (c_gas call) = (Ok (uint (c_gas call)) :: (int, exec_error) res)"
    using as_i64_small [OF assms] by simp
  fix m r m' assume "gas_report call g m = (r, m')"
  then show "r \<noteq> OutOfFuel"
    by (auto simp: gas_report_def monad_defs limit fee_arith_fuel arith_fuel split: prod.splits res.splits)
next
  have limit: "as_i64 (c_gas call) = (Ok (uint (c_gas call)) :: (int, exec_error) res)"
    using as_i64_small [OF assms] by simp
  fix m rep m' assume "P m" "gas_report call g m = (Ok rep, m')"
  then show "(gr_gas_use rep = g \<and> gr_gas_max rep = uint (c_gas call)) \<and> P m'"
    by (auto simp: gas_report_def bindM_Ok_iff liftM_def getsM_def returnM_def limit)
qed

section \<open>Whole runs\<close>

definition creation_done :: "machine \<Rightarrow> call \<Rightarrow> bytes \<times> gas_result \<Rightarrow> machine \<Rightarrow> bool" where
  "creation_done m0 call res m \<longleftrightarrow> (let t = x_tx_ctx (m_ext m0) in
     \<exists>e. deposit_paid (upfront_total call t) (fst res) (gr_gas_use (snd res)) e \<and>
       g_limit (e_gas e) = runner_frame_gas call t \<and>
       gr_gas_max (snd res) = uint (c_gas call) \<and> closing e m0 (runner_frame_gas call t) m)"

definition call_done :: "machine \<Rightarrow> call \<Rightarrow> bytes \<times> gas_result \<Rightarrow> machine \<Rightarrow> bool" where
  "call_done m0 call res m \<longleftrightarrow> (let t = x_tx_ctx (m_ext m0) in
     gr_gas_use (snd res) = gas_finalized (m_gas m) (upfront_total call t) (e_reverted (m_evm m)) \<and>
     gr_gas_max (snd res) = uint (c_gas call) \<and> done_ok m0 (runner_frame_gas call t) m \<and>
     charged call (access_list_cost t) (fst res) m)"

lemma runner_create_triple:
  assumes H: "overflow_checks H" and touches: "e_touches (m_evm m0) = []"
    and small: "unat (c_gas (r_call R)) < 2 ^ 63"
    and gas: "0 \<le> runner_frame_gas (r_call R) (x_tx_ctx (m_ext m0))"
      "runner_frame_gas (r_call R) (x_tx_ctx (m_ext m0)) + 2 \<le> int fuel"
  shows "triple (ready m0 (runner_frame_gas (r_call R) (x_tx_ctx (m_ext m0))))
    (runner_create fuel H R code created (upfront_total (r_call R) (x_tx_ctx (m_ext m0))))
    (creation_done m0 (r_call R))"
proof -
  let ?t = "x_tx_ctx (m_ext m0)" and ?call = "r_call R"
  let ?l = "runner_frame_gas ?call ?t" and ?u = "upfront_total ?call ?t"
  have evm: "triple (settling m0 ?l ?u ret g) (getsM m_evm) (\<lambda>e m. e = m_evm m \<and> settling m0 ?l ?u ret g m)" for ret g
    by (rule triple_gets) simp
  have tail: "triple (closing e m0 ?l) (seqM (charge_sender H (c_from ?call) g)
      (bindM (gas_report ?call g) (\<lambda>report. returnM (ret, report))))
      (\<lambda>res m. fst res = ret \<and> gr_gas_use (snd res) = g \<and> gr_gas_max (snd res) = uint (c_gas ?call) \<and> closing e m0 ?l m)"
    for e g and ret :: bytes
    by (rule triple_seq [OF closing_mild [OF settle_steps_mild(4) settle_steps_quiet(2)]],
        rule triple_bind [OF report_triple [OF small]], rule triple_pre, rule triple_return) simp
  have finish: "triple (\<lambda>m. deposit_paid ?u ret g e \<and> g_limit (e_gas e) = ?l \<and> closing e m0 ?l m)
      (seqM (charge_sender H (c_from ?call) g) (bindM (gas_report ?call g) (\<lambda>report. returnM (ret, report))))
      (creation_done m0 ?call)" for e g ret
    using tail [of e g ret] unfolding triple_def creation_done_def Let_def by blast
  have deposit: "triple (after_frame m0 ?l) (code_deposit ?call ?u ret)
      (\<lambda>rg. settling m0 ?l ?u (fst rg) (snd rg))" for ret
    using deposit_triple [OF small, of m0 ?l ?u ret] by (simp add: settling_def [abs_def])
  show ?thesis
    unfolding runner_create_def Let_def split_def
    by (rule triple_bind [OF frame_triple [OF H gas]], rule triple_bind [OF deposit],
        rule triple_seq [OF settling_keep [OF coinbase_steps]], rule triple_bind [OF evm],
        rule triple_seq [OF creation_settled [OF touches]], rule finish)
qed

text \<open>Steps after the fee event that add no event keep what it reports.\<close>

definition traces_kept :: "machine \<Rightarrow> machine \<Rightarrow> bool" where
  "traces_kept m m' \<longleftrightarrow> m_trace m' = m_trace m"

lemma nonce_bump_steps:
  "preserves mild (if b then bindM (nonce_plus_one a) (\<lambda>_. returnM ()) else returnM ())"
  "preserves traces_kept (if b then bindM (nonce_plus_one a) (\<lambda>_. returnM ()) else returnM ())"
  "quiet False 0 (if b then bindM (nonce_plus_one a) (\<lambda>_. returnM ()) else returnM ())"
proof -
  show "preserves mild (if b then bindM (nonce_plus_one a) (\<lambda>_. returnM ()) else returnM ())"
    by (intro mild_intros settle_steps_mild)
  show "preserves traces_kept (if b then bindM (nonce_plus_one a) (\<lambda>_. returnM ()) else returnM ())"
    by (auto simp: preserves_def traces_kept_def nonce_plus_one_def seqM_def bindM_def liftM_def returnM_def on_ext_def
        split: prod.splits res.splits)
  show "quiet False 0 (if b then bindM (nonce_plus_one a) (\<lambda>_. returnM ()) else returnM ())"
    by (rule quiet_nonce quiet_intros refl | simp)+
qed

lemma triple_charged:
  assumes "triple P c (\<lambda>_. P)" "preserves mild c" "preserves traces_kept c"
  shows "triple (\<lambda>m. P m \<and> charged call alc ret m) c (\<lambda>_ m. P m \<and> charged call alc ret m)"
proof (rule tripleI)
  fix m r m' assume "P m \<and> charged call alc ret m" "c m = (r, m')"
  then show "r \<noteq> OutOfFuel" using assms(1) unfolding triple_def by blast
next
  fix m a m' assume m: "P m \<and> charged call alc ret m" and run: "c m = (Ok a, m')"
  have "m_gas m' = m_gas m" "e_reverted (m_evm m') = e_reverted (m_evm m)" "m_trace m' = m_trace m"
    using preservesD [OF assms(2) run] preservesD [OF assms(3) run] by (simp_all add: mild_def traces_kept_def)
  then have "charged call alc ret m'"
    using m tx_gas_final_cong [of "m_evm m'" "m_evm m"] by (simp add: charged_def)
  then show "P m' \<and> charged call alc ret m'"
    using assms(1) m run unfolding triple_def by blast
qed

lemma runner_call_triple:
  assumes H: "overflow_checks H" and touches: "e_touches (m_evm m0) = []"
    and to_addr: "\<not> addr_is_zero (c_to (r_call R))" and small: "unat (c_gas (r_call R)) < 2 ^ 63"
    and gas: "0 \<le> runner_frame_gas (r_call R) (x_tx_ctx (m_ext m0))"
      "runner_frame_gas (r_call R) (x_tx_ctx (m_ext m0)) + 2 \<le> int fuel"
  shows "triple (ready m0 l) (runner_call fuel H R code (upfront_total (r_call R) (x_tx_ctx (m_ext m0))))
    (call_done m0 (r_call R))"
proof -
  let ?t = "x_tx_ctx (m_ext m0)" and ?call = "r_call R"
  let ?l = "runner_frame_gas ?call ?t" and ?u = "upfront_total ?call ?t"
  have l: "?l = tx_frame_gas ?call ?t" using to_addr by (rule runner_frame_gas_call)
  let ?alc = "access_list_cost ?t"
  let ?P = "\<lambda>ret m. done_ok m0 ?l m \<and> charged ?call ?alc ret m"
  have run: "triple (ready m0 l) (execute fuel H (r_header R) code ?call) ?P"
    using execute_triple_from [OF H touches small, of fuel l "r_header R" code] gas unfolding l by blast
  have evm: "triple (?P ret) (getsM m_evm) (\<lambda>e m. closing e m0 ?l m \<and> charged ?call ?alc ret m)" for ret
    by (rule triple_gets) (simp add: closing_def)
  have bump: "triple (\<lambda>m. closing e m0 ?l m \<and> charged ?call ?alc ret m)
      (if b then bindM (nonce_plus_one a) (\<lambda>_. returnM ()) else returnM ())
      (\<lambda>_ m. closing e m0 ?l m \<and> charged ?call ?alc ret m)" for e b a ret
    by (rule triple_charged [OF closing_mild [OF nonce_bump_steps(1,3)] nonce_bump_steps(1,2)])
  have report: "triple (\<lambda>m. closing e m0 ?l m \<and> charged ?call ?alc ret m)
      (bindM (gas_report ?call (gas_finalized (e_gas e) ?u (e_reverted e))) (\<lambda>report. returnM (ret, report)))
      (call_done m0 ?call)" for e and ret :: bytes
    by (rule triple_bind [OF report_triple [OF small]], rule triple_pre, rule triple_return)
      (auto simp: call_done_def closing_def)
  show ?thesis
    unfolding runner_call_def
    by (rule triple_bind [OF run], rule triple_bind [OF evm], rule triple_seq [OF bump], rule report)
qed

lemma runner_body_triple:
  assumes H: "overflow_checks H" and touches: "e_touches (m_evm m0) = []"
    and small: "unat (c_gas (r_call R)) < 2 ^ 63"
    and gas: "0 \<le> runner_frame_gas (r_call R) (x_tx_ctx (m_ext m0))"
      "runner_frame_gas (r_call R) (x_tx_ctx (m_ext m0)) + 2 \<le> int fuel"
  shows "triple (ready m0 0) (runner_body fuel H R)
    (if addr_is_zero (c_to (r_call R)) then creation_done m0 (r_call R) else call_done m0 (r_call R))"
proof -
  have branch: "triple (ready m0 (runner_frame_gas (r_call R) (x_tx_ctx (m_ext m0))))
      (if addr_is_zero (c_to (r_call R))
       then runner_create fuel H R code created (upfront_total (r_call R) (x_tx_ctx (m_ext m0)))
       else runner_call fuel H R code (upfront_total (r_call R) (x_tx_ctx (m_ext m0))))
      (if addr_is_zero (c_to (r_call R)) then creation_done m0 (r_call R) else call_done m0 (r_call R))"
    for code created
    using runner_create_triple [OF H touches small gas] runner_call_triple [OF H touches _ small gas] by simp
  show ?thesis
    unfolding runner_body_def
    by (rule triple_seq [OF ready_quiet [OF runner_steps_journaled(4) runner_steps_quiet(4)]],
        rule triple_bind [OF ready_quiet [OF runner_steps_journaled(1) runner_steps_quiet(1)]],
        rule triple_bind [OF runner_gas_ready [OF H small]], rule triple_pre, hypsubst,
        rule triple_bind [OF ready_quiet [OF runner_steps_journaled(2) runner_steps_quiet(2)]],
        rule triple_seq [OF ready_quiet [OF runner_steps_journaled(3) runner_steps_quiet(3)]], rule branch)
qed

end
