(* ===== verification/Fuel.thy ===== *)
theory Fuel
  imports ExecutorLaws
begin

text \<open>
  The fuel of the interpreter is an artefact of the model: a run that does not exhaust it gives
  the same result with any larger amount. \<open>extends c c'\<close> says that \<open>c'\<close> agrees with \<open>c\<close>
  wherever \<open>c\<close> does not run out of fuel; the combinators of the monad, the calls and creations,
  the instructions, the turns and finally the loop are monotone for it.
\<close>

definition extends :: "('s, 'e, 'a) monad \<Rightarrow> ('s, 'e, 'a) monad \<Rightarrow> bool" where
  "extends c c' \<longleftrightarrow> (\<forall>m. fst (c m) \<noteq> OutOfFuel \<longrightarrow> c' m = c m)"

lemma extends_refl: "extends c c"
  by (simp add: extends_def)

lemma extends_bind:
  assumes "extends c c'" "\<And>a. extends (f a) (f' a)"
  shows "extends (bindM c f) (bindM c' f')"
  unfolding extends_def
proof (intro allI impI)
  fix m assume fuel: "fst (bindM c f m) \<noteq> OutOfFuel"
  obtain r m1 where c: "c m = (r, m1)" by fastforce
  with fuel have "r \<noteq> OutOfFuel" by (auto simp: bindM_def)
  with c assms(1) have "c' m = (r, m1)" by (auto simp: extends_def)
  with c fuel assms(2) show "bindM c' f' m = bindM c f m"
    by (cases r) (auto simp: bindM_def extends_def)
qed

lemma extends_seq: "extends c c' \<Longrightarrow> extends k k' \<Longrightarrow> extends (seqM c k) (seqM c' k')"
  unfolding seqM_def by (rule extends_bind)

lemma extends_catch:
  assumes "extends c c'" "\<And>a. extends (f a) (f' a)" "\<And>e. extends (h e) (h' e)"
  shows "extends (catchM c f h) (catchM c' f' h')"
  unfolding extends_def
proof (intro allI impI)
  fix m assume fuel: "fst (catchM c f h m) \<noteq> OutOfFuel"
  obtain r m1 where c: "c m = (r, m1)" by fastforce
  with fuel have "r \<noteq> OutOfFuel" by (auto simp: catchM_def)
  with c assms(1) have "c' m = (r, m1)" by (auto simp: extends_def)
  with c fuel assms(2,3) show "catchM c' f' h' m = catchM c f h m"
    by (cases r) (auto simp: catchM_def extends_def)
qed

lemma extends_branch:
  "extends c c' \<Longrightarrow> extends k k' \<Longrightarrow> extends (if b then c else k) (if b then c' else k')"
  "(\<And>x y. extends (g x y) (g' x y)) \<Longrightarrow> extends (case p of (x, y) \<Rightarrow> g x y) (case p of (x, y) \<Rightarrow> g' x y)"
  by (auto split: prod.split)

lemmas extends_intros = extends_bind extends_seq extends_catch extends_branch extends_refl

definition extends_executor :: "executor \<Rightarrow> executor \<Rightarrow> bool" where
  "extends_executor exec exec' \<longleftrightarrow> (\<forall>code call ctx. extends (exec code call ctx) (exec' code call ctx))"

section \<open>Instructions are monotone in the executor of nested frames\<close>

lemma extends_run_inner:
  assumes "extends_executor exec exec'"
  shows "extends (run_inner exec code call ctx g) (run_inner exec' code call ctx g)"
  unfolding extends_def
proof (intro allI impI)
  fix m assume fuel: "fst (run_inner exec code call ctx g m) \<noteq> OutOfFuel"
  let ?i = "\<lparr>m_evm = inner_evm g, m_ext = m_ext m, m_ret = [], m_trace = log_fork (m_trace m)\<rparr>"
  obtain r m1 where e: "exec code call ctx ?i = (r, m1)" by fastforce
  with fuel have "r \<noteq> OutOfFuel" by (auto simp: run_inner_def)
  with e assms have "exec' code call ctx ?i = (r, m1)" by (auto simp: extends_executor_def extends_def)
  with e show "run_inner exec' code call ctx g m = run_inner exec code call ctx g m"
    by (simp add: run_inner_def)
qed

lemma extends_calls:
  assumes "extends_executor exec exec'"
  shows "extends (evm_call exec F) (evm_call exec' F)" "extends (evm_create exec F) (evm_create exec' F)"
  unfolding evm_call_def call_dispatch_def call_inner_def evm_create_def create_inner_def Let_def
  by (intro extends_intros extends_run_inner assms)+

lemma extends_call_ops:
  assumes "extends_executor exec exec'"
  shows "extends (op_CALL exec F) (op_CALL exec' F)" "extends (op_CALLCODE exec F) (op_CALLCODE exec' F)"
    "extends (op_DELEGATECALL exec F) (op_DELEGATECALL exec' F)"
    "extends (op_STATICCALL exec F) (op_STATICCALL exec' F)"
    "extends (op_CREATE exec F) (op_CREATE exec' F)" "extends (op_CREATE2 exec F) (op_CREATE2 exec' F)"
  unfolding op_CALL_def op_CALLCODE_def op_DELEGATECALL_def op_STATICCALL_def call_arm_def op_CREATE_def
    op_CREATE2_def Let_def
  by (intro extends_intros extends_calls assms)+

lemma extends_table:
  assumes "extends_executor exec exec'"
  shows "list_all2 (\<lambda>(c, h) (c', h'). c = c' \<and> extends (h F) (h' F)) (op_table exec) (op_table exec')"
  unfolding op_table_def list_all2_Cons prod.case
  by (intro conjI refl extends_refl extends_call_ops assms list_all2_Nil [THEN iffD2])

lemma map_of_rel:
  assumes "list_all2 (\<lambda>(c, h) (c', h'). c = c' \<and> R h h') t t'"
  shows "rel_option R (map_of t k) (map_of t' k)"
  using assms by (induction rule: list_all2_induct) auto

lemma extends_instruction:
  assumes "extends_executor exec exec'"
  shows "extends (execute_instruction exec F) (execute_instruction exec' F)"
proof -
  have "rel_option (\<lambda>h h'. extends (h F) (h' F)) (map_of (op_table exec) c) (map_of (op_table exec') c)" for c
    by (rule map_of_rel) (rule extends_table [OF assms])
  from this [of "unat (f_op F)"] show ?thesis unfolding execute_instruction_def Let_def
    by (cases "map_of (op_table exec) (unat (f_op F))"; cases "map_of (op_table exec') (unat (f_op F))")
      (simp_all add: extends_refl)
qed

lemma extends_turn:
  "extends_executor exec exec' \<Longrightarrow> extends (execute_turn exec F) (execute_turn exec' F)"
  unfolding execute_turn_def by (intro extends_intros extends_instruction)

lemma extends_enter:
  "extends_executor loop loop' \<Longrightarrow> extends_executor (enter_frame loop) (enter_frame loop')"
  unfolding extends_executor_def enter_frame_def by (intro allI extends_intros) blast

section \<open>The loop is monotone in the fuel\<close>

lemma extends_pointwise:
  "(\<And>m. b m \<Longrightarrow> extends (c m) (c' m)) \<Longrightarrow> extends (\<lambda>m. if b m then c m m else k m) (\<lambda>m. if b m then c' m m else k m)"
  by (auto simp: extends_def)

lemma loop_step:
  assumes "extends_executor (run_loop n H hdr) (run_loop k H hdr)"
  shows "extends_executor (run_loop (Suc n) H hdr) (run_loop (Suc k) H hdr)"
proof -
  have cont: "extends (case t of Finish bs \<Rightarrow> returnM bs | Continue \<Rightarrow> run_loop n H hdr code call ctx)
      (case t of Finish bs \<Rightarrow> returnM bs | Continue \<Rightarrow> run_loop k H hdr code call ctx)"
    for t code call ctx
    using assms by (cases t) (auto simp: extends_refl extends_executor_def)
  have "extends (run_loop (Suc n) H hdr code call ctx) (run_loop (Suc k) H hdr code call ctx)"
    for code call ctx
    unfolding run_loop.simps(2)
    by (rule extends_pointwise, intro extends_bind extends_turn extends_enter assms cont)
  then show ?thesis by (simp add: extends_executor_def)
qed

lemma run_loop_extends: "extends_executor (run_loop n H hdr) (run_loop (Suc n) H hdr)"
proof (induction n)
  case 0
  show ?case by (simp add: extends_executor_def extends_def)
next
  case (Suc n)
  then show ?case by (rule loop_step)
qed

lemma run_loop_more_fuel: "extends_executor (run_loop n H hdr) (run_loop (n + k) H hdr)"
proof (induction k)
  case 0
  show ?case by (simp add: extends_executor_def extends_refl)
next
  case (Suc k)
  then show ?case using run_loop_extends [of "n + k" H hdr]
    unfolding extends_executor_def extends_def by (metis add_Suc_right)
qed

lemma more_fuel:
  assumes "n \<le> n'" "fst (execute_with_context n H hdr code call ctx m) \<noteq> OutOfFuel"
  shows "execute_with_context n' H hdr code call ctx m = execute_with_context n H hdr code call ctx m"
  using extends_enter [OF run_loop_more_fuel [of n H hdr "n' - n"]] assms
  by (simp add: execute_with_context_def extends_executor_def extends_def)

end
