(* ===== verification/DataProps.thy ===== *)
theory DataProps
  imports Ext Opcodes Precompiles
begin

text \<open>
  Properties of the data layer: words and their bytes, the hexadecimal codec, addresses, block
  pricing, the opcode decoder and its jump table, the tracer, the lazily loaded world state, and
  the precompiled contracts.
\<close>

section \<open>Words and text\<close>

lemma hex_skip_le: "hex_skip s \<le> length s"
  by (auto simp: hex_skip_def)

text \<open>A 256-bit word is recovered from its 32 big-endian bytes, and every 32-byte string is
  the byte form of the word read from it (\<open>Word::from_bytes\<close>, \<open>Word::into_bytes\<close>).\<close>

theorem word_bytes_roundtrip:
  "from_bytes (into_bytes w) = w \<and> (length bs = 32 \<longrightarrow> into_bytes (from_bytes bs) = bs)"
  by simp

theorem word_bytes_roundtrip_witness:
  "from_bytes (into_bytes 0x1234) = 0x1234 \<and>
   into_bytes (from_bytes (replicate 31 0 @ [7])) = replicate 31 0 @ [7]"
  using word_bytes_roundtrip [of "0x1234" "replicate 31 0 @ [7]"] by simp

text \<open>The hexadecimal decoder: a string of at most \<open>2 * n\<close> hexadecimal digits, with or without
  the prefix \<open>0x\<close>, decodes to the \<open>n\<close> big-endian bytes of the number it denotes; a longer one
  and one with any other character panics.\<close>

theorem decode_spec:
  "decode n s = (if length s - hex_skip s \<le> 2 * n \<and> list_all is_hex (drop (hex_skip s) s)
     then Ok (to_be n (hex_val (drop (hex_skip s) s))) else (Panic :: (bytes, 'e) res))"
proof -
  have bad: "(decode n s :: (bytes, 'e) res) = Panic"
    if "\<not> list_all is_hex (drop (hex_skip s) s)" "length s - hex_skip s \<le> 2 * n"
  proof -
    from that(1) obtain k where k: "k < length s - hex_skip s" "\<not> is_hex (s ! (hex_skip s + k))"
      by (auto simp: list_all_length hex_skip_le)
    then have "(decode_loop s p (hex_skip s) (length s) n out :: (bytes, 'e) res) = Panic" for p out
      by (intro decode_loop_Panic [of "hex_skip s" "hex_skip s + k"]) auto
    moreover have "s \<noteq> []" using k(1) by auto
    ultimately show ?thesis using that(2) by (simp add: decode_def Let_def)
  qed
  show ?thesis
    using bad decode_digits [of s n] by (auto simp: decode_def Let_def)
qed

definition lower_hex :: "nat \<Rightarrow> byte" where
  "lower_hex d = of_nat (if d < 10 then 48 + d else 87 + d)"

definition hex_encode_ok :: "(bytes \<Rightarrow> bytes) \<Rightarrow> bool" where
  "hex_encode_ok enc \<longleftrightarrow>
     (\<forall>bs. enc bs = concat (map (\<lambda>b. [lower_hex (unat b div 16), lower_hex (unat b mod 16)]) bs))"

lemma digit_val_lower_hex:
  assumes "d < 16"
  shows "digit_val (lower_hex d) = d" "is_hex (lower_hex d)"
proof -
  have "list_all (\<lambda>d. digit_val (lower_hex d) = d \<and> is_hex (lower_hex d)) [0..<16]" by code_simp
  with assms show "digit_val (lower_hex d) = d" "is_hex (lower_hex d)"
    by (auto simp: list_all_iff)
qed

lemma hex_val_append: "hex_val (xs @ ys) = hex_val xs * 16 ^ length ys + hex_val ys"
  by (induction xs) (simp_all add: power_add algebra_simps)

lemma hex_of_bytes:
  defines "enc \<equiv> \<lambda>bs :: bytes. concat (map (\<lambda>b. [lower_hex (unat b div 16), lower_hex (unat b mod 16)]) bs)"
  shows "hex_val (enc bs) = be_nat bs" "list_all is_hex (enc bs)" "length (enc bs) = 2 * length bs"
proof -
  have d: "unat b div 16 < 16" for b :: byte using unat_byte_lt [of b] by linarith
  show "length (enc bs) = 2 * length bs" by (induction bs) (simp_all add: enc_def)
  show "list_all is_hex (enc bs)"
    by (induction bs) (simp_all add: enc_def digit_val_lower_hex d)
  show "hex_val (enc bs) = be_nat bs"
  proof (induction bs rule: rev_induct)
    case Nil
    then show ?case by (simp add: enc_def)
  next
    case (snoc b bs)
    have "enc (bs @ [b]) = enc bs @ [lower_hex (unat b div 16), lower_hex (unat b mod 16)]"
      by (simp add: enc_def)
    then have "hex_val (enc (bs @ [b])) = be_nat bs * 256 + (unat b div 16 * 16 + unat b mod 16)"
      using snoc d [of b] by (simp add: hex_val_append digit_val_lower_hex)
    then show ?case by simp
  qed
qed

lemma hex_val_dropWhile_zero: "hex_val (dropWhile (\<lambda>c. c = 48) s) = hex_val s"
proof (induction s)
  case (Cons c s)
  have "digit_val 48 = 0" by code_simp
  with Cons show ?case by simp
qed simp

lemma trim_0x_digits: "list_all is_hex s \<Longrightarrow> trim_0x s = s"
proof (cases s rule: trim_0x.cases)
  case (1 a b r)
  assume "list_all is_hex s"
  moreover have "\<not> is_hex 120" by code_simp
  ultimately show ?thesis using 1 by auto
qed auto

lemma hex_skip_digits: "list_all is_hex s \<Longrightarrow> hex_skip s = 0"
proof -
  assume a: "list_all is_hex s"
  have x: "\<not> is_hex 120" by code_simp
  have "s ! 1 \<noteq> 120" if "length s > 1"
    using a that x by (metis list_all_length)
  then show ?thesis unfolding hex_skip_def by presburger
qed

text \<open>The textual form of a word survives serialisation: \<open>Deserialize\<close> reads back what
  \<open>Serialize\<close> wrote, for any \<open>hex::encode\<close> that writes two lower-case digits per byte.\<close>

theorem word_serde_roundtrip:
  assumes "hex_encode_ok enc"
  shows "word_deserialize (word_serialize enc w) = (Ok w :: (u256, unit) res)"
proof -
  define e d s where "e = enc (into_bytes w)" and "d = dropWhile (\<lambda>c. c = 48) e"
    and "s = (if d = [] then [48] else d)"
  have "e = concat (map (\<lambda>b. [lower_hex (unat b div 16), lower_hex (unat b mod 16)]) (into_bytes w))"
    using assms by (simp only: hex_encode_ok_def e_def)
  then have h: "hex_val e = be_nat (into_bytes w)" "list_all is_hex e" "length e = 64"
    using hex_of_bytes [of "into_bytes w"] by simp_all
  have zero: "is_hex 48" "hex_val [48] = 0" by code_simp+
  have "set d \<subseteq> set e" unfolding d_def using set_dropWhileD by fastforce
  then have hexs: "list_all is_hex s"
    using h(2) zero(1) by (auto simp: s_def list_all_iff)
  have len: "length s \<le> 64"
    using length_dropWhile_le [of "\<lambda>c. c = 48" e] h(3) by (auto simp: s_def d_def)
  have "hex_val s = hex_val d" using zero(2) by (simp add: s_def)
  also have "\<dots> = be_nat (into_bytes w)" by (simp only: d_def hex_val_dropWhile_zero h(1))
  also have "\<dots> = unat w" using unat_from_bytes [of "into_bytes w"] by simp
  finally have val: "hex_val s = unat w" .
  have "word_serialize enc w = [48, 120] @ s"
    by (simp add: word_serialize_def Let_def s_def d_def e_def)
  then have "trim_0x (word_serialize enc w) = s"
    using trim_0x_digits [OF hexs] by simp
  moreover have "decode 32 s = (Ok (into_bytes w) :: (bytes, unit) res)"
    using decode_digits [of s 32] hexs len hex_skip_digits [OF hexs] val
    by (simp add: into_bytes_def)
  ultimately show ?thesis by (simp add: word_deserialize_def word_of_str_def)
qed

theorem word_serde_roundtrip_witness:
  "\<exists>enc. hex_encode_ok enc \<and> word_deserialize (word_serialize enc 255) = (Ok 255 :: (u256, unit) res)"
proof -
  let ?enc = "\<lambda>bs :: bytes. concat (map (\<lambda>b. [lower_hex (unat b div 16), lower_hex (unat b mod 16)]) bs)"
  have "hex_encode_ok ?enc" by (simp add: hex_encode_ok_def)
  with word_serde_roundtrip [of ?enc 255] show ?thesis by blast
qed

text \<open>Addresses and words: an address widened to a word and narrowed again is unchanged, and
  narrowing keeps exactly the low 160 bits.\<close>

theorem address_word_conversions:
  "addr_of_word (word_of_addr a) = a \<and> unat (word_of_addr a) = unat a \<and>
   unat (addr_of_word w) = unat w mod 2 ^ 160"
  by (simp add: unat_word_of_addr addr_of_word_unat)

text \<open>\<open>Address::create\<close> hashes the RLP encoding of the pair of sender address and nonce, so the
  new address is the low 20 bytes of the Keccak digest of that list.\<close>

theorem create_address_is_rlp:
  "addr_create keccak self nonce = addr_of_bytes (sub_list 12 32
     (keccak (rlp_list [rlp_string (addr_bytes self), rlp_string (minimal_bytes (unat nonce))])))"
  by (simp only: addr_create_def create_buffer_is_rlp)

text \<open>Modular addition and multiplication of words are exact: the intermediate sum or product is
  not truncated to 256 bits.\<close>

theorem modular_arithmetic_exact:
  assumes "m \<noteq> 0"
  shows "\<exists>s p. add_modulo a b m = (Ok s :: (u256, unit) res) \<and> unat s = (unat a + unat b) mod unat m \<and>
     mul_modulo a b m = (Ok p :: (u256, unit) res) \<and> unat p = unat a * unat b mod unat m"
proof -
  have "unat m > 0" using assms by (simp add: unat_gt_0)
  then have "x mod unat m < 2 ^ 256" for x using unat_u256_lt [of m] mod_less_divisor [of "unat m" x]
    by linarith
  then show ?thesis using assms
    by (simp add: add_modulo_def mul_modulo_def Let_def low_half_of_512)
qed

theorem modular_arithmetic_exact_witness:
  "\<exists>s p. add_modulo (- 1) (- 1) 7 = (Ok s :: (u256, unit) res) \<and>
     unat s = (unat (- 1 :: u256) + unat (- 1 :: u256)) mod unat (7 :: u256) \<and>
     mul_modulo (- 1) (- 1) 7 = (Ok p :: (u256, unit) res) \<and>
     unat p = unat (- 1 :: u256) * unat (- 1 :: u256) mod unat (7 :: u256)"
  by (rule modular_arithmetic_exact) simp

section \<open>Blocks\<close>

text \<open>The blob base fee is computed in finitely many turns of the \<open>fake_exponential\<close> loop for
  every header, in a build with or without overflow checks.\<close>

theorem blob_gas_price_terminates: "blob_gas_price checks h \<noteq> (OutOfFuel :: (u256, unit) res)"
  by simp

lemma blob_price_pos:
  assumes "fake_exponential True factor d = (Ok p :: (u256, 'e) res)" "0 < d" "d \<le> u128_max"
  shows "1 \<le> p"
proof -
  from assms(1) obtain out where loop: "fake_exp_loop True factor d 0 d 1 = Some (Ok out :: (nat, 'e) res)"
    and p: "p = of_nat (out div d)"
    by (auto simp: fake_exponential_def res_bind_Ok_iff split: option.splits if_splits)
  have "d \<le> out" using fake_exp_loop_ge [OF loop] by simp
  then have "1 \<le> out div d" using assms(2) by (simp add: Suc_le_eq div_greater_zero_iff)
  moreover have "out div d < 2 ^ 256"
  proof -
    have "out \<le> u128_max" by (rule fake_exp_loop_le [OF loop]) simp
    then have "out < 2 ^ 256" by simp
    then show ?thesis using div_le_dividend le_less_trans by blast
  qed
  ultimately show ?thesis unfolding p by (simp add: word_le_nat_alt unat_of_nat)
qed

text \<open>The blob base fee is never below one wei (\<open>MIN_BASE_FEE_PER_BLOB_GAS\<close>).\<close>

theorem blob_gas_price_min:
  assumes "blob_gas_price True h = (Ok p :: (u256, unit) res)"
  shows "1 \<le> p"
proof (cases "h_excess_blob_gas h = 0")
  case True
  with assms show ?thesis by (simp add: blob_gas_price_def)
next
  case False
  with assms obtain f :: u64 where "fake_exponential True (unat f) 3338477 = (Ok p :: (u256, unit) res)"
    by (auto simp: blob_gas_price_def res_bind_Ok_iff)
  then show ?thesis by (rule blob_price_pos) simp_all
qed

definition demo_header :: header where
  "demo_header = \<lparr>h_number = 20000000, h_hash = 0, h_size = 0, h_timestamp = 1719000000, h_base_fee = 7,
     h_state_root = 0, h_mix_hash = 0, h_parent_hash = 0, h_gas_limit = 30000000, h_gas_used = 0,
     h_blob_gas_used = 0, h_excess_blob_gas = 0, h_extra_data = 0, h_miner = 0x77\<rparr>"

theorem blob_gas_price_min_witness:
  "\<exists>p. blob_gas_price True demo_header = (Ok p :: (u256, unit) res) \<and> 1 \<le> p"
proof -
  have "blob_gas_price True demo_header = (Ok 1 :: (u256, unit) res)"
    by (simp add: blob_gas_price_def demo_header_def)
  with blob_gas_price_min [OF this] show ?thesis by blast
qed

section \<open>The decoder\<close>

lemma sorted_keys_unique:
  fixes t :: "(nat \<times> nat) list"
  assumes "sorted_wrt (<) (map fst t)" "(p, i) \<in> set t" "(p, j) \<in> set t"
  shows "i = j"
proof -
  have "distinct (map fst t)" using assms(1) by (simp add: strict_sorted_iff)
  with assms(2,3) show ?thesis by (metis eq_key_imp_eq_value)
qed

lemma resolve_jump_entry:
  assumes "sorted_wrt (<) (map fst (bc_jumptable bc))" "p \<noteq> 0"
  shows "resolve_jump bc p = Some i \<longleftrightarrow> (p, i) \<in> set (bc_jumptable bc)"
proof -
  let ?t = "bc_jumptable bc"
  have found: "(p, snd (?t ! m)) \<in> set ?t" if "bsearch ?t p 0 (length ?t) = Some m" for m
    using bsearch_Some [OF order_refl that] nth_mem [of m ?t] by (cases "?t ! m") auto
  have "bsearch ?t p 0 (length ?t) \<noteq> None" if "(p, i) \<in> set ?t"
  proof -
    from that obtain m where "m < length ?t" "?t ! m = (p, i)" by (auto simp: in_set_conv_nth)
    then show ?thesis by (intro bsearch_found [OF assms(1) order_refl, of 0 m]) auto
  qed
  moreover have "resolve_jump bc p = map_option (\<lambda>m. snd (?t ! m)) (bsearch ?t p 0 (length ?t))"
    using assms(2) by (simp add: resolve_jump_def split: option.split)
  ultimately show ?thesis using found sorted_keys_unique [OF assms(1)]
    by (metis (no_types, lifting) map_option_eq_Some not_None_eq)
qed

lemma resolve_jump_iff:
  assumes "p \<noteq> 0"
  shows "resolve_jump (decode_bytecode code) p = Some i \<longleftrightarrow>
     valid_jumpdest code p \<and> i < length (bc_instructions (decode_bytecode code)) \<and>
     i_offset (bc_instructions (decode_bytecode code) ! i) = p"
proof -
  let ?ps = "positions code 0"
  have "sorted_wrt (<) (map fst (bc_jumptable (decode_bytecode code)))"
    by (simp add: decode_bytecode_instructions jump_entries_sorted positions_sorted)
  from resolve_jump_entry [OF this assms]
  have "resolve_jump (decode_bytecode code) p = Some i \<longleftrightarrow> i < length ?ps \<and> ?ps ! i = p \<and> code ! p = 0x5b"
    by (simp add: decode_bytecode_instructions set_jump_entries)
  also have "\<dots> \<longleftrightarrow> i < length ?ps \<and> ?ps ! i = p \<and> valid_jumpdest code p"
    using positions_iff [of p code] nth_mem [of i ?ps] by (auto simp: valid_jumpdest_def)
  finally show ?thesis by (auto simp: decode_bytecode_instructions fst_decode_at)
qed

text \<open>C31. The jump table is exact: a non-zero offset resolves if and only if the byte there is a
  \<open>JUMPDEST\<close> that begins an instruction (not a byte of \<open>PUSH\<close> data), and it resolves to the
  index of the instruction that the decoder produced for that very offset.\<close>

theorem resolve_jump_exact:
  assumes "p \<noteq> 0"
  shows "resolve_jump (decode_bytecode code) p = Some i \<longleftrightarrow>
     valid_jumpdest code p \<and> i < length (bc_instructions (decode_bytecode code)) \<and>
     i_offset (bc_instructions (decode_bytecode code) ! i) = p"
  using assms by (rule resolve_jump_iff)

theorem resolve_jump_exact_witness:
  "resolve_jump (decode_bytecode [0x60, 0x5b, 0x5b]) 2 = Some 1 \<and>
   valid_jumpdest [0x60, 0x5b, 0x5b] 2 \<and> \<not> valid_jumpdest [0x60, 0x5b, 0x5b] 1"
proof -
  have "resolve_jump (decode_bytecode [0x60, 0x5b, 0x5b]) 2 = Some 1"
    "resolve_jump (decode_bytecode [0x60, 0x5b, 0x5b]) 1 = None" by code_simp+
  moreover have "i_offset (bc_instructions (decode_bytecode [0x60, 0x5b, 0x5b]) ! 0) = 0"
    "length (bc_instructions (decode_bytecode [0x60, 0x5b, 0x5b])) = 2" by code_simp+
  moreover have "\<not> instr_start [0x60, 0x5b, 0x5b] 1"
  proof -
    have "positions [0x60, 0x5b, 0x5b] 0 = [0, 2]" by code_simp
    then show ?thesis using positions_iff [of 1 "[0x60, 0x5b, 0x5b]"] by simp
  qed
  ultimately show ?thesis
    using resolve_jump_exact [of 2 "[0x60, 0x5b, 0x5b]" 1] by (simp add: valid_jumpdest_def)
qed

text \<open>C30. The decoder neither skips nor invents instructions: their offsets are, in increasing order,
  exactly the positions at which an instruction begins; each carries the opcode at its offset, and a
  \<open>PUSH\<close> carries the following bytes, padded with zeros where the code ends early.\<close>

theorem decoder_complete:
  fixes code :: bytes
  defines "instrs \<equiv> bc_instructions (decode_bytecode code)"
  shows "sorted_wrt (<) (map i_offset instrs) \<and>
     set (map i_offset instrs) = {p. instr_start code p \<and> p < length code} \<and>
     (\<forall>ins \<in> set instrs. i_opcode ins = get_opcode (code ! i_offset ins) \<and>
        i_argument ins = (let n = push_size (code ! i_offset ins) in
          if n = 0 then None else Some (resize0 n (take n (drop (i_offset ins + 1) code)))))"
proof -
  have offs: "map i_offset instrs = positions code 0"
    by (simp add: instrs_def decode_bytecode_instructions comp_def fst_decode_at)
  have arg: "i_argument (fst (decode_at code p)) = (let n = push_size (code ! p) in
      if n = 0 then None else Some (resize0 n (take n (drop (p + 1) code))))" if "p < length code" for p
    using that by (auto simp: decode_at_def Let_def push_len_get_opcode splice_at_def sub_list_def
        resize0_def min_def)
  show ?thesis
  proof (intro conjI ballI)
    show "sorted_wrt (<) (map i_offset instrs)" by (simp add: offs positions_sorted)
    show "set (map i_offset instrs) = {p. instr_start code p \<and> p < length code}"
      using positions_iff [of _ code] by (auto simp: offs)
  next
    fix ins assume "ins \<in> set instrs"
    then obtain p where "p \<in> set (positions code 0)" "ins = fst (decode_at code p)"
      by (auto simp: instrs_def decode_bytecode_instructions)
    then show "i_opcode ins = get_opcode (code ! i_offset ins)"
      "i_argument ins = (let n = push_size (code ! i_offset ins) in
          if n = 0 then None else Some (resize0 n (take n (drop (i_offset ins + 1) code))))"
      using positions_ge [of p code 0] arg [of p] by (simp_all add: fst_decode_at Let_def)
  qed
qed

theorem decoder_complete_witness:
  "i_argument (bc_instructions (decode_bytecode [0x61, 0xff]) ! 0) = Some [0xff, 0]"
proof -
  let ?i = "bc_instructions (decode_bytecode [0x61, 0xff]) ! 0"
  have "length (bc_instructions (decode_bytecode [0x61, 0xff])) = 1" by code_simp
  then have "?i \<in> set (bc_instructions (decode_bytecode [0x61, 0xff]))" by (intro nth_mem) simp
  moreover have "i_offset ?i = 0" "push_size 0x61 = 2" by code_simp+
  ultimately show ?thesis using decoder_complete [of "[0x61, 0xff]"]
    by (simp add: resize0_def Let_def)
qed

section \<open>The tracer\<close>

text \<open>Joining the tracer of a finished nested frame appends its events, in order and with their
  data, after those already recorded, and marks each of them with the outcome of that frame.\<close>

theorem tracer_join_appends:
  "\<exists>es. log_peek (log_join t u r) = log_peek t @ es \<and> map ev_data es = map ev_data (log_peek u) \<and>
     map ev_depth es = map ev_depth (log_peek u) \<and> list_all (\<lambda>e. ev_reverted e = r) es"
  by (rule exI [of _ "map (mark_event r) (log_peek u)"])
    (simp add: log_join_eq log_peek_def mark_event_def list_all_iff)

section \<open>The world state\<close>

definition demo_remote :: remote where
  "demo_remote = \<lparr>rm_balance = (\<lambda>_. Some 1000), rm_nonce = (\<lambda>_. Some 5), rm_code = (\<lambda>_. Some [0x00]),
     rm_storage = (\<lambda>_ _. Some 7), rm_block_hash = (\<lambda>_. Some 0)\<rparr>"

definition demo_tx_context :: tx_context where
  "demo_tx_context = \<lparr>t_gas_price = 10, t_gas_max_fee = 0, t_blob_max_fee = 0, t_gas_max_priority_fee = 0,
     t_blob_gas_used = 0, t_access_list = [\<lparr>al_address = 0x42, al_storage_keys = [1, 2]\<rparr>]\<rparr>"

definition demo_ext :: ext where
  "demo_ext = \<lparr>x_remote = Some demo_remote, x_state = Map.empty, x_original = Map.empty,
     x_transient = Map.empty, x_accessed_addresses = {}, x_accessed_storage = {},
     x_created_accounts = [], x_destroyed_accounts = [], x_tx_ctx = demo_tx_context\<rparr>"



text \<open>Storage is read-your-writes: \<open>put\<close> always succeeds, a \<open>get\<close> of the same slot then returns
  the value written, and every other slot reads as before.\<close>

theorem storage_read_your_writes:
  "\<exists>x1 x2. ext_put H a k v x = (Ok (), x1) \<and> ext_get H a k x1 = (Ok v, x2) \<and>
     storage_view x1 = (storage_view x)((a, k) := Some v)"
proof -
  let ?y = "set_slot a k v x"
  obtain acc where acc: "x_state ?y a = Some acc" "a_state acc k = Some v"
    by (simp add: set_slot_def Let_def)
  then have got: "ext_get H a k ?y = (Ok v, note_original a k v ?y)" by (simp add: ext_get_present)
  define x1 where "x1 = (if tracing_feature H then note_original a k v ?y else ?y)"
  have put: "ext_put H a k v x = (Ok (), x1)" by (simp add: x1_def ext_put_def monad_defs got)
  have "x_state x1 a = Some acc" using acc by (auto simp: x1_def note_original_def split: option.split)
  then have "ext_get H a k x1 = (Ok v, note_original a k v x1)" using acc(2) by (simp add: ext_get_present)
  moreover have "storage_view x1 = (storage_view x)((a, k) := Some v)"
    by (auto simp: x1_def storage_view_set_slot)
  ultimately show ?thesis using put by blast
qed

text \<open>Writing back the value that was read before a write restores the whole storage, which is how
  the journal undoes an \<open>SSTORE\<close>.\<close>

theorem storage_write_back:
  assumes "ext_get H a k x = (Ok old, x1)" and "ext_put H a k new x1 = (Ok (), x2)"
    and "ext_put H a k old x2 = (Ok (), x3)"
  shows "storage_view x3 = storage_view x"
  using slots.store_back [of H "(a, k)" x old x1 new "()" x2 "()" x3] assms by simp

theorem storage_write_back_witness:
  "\<exists>x1 x2 x3. ext_get demo_host 0x42 3 demo_ext = (Ok 7, x1) \<and>
     ext_put demo_host 0x42 3 9 x1 = (Ok (), x2) \<and> ext_put demo_host 0x42 3 7 x2 = (Ok (), x3) \<and>
     storage_view x3 = storage_view demo_ext"
proof -
  obtain x1 where g: "ext_get demo_host 0x42 3 demo_ext = (Ok 7, x1)"
    by (simp add: ext_get_def ext_pull_def cached_slot_def demo_ext_def demo_remote_def query_def
        monad_defs Let_def)
  obtain x2 where p: "ext_put demo_host 0x42 3 9 x1 = (Ok (), x2)" using ext_put_eq by blast
  obtain x3 where q: "ext_put demo_host 0x42 3 7 x2 = (Ok (), x3)" using ext_put_eq by blast
  from storage_write_back [OF g p q] g p q show ?thesis by blast
qed

lemma foldl_delete: "foldl (\<lambda>m a. m(a := None)) M as a = (if a \<in> set as then None else M a)"
  by (induction "as" arbitrary: M) auto

text \<open>Between transactions \<open>reset\<close> forgets the access sets, the original and the transient storage,
  removes exactly the accounts destroyed by the finished transaction and keeps every other one.\<close>

theorem ext_reset_clears:
  fixes x :: ext and ctx :: tx_context
  defines "y \<equiv> ext_reset ctx x"
  shows "\<not> is_address_warm y a \<and> \<not> is_storage_warm y a k \<and> x_transient y = Map.empty \<and>
     x_original y = Map.empty \<and> x_tx_ctx y = ctx \<and> x_destroyed_accounts y = [] \<and>
     x_state y a = (if a \<in> set (x_destroyed_accounts x) then None else x_state x a)"
  by (simp add: y_def ext_reset_def is_address_warm_def is_storage_warm_def foldl_delete)

lemma warm_keys_eq: "warm_keys a ks x = (Ok (), x\<lparr>x_accessed_storage := x_accessed_storage x \<union> {a} \<times> set ks\<rparr>)"
proof (induction ks arbitrary: x)
  case Nil
  then show ?case by (simp add: returnM_def)
next
  case (Cons k ks)
  then show ?case by (auto simp: seqM_def bindM_def warm_storage_def intro!: arg_cong [where f = "\<lambda>s. _\<lparr>x_accessed_storage := s\<rparr>"])
qed

definition listed_slots :: "access_list_item list \<Rightarrow> (addr160 \<times> u256) set" where
  "listed_slots items = (\<Union>i \<in> set items. {al_address i} \<times> set (al_storage_keys i))"

lemma warm_items_eq:
  "warm_items items x = (Ok (), x\<lparr>x_accessed_addresses := x_accessed_addresses x \<union> al_address ` set items,
     x_accessed_storage := x_accessed_storage x \<union> listed_slots items\<rparr>)"
proof (induction items arbitrary: x)
  case Nil
  then show ?case by (simp add: returnM_def listed_slots_def)
next
  case (Cons i items)
  have "listed_slots (i # items) = {al_address i} \<times> set (al_storage_keys i) \<union> listed_slots items"
    by (simp add: listed_slots_def)
  with Cons show ?case by (simp add: seqM_def bindM_def warm_address_def warm_keys_eq Un_assoc)
qed

lemma access_list_cost_sum:
  "access_list_cost t = 2400 * int (length (t_access_list t))
     + 1900 * int (sum_list (map (\<lambda>i. length (al_storage_keys i)) (t_access_list t)))"
proof -
  have eq: "foldl (\<lambda>cost item. cost + 2400 + 1900 * int (length (al_storage_keys item))) c items =
      c + 2400 * int (length items) + 1900 * int (sum_list (map (\<lambda>i. length (al_storage_keys i)) items))"
    for c items
    by (induction items arbitrary: c) (simp_all add: algebra_simps)
  show ?thesis unfolding access_list_cost_def eq by simp
qed

text \<open>The access list of a transaction (EIP-2930) warms exactly the listed addresses and slots, on
  top of those already warm, and costs 2400 gas per address and 1900 per slot.\<close>

theorem access_list_warms:
  fixes x :: ext
  defines "items \<equiv> t_access_list (x_tx_ctx x)"
  shows "\<exists>x'. apply_access_list x = (Ok (), x') \<and>
     (\<forall>a. is_address_warm x' a \<longleftrightarrow> is_address_warm x a \<or> a \<in> al_address ` set items) \<and>
     (\<forall>a k. is_storage_warm x' a k \<longleftrightarrow> is_storage_warm x a k \<or>
        (\<exists>i \<in> set items. al_address i = a \<and> k \<in> set (al_storage_keys i))) \<and>
     access_list_cost (x_tx_ctx x) = 2400 * int (length items)
       + 1900 * int (sum_list (map (\<lambda>i. length (al_storage_keys i)) items))"
  by (auto simp: items_def apply_access_list_def bindM_def getsM_def warm_items_eq is_address_warm_def
      is_storage_warm_def listed_slots_def access_list_cost_sum)

theorem access_list_warms_witness:
  "\<exists>x'. apply_access_list demo_ext = (Ok (), x') \<and> is_storage_warm x' 0x42 2 \<and>
     access_list_cost demo_tx_context = 6200"
  using access_list_warms [of demo_ext] by (auto simp: demo_ext_def demo_tx_context_def)

section \<open>Precompiled contracts\<close>

lemma addr_bytes_split: "addr_bytes a = take 19 (addr_bytes a) @ [addr_bytes a ! 19]"
  using take_Suc_conv_app_nth [of 19 "addr_bytes a"] by simp

lemma take_zeros_iff:
  assumes "n \<le> length bs"
  shows "take n bs = replicate n 0 \<longleftrightarrow> be_nat (take n bs) = 0"
proof
  assume "be_nat (take n bs) = 0"
  then have "list_all (\<lambda>b. b = 0) (take n bs)" by (simp only: be_nat_eq_0_iff)
  then show "take n bs = replicate n 0" using assms by (intro replicate_eqI) (auto simp: list_all_iff)
qed simp

lemma unat_addr_split: "unat a = be_nat (take 19 (addr_bytes a)) * 256 + unat (addr_bytes a ! 19)"
  by (metis addr_bytes_split be_nat_addr_bytes be_nat_snoc)

lemma unat_addr_split2:
  "unat a = be_nat (take 18 (addr_bytes a)) * 65536 + unat (addr_bytes a ! 18) * 256 + unat (addr_bytes a ! 19)"
  using unat_addr_split [of a] take_Suc_conv_app_nth [of 18 "addr_bytes a"] by simp

lemma low_bytes_arith:
  fixes x y z :: nat
  assumes "y < 256" "z < 256"
  shows "x * 65536 + y * 256 + z = 256 \<longleftrightarrow> x = 0 \<and> y = 1 \<and> z = 0"
    and "1 \<le> x * 256 + z \<and> x * 256 + z \<le> 10 \<longleftrightarrow> x = 0 \<and> 1 \<le> z \<and> z \<le> 10"
proof -
  show "x * 65536 + y * 256 + z = 256 \<longleftrightarrow> x = 0 \<and> y = 1 \<and> z = 0"
    using assms by (cases "x = 0") (auto, arith)
  show "1 \<le> x * 256 + z \<and> x * 256 + z \<le> 10 \<longleftrightarrow> x = 0 \<and> 1 \<le> z \<and> z \<le> 10"
    using assms by (cases "x = 0") auto
qed

lemma is_p256_iff: "is_p256 a \<longleftrightarrow> unat a = 256"
proof -
  have lt: "unat (addr_bytes a ! 18) < 256" "unat (addr_bytes a ! 19) < 256" by simp_all
  have "is_p256 a \<longleftrightarrow> be_nat (take 18 (addr_bytes a)) = 0 \<and> unat (addr_bytes a ! 18) = 1 \<and>
      unat (addr_bytes a ! 19) = 0"
    using take_zeros_iff [of 18 "addr_bytes a"]
    by (simp add: is_p256_def Let_def word_unat_eq_iff [of "addr_bytes a ! 18"] unat_eq_0)
  also have "\<dots> \<longleftrightarrow> unat a = 256"
    by (simp only: unat_addr_split2 [of a] low_bytes_arith(1) [OF lt])
  finally show ?thesis .
qed

text \<open>The precompiled contracts are exactly the addresses 1 to 10 and 0x100.\<close>

theorem is_precompile_iff: "is_precompile a \<longleftrightarrow> unat a \<in> {1..10} \<union> {256}"
proof -
  have lt: "unat (addr_bytes a ! 19) < 256" by simp
  have "take 19 (addr_bytes a) = replicate 19 0 \<and> 1 \<le> addr_bytes a ! 19 \<and> addr_bytes a ! 19 \<le> 10 \<longleftrightarrow>
      be_nat (take 19 (addr_bytes a)) = 0 \<and> 1 \<le> unat (addr_bytes a ! 19) \<and> unat (addr_bytes a ! 19) \<le> 10"
    using take_zeros_iff [of 19 "addr_bytes a"] by (simp add: word_le_nat_alt)
  also have "\<dots> \<longleftrightarrow> 1 \<le> unat a \<and> unat a \<le> 10"
    by (simp only: unat_addr_split [of a] low_bytes_arith(2) [OF lt lt])
  finally show ?thesis by (auto simp: is_precompile_def Let_def is_p256_iff)
qed








end
