(* ===== verification/InstrProps.thy ===== *)
theory InstrProps
  imports Executor DataProps
begin

text \<open>
  What single instructions compute. \<open>advance stk m\<close> is the machine after an instruction that
  replaces the stack by \<open>stk\<close> and goes on to the next one; the theorems say which stack that is,
  what the instruction costs and when it fails.
\<close>

unbundle bit_operations_syntax

definition advance :: "u256 list \<Rightarrow> machine \<Rightarrow> machine" where
  "advance stk m = m\<lparr>m_evm := (m_evm m)\<lparr>e_stack := stk, e_pc := e_pc (m_evm m) + 1\<rparr>\<rparr>"

lemmas eval_step = fixed_cost_def guard_gas_def evm_pop_eq evm_push_eq next_pc_eq pop2_push_def
  pop_usize_def or_panic_def monad_defs advance_def

lemma two_operands:
  assumes "m_stack m = s @ [b, a]"
  shows "m_stack m \<noteq> []" "last (m_stack m) = a" "butlast (m_stack m) = s @ [b]"
    "butlast (butlast (m_stack m)) = s" "last (butlast (m_stack m)) = b"
  using assms by (simp_all add: butlast_append)

lemma pop2_push_eval:
  assumes "m_stack m = s @ [b, a]" "length (m_stack m) \<le> 1024" "g \<le> m_remaining m"
  shows "fixed_cost g (pop2_push f) m = (Ok (StepOk g), advance (s @ [f a b]) m)"
  using assms two_operands [OF assms(1)] by (simp add: eval_step)

section \<open>Arithmetic and logic\<close>

text \<open>The two-operand instructions: with at least 5 gas left they replace the two topmost words by
  the result (wrap-around arithmetic, division by zero giving zero, unsigned and signed comparison,
  bitwise logic), advance by one instruction and report their price.\<close>

theorem binary_instructions:
  assumes "m_stack m = s @ [b, a]" "length (m_stack m) \<le> 1024" "5 \<le> m_remaining m"
  shows "op_ADD F m = (Ok (StepOk 3), advance (s @ [a + b]) m) \<and>
    op_MUL F m = (Ok (StepOk 5), advance (s @ [a * b]) m) \<and>
    op_SUB F m = (Ok (StepOk 3), advance (s @ [a - b]) m) \<and>
    op_DIV F m = (Ok (StepOk 5), advance (s @ [if b = 0 then 0 else a div b]) m) \<and>
    op_MOD F m = (Ok (StepOk 5), advance (s @ [if b = 0 then 0 else a mod b]) m) \<and>
    op_LT F m = (Ok (StepOk 3), advance (s @ [if unat a < unat b then 1 else 0]) m) \<and>
    op_GT F m = (Ok (StepOk 3), advance (s @ [if unat b < unat a then 1 else 0]) m) \<and>
    op_SLT F m = (Ok (StepOk 3), advance (s @ [if sint a < sint b then 1 else 0]) m) \<and>
    op_SGT F m = (Ok (StepOk 3), advance (s @ [if sint b < sint a then 1 else 0]) m) \<and>
    op_EQ F m = (Ok (StepOk 3), advance (s @ [if a = b then 1 else 0]) m) \<and>
    op_AND F m = (Ok (StepOk 3), advance (s @ [a AND b]) m) \<and>
    op_OR F m = (Ok (StepOk 3), advance (s @ [a OR b]) m) \<and>
    op_XOR F m = (Ok (StepOk 3), advance (s @ [a XOR b]) m)"
proof -
  have g3: "3 \<le> m_remaining m" using assms(3) by simp
  have div: "op_DIV F m = (Ok (StepOk 5), advance (s @ [if b = 0 then 0 else a div b]) m)"
    using assms two_operands [OF assms(1)] by (simp add: eval_step op_DIV_def is_zero_def word_div_def)
  have mod: "op_MOD F m = (Ok (StepOk 5), advance (s @ [if b = 0 then 0 else a mod b]) m)"
    using assms two_operands [OF assms(1)] by (simp add: eval_step op_MOD_def is_zero_def word_rem_def)
  note e3 = pop2_push_eval [OF assms(1,2) g3] and e5 = pop2_push_eval [OF assms(1-3)]
  show ?thesis
    by (intro conjI div mod;
        simp add: op_ADD_def op_MUL_def op_SUB_def op_LT_def op_GT_def op_SLT_def op_SGT_def op_EQ_def
          op_AND_def op_OR_def op_XOR_def e3 e5 overflowing_add_def overflowing_mul_def
          overflowing_sub_def flag_def word_less_nat_alt)
qed

definition demo_machine :: "u256 list \<Rightarrow> machine" where
  "demo_machine stk = \<lparr>m_evm = evm_default\<lparr>e_stack := stk, e_gas := gas_new 100000\<rparr>, m_ext = demo_ext,
     m_ret = [], m_trace = []\<rparr>"

definition demo_call :: call where
  "demo_call = \<lparr>c_data = [1, 2, 3], c_value = 0, c_from = 0x11, c_to = 0x42, c_gas = 100000\<rparr>"

definition demo_frame :: "bytes \<Rightarrow> nat \<Rightarrow> frame" where
  "demo_frame code i = \<lparr>f_host = demo_host, f_header = demo_header, f_code = decode_bytecode code,
     f_call = demo_call, f_ctx = context_default\<lparr>k_depth := 1\<rparr>,
     f_instr = fst (decode_at code i)\<rparr>"

lemma demo_machine_sel [simp]:
  "m_stack (demo_machine stk) = stk" "m_remaining (demo_machine stk) = 100000"
  "m_memory (demo_machine stk) = []" "m_ext (demo_machine stk) = demo_ext"
  "e_mem_cost (m_evm (demo_machine stk)) = 0"
  by (simp_all add: demo_machine_def evm_default_def gas_remaining_def gas_new_def)

theorem binary_instructions_witness:
  "op_SUB (demo_frame [0x03] 0) (demo_machine [9, 3, 5])
     = (Ok (StepOk 3), advance [9, 2] (demo_machine [9, 3, 5]))"
  using binary_instructions [of "demo_machine [9, 3, 5]" "[9]" 3 5 "demo_frame [0x03] 0"] by simp

lemma i256_min_sint: "sint i256_min = - (2 ^ 255)"
  by (simp add: i256_min_def)

lemma sdiv_overflow: "word_of_int (trunc_div (- (2 ^ 255)) (- 1)) = i256_min"
  by (simp add: i256_min_def trunc_div_def)

lemma smod_overflow: "word_of_int (trunc_rem (- (2 ^ 255)) (- 1)) = (0 :: u256)"
  by (simp add: trunc_rem_def)

lemma sint_eq_iff: "sint (a :: u256) = sint b \<longleftrightarrow> a = b"
  by (metis word_eq_iff_signed)

text \<open>Signed division truncates towards zero and wraps in the one overflowing case
  \<open>- 2^255 / - 1\<close>; division by zero gives zero.\<close>

theorem sdiv_spec:
  assumes "host_ok (f_host F)" "m_stack m = s @ [b, a]" "length (m_stack m) \<le> 1024" "5 \<le> m_remaining m"
  shows "op_SDIV F m = (Ok (StepOk 5),
    advance (s @ [if b = 0 then 0 else word_of_int (trunc_div (sint a) (sint b))]) m)"
proof -
  have "a = i256_min \<and> b = - 1 \<longleftrightarrow> sint a = - (2 ^ 255) \<and> sint b = - 1"
    using sint_eq_iff [of a i256_min] sint_eq_iff [of b "- 1"] by (simp add: i256_min_sint)
  then have "(if a = i256_min \<and> b = - 1 then returnM i256_min else or_panic (i256_div (f_host F) a b))
      = (returnM (word_of_int (trunc_div (sint a) (sint b))) :: u256 exec)" if "b \<noteq> 0"
    using host_ok_i256(1) [OF assms(1) that, of a] sdiv_overflow by (auto simp: or_panic_def i256_min_sint)
  then show ?thesis
    using assms two_operands [OF assms(2)]
    by (simp add: op_SDIV_def fixed_cost_def guard_gas_def evm_pop_eq evm_push_eq next_pc_eq advance_def
        is_zero_def monad_defs)
qed

theorem sdiv_spec_witness:
  "op_SDIV (demo_frame [0x05] 0) (demo_machine [- 2, 7])
     = (Ok (StepOk 5), advance [- 3] (demo_machine [- 2, 7]))"
proof -
  have "word_of_int (trunc_div (sint (7 :: u256)) (sint (- 2 :: u256))) = (- 3 :: u256)" by code_simp
  moreover have "host_ok (f_host (demo_frame [0x05] 0))" by (simp add: demo_frame_def demo_host_ok)
  ultimately show ?thesis using sdiv_spec [of "demo_frame [0x05] 0" "demo_machine [- 2, 7]" "[]" "- 2" 7]
    by simp
qed

lemma one_operand:
  assumes "m_stack m = s @ [a]"
  shows "m_stack m \<noteq> []" "last (m_stack m) = a" "butlast (m_stack m) = s"
  using assms by simp_all

text \<open>\<open>SIGNEXTEND\<close> with a byte index below 32 is two's complement sign extension from bit
  \<open>8 x + 7\<close>.\<close>

theorem signextend_spec:
  assumes "m_stack m = s @ [b, x]" "unat x < 32" "length (m_stack m) \<le> 1024" "5 \<le> m_remaining m"
  shows "op_SIGNEXTEND F m
    = (Ok (StepOk 5), advance (s @ [signed_take_bit (8 * unat x + 7) b]) m)"
proof -
  define i where "i = 8 * unat x + 7"
  have i: "i < 256" using assms(2) by (simp add: i_def)
  have idx: "sign_bit_index (f_host F) (unat x) = Ok i"
    using assms(2) by (simp add: sign_bit_index_def usize_add_def usize_sub_def i_def)
  have neg: "b OR push_bit (i + 1) (- 1) = signed_take_bit i b" if "bit b i"
  proof (rule bit_word_eqI)
    fix n assume "n < LENGTH(256)"
    with that i show "bit (b OR push_bit (i + 1) (- 1)) n = bit (signed_take_bit i b) n"
      by (cases "n \<le> i") (auto simp: bit_simps)
  qed
  have pos: "b AND NOT (push_bit (i + 1) (- 1)) = signed_take_bit i b" if "\<not> bit b i"
  proof (rule bit_word_eqI)
    fix n assume "n < LENGTH(256)"
    with that i show "bit (b AND NOT (push_bit (i + 1) (- 1))) n = bit (signed_take_bit i b) n"
      by (cases "n \<le> i") (auto simp: bit_simps)
  qed
  show ?thesis
    using assms i two_operands [OF assms(1)] neg pos
    by (simp add: op_SIGNEXTEND_def eval_step as_usize_def idx word_bit_def word_shl_def Let_def
        i_def [symmetric])
qed

theorem signextend_spec_witness:
  "op_SIGNEXTEND (demo_frame [0x0b] 0) (demo_machine [0x80, 0])
     = (Ok (StepOk 5), advance [- 128] (demo_machine [0x80, 0]))"
proof -
  have "signed_take_bit 7 (0x80 :: u256) = - 128" by simp
  then show ?thesis
    using signextend_spec [of "demo_machine [0x80, 0]" "[]" "0x80" 0 "demo_frame [0x0b] 0"] by simp
qed

lemma push_bit_unat: "unat (push_bit n (v :: u256)) = unat v * 2 ^ n mod 2 ^ 256"
  by (simp only: unsigned_push_bit_eq take_bit_eq_mod push_bit_eq_mult [where ?'a = nat]) simp

text \<open>Shifts and byte extraction by an amount below \<open>2^64\<close>: \<open>SHL\<close> multiplies by a power of two
  modulo \<open>2^256\<close>, \<open>SHR\<close> divides rounding down, \<open>SAR\<close> (below 256) divides the signed value rounding
  down, \<open>BYTE\<close> reads the byte at a big-endian index and gives zero beyond the 32nd.\<close>

theorem shift_instructions:
  assumes "m_stack m = s @ [v, n]" "unat n < 2 ^ 64" "length (m_stack m) \<le> 1024" "3 \<le> m_remaining m"
    and "host_ok (f_host F)"
  shows "(\<exists>r. op_SHL F m = (Ok (StepOk 3), advance (s @ [r]) m) \<and> unat r = unat v * 2 ^ unat n mod 2 ^ 256) \<and>
    (\<exists>r. op_SHR F m = (Ok (StepOk 3), advance (s @ [r]) m) \<and> unat r = unat v div 2 ^ unat n) \<and>
    (unat n < 256 \<longrightarrow>
      (\<exists>r. op_SAR F m = (Ok (StepOk 3), advance (s @ [r]) m) \<and> sint r = sint v div 2 ^ unat n)) \<and>
    (\<exists>r. op_BYTE F m = (Ok (StepOk 3), advance (s @ [r]) m) \<and>
       unat r = (if unat n < 32 then unat v div 256 ^ (31 - unat n) mod 256 else 0))"
proof -
  have n: "as_usize n = (Ok (unat n) :: (nat, exec_error) res)" using assms(2) by (simp add: as_usize_def)
  note run = assms(1,3,4) two_operands [OF assms(1)]
  have shl: "op_SHL F m = (Ok (StepOk 3), advance (s @ [push_bit (unat n) v]) m)"
    and shr: "op_SHR F m = (Ok (StepOk 3), advance (s @ [drop_bit (unat n) v]) m)"
    using run by (simp_all add: op_SHL_def op_SHR_def eval_step n word_shl_def word_shr_def)
  have sar: "op_SAR F m = (Ok (StepOk 3), advance (s @ [signed_drop_bit (unat n) v]) m)" if "unat n < 256"
    using run host_ok_i256(3) [OF assms(5) that, of v] by (simp add: op_SAR_def eval_step n)
  have byte: "op_BYTE F m = (Ok (StepOk 3),
      advance (s @ [if unat n < 32 then ucast (into_bytes v ! unat n) else 0]) m)"
    using run by (simp add: op_BYTE_def eval_step n)
  have cell: "unat (ucast (into_bytes v ! unat n) :: u256) = unat v div 256 ^ (31 - unat n) mod 256"
    if "unat n < 32"
  proof -
    have "x mod 256 < 2 ^ 256" for x :: nat using mod_less_divisor [of 256 x] by simp
    with that show ?thesis
      by (simp add: into_bytes_def nth_to_be unsigned_ucast_eq take_bit_nat_eq_self_iff)
  qed
  have "unat (drop_bit (unat n) v) = unat v div 2 ^ unat n"
    by (simp only: unsigned_drop_bit_eq drop_bit_eq_div [where ?'a = nat])
      (simp add: take_bit_nat_eq_self unat_u256_lt [simplified])
  moreover have "sint (signed_drop_bit (unat n) v) = sint v div 2 ^ unat n"
    by (simp only: sint_signed_drop_bit_eq drop_bit_eq_div)
  ultimately show ?thesis
    using shl shr sar byte cell push_bit_unat [of "unat n" v] by (intro conjI impI) (blast, blast, blast, auto)
qed

theorem shift_instructions_witness:
  "\<exists>r. op_SHR (demo_frame [0x1c] 0) (demo_machine [1000, 3])
       = (Ok (StepOk 3), advance [r] (demo_machine [1000, 3])) \<and> unat r = 125"
  using shift_instructions [of "demo_machine [1000, 3]" "[]" 1000 3 "demo_frame [0x1c] 0"]
  by (simp add: demo_frame_def demo_host_ok)

lemma be_nat_Cons: "be_nat (b # bs) = unat b * 256 ^ length bs + be_nat bs"
  using be_nat_append [of "[b]" bs] by (simp add: be_nat_def [of "[b]"])

lemma leading_zeros_bounds:
  assumes "b \<noteq> 0"
  shows "leading_zeros b < 8" "2 ^ (7 - leading_zeros b) \<le> unat b" "unat b < 2 ^ (8 - leading_zeros b)"
proof -
  let ?xs = "[7, 6, 5, 4, 3, 2, 1, 0] :: nat list" and ?P = "\<lambda>i. \<not> bit b i"
  let ?z = "leading_zeros b"
  have idx: "?xs ! j = 7 - j" if "j < 8" for j
  proof -
    have "?xs = map (\<lambda>j. 7 - j) [0..<8]" by (simp add: upt_rec)
    with that show ?thesis by (metis (no_types, lifting) add_0 diff_zero length_upt nth_map nth_upt)
  qed
  have low: "\<not> bit b (7 - j)" if "j < ?z" for j
    using that idx [of j] leading_zeros_le [of b] nth_mem [of j "takeWhile ?P ?xs"] takeWhile_nth [of j ?P ?xs]
    by (auto simp: leading_zeros_def dest: set_takeWhileD)
  have zero: "\<not> bit (unat b) n" if "8 - ?z \<le> n" for n
  proof (cases "n < 8")
    case True
    then show ?thesis using low [of "7 - n"] that by (simp add: bit_unsigned_iff)
  next
    case False
    then show ?thesis by (auto simp: bit_unsigned_iff dest: bit_imp_le_length)
  qed
  have "take_bit (8 - ?z) (unat b) = unat b"
    by (rule bit_eqI) (use zero in \<open>auto simp: bit_take_bit_iff simp flip: not_le\<close>)
  then show hi: "unat b < 2 ^ (8 - ?z)" by (simp add: take_bit_nat_eq_self_iff)
  show z: "?z < 8"
  proof (rule ccontr)
    assume "\<not> ?z < 8"
    with hi assms show False by (simp add: unat_eq_0)
  qed
  have "bit b (?xs ! ?z)"
    using nth_length_takeWhile [of ?P ?xs] z by (simp add: leading_zeros_def)
  then have "bit (unat b) (7 - ?z)" using idx [OF z] z by (simp add: bit_unsigned_iff)
  then have "unat b div 2 ^ (7 - ?z) \<noteq> 0" by (metis bit_iff_odd even_zero)
  then show "2 ^ (7 - ?z) \<le> unat b" by (simp add: div_eq_0_iff not_less)
qed

lemma clz_loop_bounds:
  assumes "be_nat bs \<noteq> 0"
  shows "\<exists>z. clz_loop bs c = c + z \<and> z < 8 * length bs \<and>
     2 ^ (8 * length bs - 1 - z) \<le> be_nat bs \<and> be_nat bs < 2 ^ (8 * length bs - z)"
  using assms
proof (induction bs arbitrary: c)
  case Nil
  then show ?case by simp
next
  case (Cons b bs)
  let ?n = "8 * length bs"
  have p: "(256 :: nat) ^ length bs = 2 ^ ?n" by (simp add: power_mult)
  show ?case
  proof (cases "b = 0")
    case True
    with Cons obtain z where "clz_loop bs (c + 8) = c + 8 + z" "z < ?n"
      "2 ^ (?n - 1 - z) \<le> be_nat bs" "be_nat bs < 2 ^ (?n - z)"
      by (auto simp: be_nat_Cons)
    with True show ?thesis by (intro exI [of _ "8 + z"]) (simp add: be_nat_Cons)
  next
    case False
    let ?z = "leading_zeros b"
    note lz = leading_zeros_bounds [OF False]
    have lo: "2 ^ (7 - ?z) * 2 ^ ?n \<le> unat b * 2 ^ ?n" using lz(2) by (intro mult_right_mono) auto
    have "unat b + 1 \<le> 2 ^ (8 - ?z)" using lz(3) by simp
    then have hi: "(unat b + 1) * 2 ^ ?n \<le> 2 ^ (8 - ?z) * 2 ^ ?n" by (intro mult_right_mono) auto
    have "be_nat bs < 2 ^ ?n" using be_nat_lt [of bs] p by simp
    then have "2 ^ (7 - ?z + ?n) \<le> be_nat (b # bs) \<and> be_nat (b # bs) < 2 ^ (8 - ?z + ?n)"
      using lo hi unfolding be_nat_Cons p power_add distrib_right by linarith
    then show ?thesis using False lz(1) by (intro exI [of _ ?z]) simp
  qed
qed

text \<open>\<open>CLZ\<close> counts the leading zero bits: 256 for zero, otherwise the \<open>c\<close> below 256 with
  \<open>2^(255 - c) \<le> v < 2^(256 - c)\<close>.\<close>

theorem clz_spec:
  assumes "m_stack m = s @ [v]" "length (m_stack m) \<le> 1024" "5 \<le> m_remaining m"
  shows "\<exists>c. op_CLZ F m = (Ok (StepOk 5), advance (s @ [of_nat c]) m) \<and>
    (if v = 0 then c = 256 else c < 256 \<and> 2 ^ (255 - c) \<le> unat v \<and> unat v < 2 ^ (256 - c))"
proof -
  have val: "be_nat (into_bytes v) = unat v" using unat_from_bytes [of "into_bytes v"] by simp
  have run: "op_CLZ F m = (Ok (StepOk 5),
      advance (s @ [of_nat (if is_zero v then 256 else clz_loop (into_bytes v) 0)]) m)"
    using assms one_operand [OF assms(1)] by (simp add: op_CLZ_def eval_step)
  show ?thesis
  proof (cases "v = 0")
    case True
    with run show ?thesis by (intro exI [of _ 256]) (simp add: is_zero_def)
  next
    case False
    then have "be_nat (into_bytes v) \<noteq> 0" by (simp add: val unat_eq_0)
    from clz_loop_bounds [OF this, of 0] obtain z where "clz_loop (into_bytes v) 0 = z" "z < 256"
      "2 ^ (255 - z) \<le> unat v" "unat v < 2 ^ (256 - z)" by (auto simp: val)
    with run False show ?thesis by (intro exI [of _ z]) (simp add: is_zero_def)
  qed
qed

theorem clz_spec_witness:
  "\<exists>c. op_CLZ (demo_frame [0x1e] 0) (demo_machine [5])
       = (Ok (StepOk 5), advance [of_nat c] (demo_machine [5])) \<and> c < 256 \<and> 2 ^ (255 - c) \<le> (5 :: nat)"
  using clz_spec [of "demo_machine [5]" "[]" 5 "demo_frame [0x1e] 0"] by auto

lemma dropWhile_zero_bounds:
  defines "strip \<equiv> dropWhile (\<lambda>b :: byte. b = 0)"
  shows "be_nat (strip bs) = be_nat bs" "strip bs \<noteq> [] \<Longrightarrow> 256 ^ (length (strip bs) - 1) \<le> be_nat bs"
proof -
  show "be_nat (strip bs) = be_nat bs"
    by (induction bs) (simp_all add: strip_def be_nat_Cons)
  show "256 ^ (length (strip bs) - 1) \<le> be_nat bs" if "strip bs \<noteq> []"
    using that
  proof (induction bs)
    case (Cons b bs)
    show ?case
    proof (cases "b = 0")
      case False
      then have "1 \<le> unat b" by (simp add: Suc_le_eq unat_gt_0)
      then have "1 * 256 ^ length bs \<le> unat b * 256 ^ length bs" by (intro mult_right_mono) auto
      then have "256 ^ length bs \<le> be_nat (b # bs)" unfolding be_nat_Cons by linarith
      with False show ?thesis by (simp add: strip_def)
    qed (use Cons in \<open>simp add: strip_def be_nat_Cons\<close>)
  qed (simp add: strip_def)
qed

text \<open>\<open>EXP\<close> pushes the power modulo \<open>2^256\<close> and costs 10 plus 50 for each byte of the exponent
  without leading zeros.\<close>

theorem exp_spec:
  assumes "m_stack m = s @ [e, a]" "length (m_stack m) \<le> 1024" "1610 \<le> m_remaining m"
  shows "\<exists>k. op_EXP F m = (Ok (StepOk (10 + 50 * int k)), advance (s @ [a ^ unat e]) m) \<and>
    (e = 0 \<longrightarrow> k = 0) \<and> (e \<noteq> 0 \<longrightarrow> 256 ^ (k - 1) \<le> unat e) \<and> unat e < 256 ^ k \<and> k \<le> 32"
proof -
  have val: "be_nat (into_bytes e) = unat e" using unat_from_bytes [of "into_bytes e"] by simp
  let ?k = "exp_bytes e"
  note d = dropWhile_zero_bounds [of "into_bytes e", unfolded val]
  have k: "?k \<le> 32" using length_dropWhile_le [of "\<lambda>b. b = 0" "into_bytes e"] by (simp add: exp_bytes_def)
  have hi: "unat e < 256 ^ ?k"
    using be_nat_lt [of "dropWhile (\<lambda>b. b = 0) (into_bytes e)"] d(1) by (simp add: exp_bytes_def)
  have nz: "e \<noteq> 0 \<longrightarrow> 256 ^ (?k - 1) \<le> unat e"
  proof
    assume "e \<noteq> 0"
    then have "dropWhile (\<lambda>b. b = 0) (into_bytes e) \<noteq> []"
      using d(1) by (metis be_nat_Nil unat_eq_0)
    from d(2) [OF this] show "256 ^ (?k - 1) \<le> unat e" by (simp add: exp_bytes_def)
  qed
  have z: "e = 0 \<longrightarrow> ?k = 0"
    by (auto simp: exp_bytes_def into_bytes_def)
  have "op_EXP F m = (Ok (StepOk (10 + int ?k * 50)), advance (s @ [a ^ unat e]) m)"
    using assms k two_operands [OF assms(1)] by (simp add: op_EXP_def eval_step Let_def word_pow_def)
  with hi nz z k show ?thesis by (intro exI [of _ ?k]) (simp add: mult.commute)
qed

theorem exp_spec_witness:
  "\<exists>k. op_EXP (demo_frame [0x0a] 0) (demo_machine [256, 2])
      = (Ok (StepOk (10 + 50 * int k)), advance [2 ^ 256] (demo_machine [256, 2])) \<and> k \<le> 32"
  using exp_spec [of "demo_machine [256, 2]" "[]" 256 2 "demo_frame [0x0a] 0"] by auto

section \<open>Stack\<close>

text \<open>The stack holds at most 1024 words: a pop from the empty stack and a push onto a full one fail
  with their own errors, after which the frame is stopped, reverted and out of gas.\<close>

theorem stack_limits:
  "(m_stack m = [] \<longrightarrow> (\<exists>m'. evm_pop m = (Err StackUnderflow, m') \<and> e_stopped (m_evm m') \<and>
      e_reverted (m_evm m') \<and> m_remaining m' = 0)) \<and>
   (1024 \<le> length (m_stack m) \<longrightarrow> (\<exists>m'. evm_push v m = (Err StackOverflow, m') \<and> e_stopped (m_evm m') \<and>
      e_reverted (m_evm m') \<and> m_remaining m' = 0)) \<and>
   (length (m_stack m) < 1024 \<longrightarrow> (\<exists>m1. evm_push v m = (Ok (), m1) \<and> evm_pop m1 = (Ok v, m)))"
  by (auto simp: evm_pop_eq evm_push_eq error_evm_def gas_remaining_def)

theorem stack_limits_witness:
  "\<exists>m1. evm_push 7 (demo_machine [1]) = (Ok (), m1) \<and> evm_pop m1 = (Ok 7, demo_machine [1])"
  using stack_limits [of "demo_machine [1]" 7] by simp

end
