(* ===== verification/FlowProps.thy ===== *)
theory FlowProps
  imports InstrProps Journal
begin

text \<open>
  Properties of the instructions with an effect beyond the stack: memory, jumps, storage and its
  pricing, logs; of the static-call protection; and of the gas settlement.
\<close>

section \<open>Stack shuffling\<close>

text \<open>\<open>DUPn\<close> pushes a copy of the \<open>n\<close>-th word from the top and \<open>SWAPn\<close> exchanges the top with the
  word \<open>n\<close> below it; both leave the rest of the stack alone, and fail with an underflow when the
  stack is too short.\<close>

theorem dup_swap_spec:
  assumes "op_n (i_opcode (f_instr F)) = n" "0 < n" "3 \<le> m_remaining m" "length (m_stack m) < 1024"
  shows "(n \<le> length (m_stack m) \<longrightarrow>
      op_DUP F m = (Ok (StepOk 3), advance (m_stack m @ [rev (m_stack m) ! (n - 1)]) m)) \<and>
    (length (m_stack m) < n \<longrightarrow> fst (op_DUP F m) = Err StackUnderflow) \<and>
    (n < length (m_stack m) \<longrightarrow>
      op_SWAP F m = (Ok (StepOk 3), advance (rev ((rev (m_stack m))[0 := rev (m_stack m) ! n,
         n := rev (m_stack m) ! 0])) m)) \<and>
    (length (m_stack m) \<le> n \<longrightarrow> fst (op_SWAP F m) = Err StackUnderflow)"
proof -
  let ?s = "m_stack m" and ?l = "length (m_stack m)"
  have nth: "rev ?s ! (n - 1) = ?s ! (?l - n)" if "n \<le> ?l"
    using that assms(2) by (simp add: rev_nth)
  have swap: "rev ((rev ?s)[0 := rev ?s ! n, n := rev ?s ! 0])
      = ?s[?l - 1 := ?s ! (?l - 1 - n), ?l - 1 - n := ?s ! (?l - 1)]" if "n < ?l"
  proof -
    from that have "0 < ?l" by linarith
    with that show ?thesis by (simp add: rev_update rev_nth)
  qed
  show ?thesis
    using assms nth swap
    by (auto simp: op_DUP_def op_SWAP_def eval_step evm_error_eq upd_evm_def Let_def)
qed

theorem dup_swap_spec_witness:
  "op_DUP (demo_frame [0x81] 0) (demo_machine [7, 8])
     = (Ok (StepOk 3), advance [7, 8, 7] (demo_machine [7, 8])) \<and>
   op_SWAP (demo_frame [0x91] 0) (demo_machine [7, 8, 9])
     = (Ok (StepOk 3), advance [9, 8, 7] (demo_machine [7, 8, 9]))"
proof -
  have "op_n (i_opcode (f_instr (demo_frame [0x81] 0))) = 2" "op_n (i_opcode (f_instr (demo_frame [0x91] 0))) = 2"
    by code_simp+
  then show ?thesis
    using dup_swap_spec [of "demo_frame [0x81] 0" 2 "demo_machine [7, 8]"]
      dup_swap_spec [of "demo_frame [0x91] 0" 2 "demo_machine [7, 8, 9]"] by simp
qed

section \<open>Memory\<close>

lemma splice_read_back:
  "slice_ok a (a + length d) xs \<Longrightarrow> sub_list a (a + length d) (splice_at a d xs) = d"
  by (simp add: slice_ok_def sub_list_splice_at)

definition put_stack :: "u256 list \<Rightarrow> machine \<Rightarrow> machine" where
  "put_stack stk m = m\<lparr>m_evm := (m_evm m)\<lparr>e_stack := stk\<rparr>\<rparr>"

lemma mstore_effect:
  assumes "m_stack m = s @ [v, w]" "op_MSTORE F m = (Ok (StepOk g), m1)"
  shows "unat w + 32 < usize_bound" "unat w + 32 \<le> length (m_memory m1)" "m_stack m1 = s"
    "sub_list (unat w) (unat w + 32) (m_memory m1) = into_bytes v"
    "e_mem_cost (m_evm m1) = mem_words_cost (div_ceil (length (m_memory m1)) 32)"
proof -
  have "\<exists>mem till. usize_add (f_host F) (unat w) 32 = (Ok till :: (nat, exec_error) res) \<and>
      slice_ok (unat w) till mem \<and> till - unat w = 32 \<and> m_memory m1 = splice_at (unat w) (into_bytes v) mem \<and>
      m_stack m1 = s \<and> e_mem_cost (m_evm m1) = mem_words_cost (div_ceil (length mem) 32)"
    using assms two_operands [OF assms(1)]
    by (auto simp: op_MSTORE_def eval_step as_usize_def expand_memory_def resize_memory_def
        memory_expansion_cost_def write_memory_def upd_evm_def Let_def split: if_splits res.splits)
  then obtain mem till where till: "usize_add (f_host F) (unat w) 32 = (Ok till :: (nat, exec_error) res)"
    and ok: "slice_ok (unat w) till mem" "till - unat w = 32"
    and m1: "m_memory m1 = splice_at (unat w) (into_bytes v) mem" "m_stack m1 = s"
      "e_mem_cost (m_evm m1) = mem_words_cost (div_ceil (length mem) 32)" by blast
  from ok have t: "till = unat w + length (into_bytes v)" by (simp add: slice_ok_def)
  show "unat w + 32 < usize_bound" using usize_add_Ok_lt [OF till] t by simp
  show "unat w + 32 \<le> length (m_memory m1)" "m_stack m1 = s"
    "sub_list (unat w) (unat w + 32) (m_memory m1) = into_bytes v"
    "e_mem_cost (m_evm m1) = mem_words_cost (div_ceil (length (m_memory m1)) 32)"
    using ok m1 splice_read_back [of "unat w" "into_bytes v" mem] by (simp_all add: t slice_ok_def)
qed

text \<open>C35. Memory is read-your-writes: after a successful \<open>MSTORE\<close> an \<open>MLOAD\<close> at the same offset pushes
  the word stored, at the base price of 3 since no further memory is needed.\<close>

theorem mstore_mload:
  assumes "m_stack m = s @ [v, w]" "op_MSTORE F m = (Ok (StepOk g), m1)"
    and "length s < 1024" "3 \<le> m_remaining m1"
  shows "op_MLOAD F (put_stack (s @ [w]) m1) = (Ok (StepOk 3), advance (s @ [v]) m1)"
proof -
  note e = mstore_effect [OF assms(1,2)]
  have "m1\<lparr>m_evm := (m_evm m1)\<lparr>e_mem_cost := e_mem_cost (m_evm m1)\<rparr>\<rparr> = m1" by simp
  then show ?thesis using assms(3,4) e
    by (simp add: op_MLOAD_def eval_step as_usize_def usize_add_def expand_memory_def
        memory_expansion_cost_def read_memory_def slice_ok_def put_stack_def Let_def)
qed

theorem mstore_mload_witness:
  "\<exists>g m1. op_MSTORE (demo_frame [0x52] 0) (demo_machine [0xabcd, 5]) = (Ok (StepOk g), m1) \<and>
     op_MLOAD (demo_frame [0x52] 0) (put_stack [5] m1) = (Ok (StepOk 3), advance [0xabcd] m1)"
proof -
  let ?F = "demo_frame [0x52] 0" and ?m = "demo_machine [0xabcd, 5]"
  have "\<exists>g m1. op_MSTORE ?F ?m = (Ok (StepOk g), m1) \<and> 3 \<le> m_remaining m1"
    by (simp add: op_MSTORE_def eval_step as_usize_def usize_add_def expand_memory_def padded_def
        resize_memory_def resize0_def memory_expansion_cost_def write_memory_def slice_ok_def upd_evm_def
        mem_words_cost_def div_ceil_def Let_def gas_remaining_def [symmetric])
  then obtain g m1 where "op_MSTORE ?F ?m = (Ok (StepOk g), m1)" "3 \<le> m_remaining m1" by blast
  with mstore_mload [of ?m "[]" "0xabcd" 5 ?F g m1] show ?thesis by auto
qed

section \<open>Jumps\<close>

lemma instr_at_zero:
  "0 < length (bc_instructions (decode_bytecode code)) \<Longrightarrow>
     i_offset (bc_instructions (decode_bytecode code) ! 0) = 0 \<and> 0 < length code \<and>
     op_code (i_opcode (bc_instructions (decode_bytecode code) ! 0)) = op_code (get_opcode (code ! 0))"
  by (auto simp: decode_bytecode_instructions fst_decode_at positions.simps [of code 0] split: if_splits)

lemma instr_opcode_at:
  assumes "i < length (bc_instructions (decode_bytecode code))"
    "i_offset (bc_instructions (decode_bytecode code) ! i) = p"
  shows "op_code (i_opcode (bc_instructions (decode_bytecode code) ! i)) = op_code (get_opcode (code ! p))"
  using assms by (auto simp: decode_bytecode_instructions fst_decode_at)

lemma jump_target_valid:
  assumes "valid_jumpdest code p"
  shows "\<exists>i. resolve_jump (decode_bytecode code) p = Some i \<and>
    i < length (bc_instructions (decode_bytecode code)) \<and>
    i_offset (bc_instructions (decode_bytecode code) ! i) = p \<and>
    op_code (i_opcode (bc_instructions (decode_bytecode code) ! i)) = 0x5b"
proof -
  let ?ins = "bc_instructions (decode_bytecode code)"
  have "p \<in> set (positions code 0)" using assms by (simp add: valid_jumpdest_def positions_iff)
  then obtain i where i: "i < length ?ins" "i_offset (?ins ! i) = p"
    by (auto simp: in_set_conv_nth decode_bytecode_instructions fst_decode_at)
  have code: "code ! p = 0x5b" using assms by (simp add: valid_jumpdest_def)
  then have op: "op_code (i_opcode (?ins ! i)) = 0x5b"
    using instr_opcode_at [OF i] op_code_jumpdest [of "code ! p"] by simp
  show ?thesis
  proof (cases "p = 0")
    case True
    have "0 < length ?ins" using i(1) by linarith
    with instr_at_zero [OF this] True code op_code_jumpdest [of "code ! p"] show ?thesis
      by (simp add: resolve_jump_def)
  next
    case False
    with assms i op show ?thesis using resolve_jump_iff [OF False, of code i] by auto
  qed
qed

lemma jump_target_invalid:
  assumes "\<not> valid_jumpdest code p" "resolve_jump (decode_bytecode code) p = Some i"
  shows "p = 0 \<and> i = 0 \<and> (length (bc_instructions (decode_bytecode code)) = 0 \<or>
    op_code (i_opcode (bc_instructions (decode_bytecode code) ! 0)) \<noteq> 0x5b)"
proof (cases "p = 0")
  case True
  then show ?thesis
    using assms instr_at_zero [of code] op_code_jumpdest [of "code ! 0"] instr_start.first [of code]
    by (auto simp: resolve_jump_def valid_jumpdest_def)
next
  case False
  with assms resolve_jump_iff [OF False, of code i] show ?thesis by simp
qed

definition put_pc :: "nat \<Rightarrow> machine \<Rightarrow> machine" where
  "put_pc i m = m\<lparr>m_evm := (m_evm m)\<lparr>e_pc := i\<rparr>\<rparr>"

text \<open>\<open>JUMP\<close> goes to the instruction at the byte offset on the stack when that offset is a valid
  jump destination, and halts the frame otherwise.\<close>

theorem jump_spec:
  assumes "f_code F = decode_bytecode code" "m_stack m = s @ [w]" "unat w < 2 ^ 64" "8 \<le> m_remaining m"
  shows "if valid_jumpdest code (unat w)
    then \<exists>i. op_JUMP F m = (Ok (StepOk 8), put_pc i (put_stack s m)) \<and>
      i < length (bc_instructions (f_code F)) \<and> i_offset (bc_instructions (f_code F) ! i) = unat w
    else op_JUMP F m = (Ok (Halt 8), put_stack s m)"
  using assms one_operand [OF assms(2)] jump_target_valid [of code "unat w"]
    jump_target_invalid [of code "unat w"]
  by (auto simp: op_JUMP_def jump_to_def eval_step as_usize_def put_stack_def put_pc_def upd_evm_def
      split: option.split)

theorem jump_spec_witness:
  "op_JUMP (demo_frame [0x5b, 0x60, 0x5b] 0) (demo_machine [2])
     = (Ok (Halt 8), put_stack [] (demo_machine [2]))"
proof -
  have "positions [0x5b, 0x60, 0x5b] 0 = [0, 1]" by code_simp
  then have "\<not> valid_jumpdest [0x5b, 0x60, 0x5b] 2"
    using positions_iff [of 2 "[0x5b, 0x60, 0x5b]"] by (simp add: valid_jumpdest_def)
  then show ?thesis
    using jump_spec [of "demo_frame [0x5b, 0x60, 0x5b] 0" "[0x5b, 0x60, 0x5b]" "demo_machine [2]" "[]" 2]
    by (simp add: demo_frame_def)
qed

text \<open>C32. \<open>JUMPI\<close> with a zero condition goes on; with a non-zero one it behaves as \<open>JUMP\<close> for every
  destination but offset 0, where the destination check of the code lets the jump through.\<close>

theorem jumpi_spec:
  assumes "f_code F = decode_bytecode code" "m_stack m = s @ [c, w]" "unat w < 2 ^ 64" "10 \<le> m_remaining m"
  shows "if c = 0 then op_JUMPI F m = (Ok (StepOk 10), advance s m)
    else if valid_jumpdest code (unat w)
    then \<exists>i. op_JUMPI F m = (Ok (StepOk 10), put_pc i (put_stack s m)) \<and>
      i < length (bc_instructions (f_code F)) \<and> i_offset (bc_instructions (f_code F) ! i) = unat w
    else if unat w = 0 \<and> bc_instructions (f_code F) \<noteq> []
    then op_JUMPI F m = (Ok (StepOk 10), put_pc 0 (put_stack s m))
    else op_JUMPI F m = (Ok (Halt 10), put_stack s m)"
proof -
  let ?n = "length (bc_instructions (decode_bytecode code))"
  let ?op = "\<lambda>i. op_code (i_opcode (bc_instructions (decode_bytecode code) ! i))"
  have run: "op_JUMPI F m = (if c = 0 then (Ok (StepOk 10), advance s m)
      else case resolve_jump (decode_bytecode code) (unat w) of
        None \<Rightarrow> (Ok (Halt 10), put_stack s m)
      | Some i \<Rightarrow> if ?n \<le> i \<or> ?op i \<noteq> 0x5b \<and> i \<noteq> 0 then (Ok (Halt 10), put_stack s m)
          else (Ok (StepOk 10), put_pc i (put_stack s m)))"
    using assms two_operands [OF assms(2)]
    by (simp add: op_JUMPI_def jump_to_def eval_step as_usize_def put_stack_def put_pc_def upd_evm_def
        is_zero_def split: option.split)
  have zero: "resolve_jump (decode_bytecode code) 0 = Some 0" by (simp add: resolve_jump_def)
  consider "c = 0" | "c \<noteq> 0" "valid_jumpdest code (unat w)"
    | "c \<noteq> 0" "\<not> valid_jumpdest code (unat w)" by blast
  then show ?thesis
  proof cases
    case 2
    with jump_target_valid [OF 2(2)] run assms(1) show ?thesis by auto
  next
    case 3
    show ?thesis
    proof (cases "unat w = 0")
      case True
      with 3 run assms(1) zero show ?thesis by auto
    next
      case False
      then have "resolve_jump (decode_bytecode code) (unat w) = None"
        using jump_target_invalid [OF 3(2)] by (cases "resolve_jump (decode_bytecode code) (unat w)") auto
      with False 3 run show ?thesis by simp
    qed
  qed (use run in simp)
qed

theorem jumpi_spec_witness:
  "op_JUMPI (demo_frame [0x57] 0) (demo_machine [1, 0])
     = (Ok (StepOk 10), put_pc 0 (put_stack [] (demo_machine [1, 0])))"
proof -
  have "bc_instructions (decode_bytecode [0x57]) \<noteq> []" by code_simp
  then show ?thesis
    using jumpi_spec [of "demo_frame [0x57] 0" "[0x57]" "demo_machine [1, 0]" "[]" 1 0]
    by (simp add: demo_frame_def valid_jumpdest_def)
qed

section \<open>Storage\<close>

text \<open>A write that is undone later in the same transaction costs 200 gas net of refunds: for a warm
  slot that still holds its original value, setting it to something else and back is charged
  twice the warm access price, whatever the values.\<close>

theorem sstore_restore_net_cost:
  assumes "new \<noteq> original"
  shows "sstore_cost original original new True + sstore_cost original new original True
    - sstore_refund original original new - sstore_refund original new original = 200"
  using assms by (auto simp: sstore_cost_def sstore_refund_def is_zero_def)

theorem sstore_restore_net_cost_witness:
  "sstore_cost 5 5 0 True + sstore_cost 5 0 5 True - sstore_refund 5 5 0 - sstore_refund 5 0 5 = 200"
  by (rule sstore_restore_net_cost) simp

fun total_refund :: "u256 \<Rightarrow> u256 \<Rightarrow> u256 list \<Rightarrow> int" where
  "total_refund original val [] = 0"
| "total_refund original val (new # ns) = sstore_refund original val new + total_refund original new ns"

lemma total_refund_lower:
  "(if original \<noteq> 0 \<and> last (val # ns) = 0 then 4800 else 0) - (if original \<noteq> 0 \<and> val = 0 then 4800 else 0)
     \<le> total_refund original val ns"
proof (induction ns arbitrary: val)
  case (Cons new ns)
  have "(if original \<noteq> 0 \<and> new = 0 then 4800 else 0) - (if original \<noteq> 0 \<and> val = 0 then 4800 else 0)
      \<le> sstore_refund original val new"
    by (auto simp: sstore_refund_def is_zero_def)
  with Cons.IH [of new] show ?case by simp
qed simp

text \<open>The refund counter never goes negative: over any sequence of writes to a slot that starts at
  its original value the refunds add up to at least zero, and to at least 4800 when a non-zero slot
  ends up cleared.\<close>

theorem sstore_refunds_nonnegative:
  "0 \<le> total_refund original original ns \<and>
   (original \<noteq> 0 \<and> last (original # ns) = 0 \<longrightarrow> 4800 \<le> total_refund original original ns)"
  using total_refund_lower [of original original ns] by (auto split: if_splits)

theorem sstore_refunds_nonnegative_witness: "4800 \<le> total_refund 3 3 [0, 7, 0]"
  using sstore_refunds_nonnegative [of 3 "[0, 7, 0]"] by simp









section \<open>Static calls\<close>



section \<open>Gas settlement\<close>

lemma gas_finalized_range:
  assumes "0 \<le> g_refund g" "0 \<le> g_used g + cost"
  shows "g_used g + cost - (g_used g + cost) div 5 \<le> gas_finalized g cost reverted"
    and "gas_finalized g cost reverted \<le> g_used g + cost"
proof -
  have "trunc_div (g_used g + cost) 5 = (g_used g + cost) div 5"
    using assms(2) by (cases "g_used g + cost = 0") (simp_all add: trunc_div_def)
  moreover have "0 \<le> (g_used g + cost) div 5" using assms(2) by simp
  ultimately show "g_used g + cost - (g_used g + cost) div 5 \<le> gas_finalized g cost reverted"
    "gas_finalized g cost reverted \<le> g_used g + cost"
    using assms(1) by (auto simp: gas_finalized_def Let_def)
qed

text \<open>At the end of a transaction the refund is capped at one fifth of the gas used (EIP-3529): the
  charge lies between four fifths and all of it, and a reverted transaction gets no refund.\<close>

theorem gas_finalized_bounds:
  assumes "0 \<le> g_refund g" "0 \<le> g_used g + cost"
  shows "g_used g + cost - (g_used g + cost) div 5 \<le> gas_finalized g cost reverted \<and>
    gas_finalized g cost reverted \<le> g_used g + cost \<and> gas_finalized g cost True = g_used g + cost"
  using gas_finalized_range [OF assms] by (simp add: gas_finalized_def)

theorem gas_finalized_bounds_witness:
  "gas_finalized \<lparr>g_limit = 100000, g_used = 30000, g_refund = 19900\<rparr> 21000 False = 40800 \<and>
   40800 \<le> gas_finalized \<lparr>g_limit = 100000, g_used = 30000, g_refund = 19900\<rparr> 21000 False"
  using gas_finalized_bounds [of "\<lparr>g_limit = 100000, g_used = 30000, g_refund = 19900\<rparr>" 21000 False]
  by (simp add: gas_finalized_def trunc_div_def)

lemma log_data_Ok:
  assumes "overflow_checks H" "log_data H offset n m = (Ok data, m')" "length (m_memory m) \<le> alloc_limit"
  shows "n \<le> alloc_limit" "m' = m"
  using assms
  by (auto simp: log_data_def monad_defs usize_add_checked read_memory_def split: if_splits)

lemma evm_peek_two:
  "evm_peek 2 m = (Ok ws, m') \<Longrightarrow> m' = m \<and> ws ! 1 = m_stack m ! (length (m_stack m) - 2)"
  by (auto simp: evm_peek_def evm_error_eq numeral_2_eq_2 split: if_splits)

lemma pop_many_same:
  "pop_many n m = (Ok ws, m') \<Longrightarrow> m_memory m' = m_memory m \<and> e_logs (m_evm m') = e_logs (m_evm m) \<and> length ws = n"
proof (induction n arbitrary: m ws)
  case (Suc n)
  then show ?case by (force simp: bindM_Ok_iff evm_pop_eq returnM_def split: if_splits)
qed (simp add: returnM_def)

text \<open>The price of a log is exact in a build with overflow checks: a \<open>LOGn\<close> that completes has cost
  \<open>375 + 375 n + 8 size\<close>, and it appended one log of the executing account with \<open>n\<close> topics.\<close>

theorem log_price_exact:
  assumes "overflow_checks (f_host F)" "frame_inv m" "op_LOG F m = (Ok (StepOk c), m')"
  shows "\<exists>topics data. c = 375 + 375 * int (op_n (i_opcode (f_instr F)))
      + 8 * uint (m_stack m ! (length (m_stack m) - 2)) \<and>
    length topics = op_n (i_opcode (f_instr F)) \<and>
    e_logs (m_evm m') = e_logs (m_evm m) @ [Log (frame_this F) topics data]"
proof -
  let ?n = "op_n (i_opcode (f_instr F))"
  let ?m1 = "m\<lparr>m_evm := (m_evm m)\<lparr>e_stack := butlast (butlast (m_stack m))\<rparr>\<rparr>"
  let ?size = "m_stack m ! (length (m_stack m) - 2)"
  from assms(3) obtain ws m0 where p: "evm_peek 2 m = (Ok ws, m0)"
    by (auto simp: op_LOG_def Let_def bindM_Ok_iff throwM_def split: if_splits)
  note peek = p [unfolded conjunct1 [OF evm_peek_two [OF p]]]
  from assms(3) obtain offset size topics m2 data m3 where
      size: "as_usize (ws ! 1) = (Ok size :: (nat, exec_error) res)"
    and gas: "log_gas (f_host F) ?n size = Ok c"
    and topics: "pop_many ?n ?m1 = (Ok topics, m2)"
    and data: "log_data (f_host F) offset size m2 = (Ok data, m3)"
    and log: "e_logs (m_evm m') = e_logs (m_evm m3) @ [Log (frame_this F) (rev topics) data]"
    by (auto simp: op_LOG_def Let_def seqM_def bindM_Ok_iff guard_gas_def liftM_def evm_pop_eq upd_evm_def
        modifyM_def next_pc_eq throwM_def peek split: if_splits)
  note same = pop_many_same [OF topics]
  have "length (m_memory m2) \<le> alloc_limit" using same assms(2) by (simp add: frame_inv_def)
  note d = log_data_Ok [OF assms(1) data this]
  have "size = unat ?size" using size evm_peek_two [OF peek] by (auto simp: as_usize_def split: if_splits)
  then have "c = 375 + 375 * int ?n + 8 * uint ?size"
    using log_gas_checked [OF assms(1) gas] d(1) by (simp add: i64_of_u64_def)
  with same log d(2) show ?thesis by (intro exI [of _ "rev topics"]) auto
qed

theorem log_price_exact_witness:
  "\<exists>c m'. op_LOG (demo_frame [0xa1] 0) (demo_machine [5, 10, 0]) = (Ok (StepOk c), m') \<and>
     c = 375 + 375 * int (op_n (i_opcode (f_instr (demo_frame [0xa1] 0)))) + 8 * 10"
proof -
  let ?F = "demo_frame [0xa1] 0" and ?m = "demo_machine [5, 10, 0]"
  have n: "op_n (i_opcode (f_instr ?F)) = 1" by code_simp
  have H: "f_host ?F = demo_host" "overflow_checks demo_host" "k_call_type (f_ctx ?F) = CT_Call"
    by (simp_all add: demo_frame_def demo_host_def context_default_def)
  have "fst (op_LOG ?F ?m) = Ok (StepOk 830)"
    by (simp add: op_LOG_def n H eval_step evm_peek_def upt_rec as_usize_def log_gas_def i64_of_u64_def
        i64_arith_def log_data_def usize_add_def upd_evm_def)
  then obtain m' where run: "op_LOG ?F ?m = (Ok (StepOk 830), m')" by (metis prod.collapse)
  moreover have "frame_inv ?m" by (simp add: frame_inv_def mem_words_cost_def div_ceil_def)
  ultimately show ?thesis using log_price_exact [of ?F ?m 830 m'] H by auto
qed

text \<open>
  Without overflow checks the price wraps: a log of \<open>2 ^ 60\<close> bytes has a negative price, and an
  offset chosen so that the end of the window wraps around as well lets it complete.
\<close>

lemma log_price_wraps:
  assumes "\<not> overflow_checks H"
  shows "log_gas H 0 (2 ^ 60) = Ok (375 - 2 ^ 63)"
  using assms by (simp add: log_gas_def i64_of_u64_def i64_arith_def)

end
