(* ===== verification/FrameProps.thy ===== *)
theory FrameProps
  imports Fuel FlowProps
begin

text \<open>
  Properties of the interpreter as a whole: gas, termination, the invariant of a frame, the end of
  a frame, nested frames and the roll-back of the journal.
\<close>

section \<open>Gas and termination of a frame\<close>

text \<open>C2. Gas soundness: a frame (with every frame it starts) that begins within its limit ends within
  it, never gives gas back, and keeps the limit; in a build with overflow checks.\<close>

theorem frame_gas_bounds:
  assumes "overflow_checks H" "frame_inv m" "g_used (m_gas m) \<le> g_limit (m_gas m)"
    and "execute_with_context n H hdr code call ctx m = (Ok ret, m')"
  shows "g_limit (m_gas m') = g_limit (m_gas m) \<and> g_used (m_gas m) \<le> g_used (m_gas m') \<and>
    g_used (m_gas m') \<le> g_limit (m_gas m')"
  using execute_with_context_ok [OF assms] by (simp add: frame_ok_def)

definition demo_run :: "nat \<Rightarrow> bytes \<Rightarrow> (bytes, exec_error) res \<times> machine" where
  "demo_run fuel code = execute_with_context fuel demo_host demo_header (decode_bytecode code) demo_call
     (context_default\<lparr>k_depth := 1\<rparr>) (demo_machine [])"

lemma demo_run_stop: "fst (demo_run 3 [0x5f, 0x00]) = Ok []"
  by code_simp

lemma demo_ready:
  "overflow_checks demo_host" "frame_inv (demo_machine [])"
  "g_used (m_gas (demo_machine [])) \<le> g_limit (m_gas (demo_machine []))"
  by (simp add: demo_host_def, simp add: frame_inv_def mem_words_cost_def div_ceil_def,
      simp add: demo_machine_def gas_new_def)

theorem frame_gas_bounds_witness:
  "\<exists>m'. demo_run 3 [0x5f, 0x00] = (Ok [], m') \<and> g_used (m_gas m') \<le> g_limit (m_gas m')"
proof -
  obtain m' where run: "demo_run 3 [0x5f, 0x00] = (Ok [], m')" using demo_run_stop by (metis prod.collapse)
  from frame_gas_bounds [OF demo_ready this [unfolded demo_run_def]] run show ?thesis by blast
qed

text \<open>C1. Termination: the gas that remains bounds the run of a frame with all its nested frames, so a
  fuel of that gas plus 2 is never exhausted.\<close>

theorem frame_terminates:
  assumes "overflow_checks H" "frame_inv m" "g_used (m_gas m) \<le> g_limit (m_gas m)"
    and "m_remaining m + 2 \<le> int n"
  shows "fst (execute_with_context n H hdr code call ctx m) \<noteq> OutOfFuel"
proof -
  obtain r m' where run: "execute_with_context n H hdr code call ctx m = (r, m')" by fastforce
  from execute_with_context_ok [OF assms(1-3) run] assms(4) run show ?thesis by (simp add: frame_ok_def)
qed

theorem frame_terminates_witness: "fst (demo_run 100002 [0x5b, 0x60, 0x00, 0x56]) \<noteq> OutOfFuel"
  unfolding demo_run_def by (rule frame_terminates [OF demo_ready]) simp

text \<open>The fuel does not influence results: a run that ended with some fuel ends in the same result
  and state with any larger fuel.\<close>

theorem fuel_irrelevant:
  assumes "n \<le> n'" "fst (execute_with_context n H hdr code call ctx m) \<noteq> OutOfFuel"
  shows "execute_with_context n' H hdr code call ctx m = execute_with_context n H hdr code call ctx m"
  using assms by (rule more_fuel)

lemma demo_run_fuel: "fst (demo_run 3 [0x5f, 0x00]) \<noteq> OutOfFuel"
  unfolding demo_run_stop by (rule res.distinct)

theorem fuel_irrelevant_witness: "demo_run 1000000 [0x5f, 0x00] = demo_run 3 [0x5f, 0x00]"
proof -
  have "3 \<le> (1000000 :: nat)" by simp
  from fuel_irrelevant [OF this demo_run_fuel [unfolded demo_run_def]]
  show ?thesis unfolding demo_run_def .
qed



section \<open>One turn\<close>


definition demo_turn :: "bytes \<Rightarrow> u256 list \<Rightarrow> (turn, exec_error) res \<times> machine" where
  "demo_turn code stk = execute_turn (execute_with_context 5 demo_host demo_header) (demo_frame code 0)
     (demo_machine stk)"

lemma demo_turn_add: "fst (demo_turn [0x01] [3, 4]) = Ok Continue"
  by code_simp

lemma demo_ready_stack:
  "overflow_checks (f_host (demo_frame code i))" "frame_inv (demo_machine [a, b])"
  "g_used (m_gas (demo_machine stk)) \<le> g_limit (m_gas (demo_machine stk))"
  by (simp add: demo_frame_def demo_host_def, simp add: frame_inv_def mem_words_cost_def div_ceil_def,
      simp add: demo_machine_def gas_new_def)


text \<open>C11. Progress: every turn that goes on has stopped the frame or used at least one unit of gas.\<close>

theorem turn_uses_gas:
  assumes "overflow_checks (f_host F)" "overflow_checks H"
    and "frame_inv m" "g_used (m_gas m) \<le> g_limit (m_gas m)"
    and "execute_turn (execute_with_context n H hdr) F m = (Ok Continue, m')"
  shows "e_stopped (m_evm m') \<or> m_remaining m' < m_remaining m"
proof -
  have "checked H = H" by (rule checked_id) (rule assms(2))
  then have "turn_ok n m (Ok Continue) m'"
    using frames.turn_ok [OF assms(1,3,4), of n H hdr] assms(5) by simp
  then show ?thesis by (auto simp: turn_ok_def gas_remaining_def)
qed

theorem turn_uses_gas_witness:
  "\<exists>m'. demo_turn [0x01] [3, 4] = (Ok Continue, m') \<and> (e_stopped (m_evm m') \<or> m_remaining m' < 100000)"
proof -
  obtain m' where run: "demo_turn [0x01] [3, 4] = (Ok Continue, m')"
    using demo_turn_add by (metis prod.collapse)
  from turn_uses_gas [OF demo_ready_stack(1) demo_ready(1) demo_ready_stack(2,3)
      this [unfolded demo_turn_def]] run
  show ?thesis by auto
qed

text \<open>C12. Exceptional halts consume everything: when an instruction halts or fails, or is \<open>INVALID\<close>,
  the turn ends the frame with empty output, marked stopped and reverted, with no gas left.\<close>

theorem exceptional_halt_consumes_gas:
  assumes "execute_instruction exec F m = (r, m1)" "m_remaining m1 \<ge> 0"
    and "(\<exists>e. r = Err e) \<or> (\<exists>c. r = Ok (Halt c)) \<or> (\<exists>c. r = Ok (StepOk c) \<and> f_op F = 0xfe)"
  shows "\<exists>m'. execute_turn exec F m = (Ok (Finish []), m') \<and> m_remaining m' = 0 \<and>
    e_stopped (m_evm m') \<and> e_reverted (m_evm m')"
  using assms
  by (auto simp: execute_turn_def catchM_def [of "execute_instruction exec F"] after_step_def failed_step_def
      turn_defs drain_gas_eq evm_gas_eq gas_remaining_def)

theorem exceptional_halt_consumes_gas_witness:
  "\<exists>m'. demo_turn [0xfe] [] = (Ok (Finish []), m') \<and> m_remaining m' = 0"
proof -
  let ?x = "execute_with_context 5 demo_host demo_header" and ?F = "demo_frame [0xfe] 0"
  have op: "f_op ?F = 0xfe" by code_simp
  have run: "execute_instruction ?x ?F (demo_machine [])
      = (Ok (StepOk 0), put_pc 1 (demo_machine []))"
    by (simp add: execute_instruction_def op op_table_def op_INVALID_def next_pc_eq put_pc_def
        demo_machine_def evm_default_def)
  have "0 \<le> m_remaining (put_pc 1 (demo_machine []))"
    using demo_machine_sel(2) [of "[]"] by (simp add: put_pc_def)
  from exceptional_halt_consumes_gas [OF run this] op show ?thesis
    unfolding demo_turn_def by blast
qed

section \<open>Nested frames\<close>

text \<open>The depth limit: a frame entered at a depth beyond 1024 executes nothing; it returns no data,
  stopped and reverted, with its gas untouched and the storage unchanged.\<close>

theorem call_depth_limit_enforced:
  assumes "1024 < k_depth ctx"
  shows "\<exists>m'. execute_with_context n H hdr code call ctx m = (Ok [], m') \<and> e_stopped (m_evm m') \<and>
    e_reverted (m_evm m') \<and> m_gas m' = m_gas m \<and> storage_view (m_ext m') = storage_view (m_ext m)"
proof -
  have "storage_view (x\<lparr>x_accessed_addresses := A\<rparr>) = storage_view x" for x A
    by (auto simp: storage_view_def cached_slot_def fun_eq_iff split: option.split)
  then show ?thesis using assms
    by (auto simp: execute_with_context_def enter_frame_def announce_call_def warm_touch_def trace_push_def
        on_ext_def warm_address_def touch_def stop_reverted_def upd_evm_def monad_defs)
qed

theorem call_depth_limit_enforced_witness:
  "\<exists>m'. execute_with_context 9 demo_host demo_header (decode_bytecode [0x00]) demo_call
     (context_default\<lparr>k_depth := 1025\<rparr>) (demo_machine []) = (Ok [], m') \<and> e_reverted (m_evm m')"
proof -
  have "1024 < k_depth (context_default\<lparr>k_depth := 1025\<rparr>)" by simp
  from call_depth_limit_enforced [OF this] show ?thesis by metis
qed

lemma run_inner_cong:
  "(\<And>x tr. exec code call ctx \<lparr>m_evm = inner_evm g, m_ext = x, m_ret = [], m_trace = tr\<rparr>
      = exec' code call ctx \<lparr>m_evm = inner_evm g, m_ext = x, m_ret = [], m_trace = tr\<rparr>) \<Longrightarrow>
    run_inner exec code call ctx g = run_inner exec' code call ctx g"
  by (rule HOL.ext) (simp add: run_inner_def)

text \<open>C13. The 63/64 rule (EIP-150): after the base cost, a call hands at most all but one 64th of the
  remaining gas (plus the stipend of 2300 of a value transfer) to the nested frame. Stated as
  non-interference: two executors that agree on every frame started within that bound give the same call.\<close>

theorem call_forwards_63_64:
  fixes m :: machine and F :: frame and a :: call_args and t :: call_target and mem_cost :: int
  defines "left \<equiv> m_remaining m - call_base_cost F a mem_cost t"
  assumes "\<And>code call ctx g x tr. g \<le> left - left div 64 + call_stipend F a \<Longrightarrow>
      exec code call ctx \<lparr>m_evm = inner_evm g, m_ext = x, m_ret = [], m_trace = tr\<rparr>
      = exec' code call ctx \<lparr>m_evm = inner_evm g, m_ext = x, m_ret = [], m_trace = tr\<rparr>"
  shows "call_dispatch exec F a mem_cost t m = call_dispatch exec' F a mem_cost t m"
proof (cases "left < 0")
  case True
  then show ?thesis by (simp add: call_dispatch_def bindM_def getsM_def left_def Let_def)
next
  case False
  then have "all_but_one_64th left = left - left div 64"
    by (cases "left = 0") (simp_all add: all_but_one_64th_def trunc_div_def)
  then have le: "min call_gas (all_but_one_64th left) + call_stipend F a \<le> left - left div 64 + call_stipend F a"
    for call_gas by simp
  have inner: "run_inner exec code call ctx (min call_gas (all_but_one_64th left) + call_stipend F a)
      = run_inner exec' code call ctx (min call_gas (all_but_one_64th left) + call_stipend F a)"
    for code call ctx call_gas
    by (rule run_inner_cong, rule assms(2), rule le)
  have step: "bindM (getsM f) k m = k (f m) m" for f :: "machine \<Rightarrow> int" and k :: "int \<Rightarrow> int exec"
    by (simp add: bindM_def getsM_def)
  have same: "call_inner exec F a t (min call_gas (all_but_one_64th left) + call_stipend F a) total data =
      call_inner exec' F a t (min call_gas (all_but_one_64th left) + call_stipend F a) total data"
    for call_gas total data
    by (simp add: call_inner_def inner)
  show ?thesis unfolding call_dispatch_def Let_def step
    by (simp only: left_def [symmetric] same)
qed

definition demo_args :: call_args where
  "demo_args = \<lparr>ca_gas = 500, ca_address = 0x99, ca_value = 0, ca_args_offset = 0, ca_args_size = 0,
     ca_ret_offset = 0, ca_ret_size = 0\<rparr>"

definition demo_target :: call_target where
  "demo_target = \<lparr>ct_code = [], ct_codehash = 0, ct_create_cost = 0, ct_access_cost = 2600\<rparr>"

theorem call_forwards_63_64_witness:
  "call_dispatch (\<lambda>_ _ _ m. if g_limit (m_gas m) \<le> 200000 then (Ok [], m) else (Panic, m)) (demo_frame [0xf1] 0)
     demo_args 0
     demo_target (demo_machine [])
   = call_dispatch (\<lambda>_ _ _ m. (Ok [], m)) (demo_frame [0xf1] 0)
     demo_args 0
     demo_target (demo_machine [])"
proof (rule call_forwards_63_64)
  fix g :: int
  assume g: "g \<le> m_remaining (demo_machine []) - call_base_cost (demo_frame [0xf1] 0)
       demo_args 0
       demo_target
     - (m_remaining (demo_machine []) - call_base_cost (demo_frame [0xf1] 0)
       demo_args 0
       demo_target) div 64
     + call_stipend (demo_frame [0xf1] 0)
       demo_args"
  then have "g \<le> 200000"
    by (simp add: call_base_cost_def call_stipend_def transfers_value_def is_zero_def demo_args_def
      demo_target_def)
  then show "(if g_limit (m_gas \<lparr>m_evm = inner_evm g, m_ext = x, m_ret = [], m_trace = tr\<rparr>) \<le> 200000
      then (Ok [], \<lparr>m_evm = inner_evm g, m_ext = x, m_ret = [], m_trace = tr\<rparr>)
      else (Panic, \<lparr>m_evm = inner_evm g, m_ext = x, m_ret = [], m_trace = tr\<rparr>))
    = (Ok [], \<lparr>m_evm = inner_evm g, m_ext = x, m_ret = [], m_trace = tr\<rparr>)" for x tr
    by (simp add: inner_evm_def gas_new_def)
qed

section \<open>The journal\<close>

text \<open>C9. Roll-back: \<open>Evm::revert\<close> implements the abstract undo of the journal, newest entry first, on
  the persistent and the transient storage, whatever other entries the journal holds.\<close>

theorem revert_undoes_journal:
  assumes "evm_revert e x = (Ok (), x')"
  shows "persist x' = undo_all (e_touches e) (persist x)"
  using assms by (rule evm_revert_persist)

theorem revert_undoes_journal_witness:
  "\<exists>x'. evm_revert (evm_default\<lparr>e_touches := [T_SetState 0x42 3 7 9 True, T_SetState 0x42 3 9 8 True]\<rparr>) demo_ext
     = (Ok (), x') \<and> storage_view x' (0x42, 3) = Some 7"
proof -
  let ?e = "evm_default\<lparr>e_touches := [T_SetState 0x42 3 7 9 True, T_SetState 0x42 3 9 8 True]\<rparr>"
  obtain x' where run: "evm_revert ?e demo_ext = (Ok (), x')"
    by (simp add: evm_revert_def monad_defs)
  from revert_undoes_journal [OF this] have "storage_view x' (0x42, 3) = Some 7"
    by (simp add: persist_def)
  with run show ?thesis by blast
qed

end
