(* ===== verification/DemoRuns.thy ===== *)
theory DemoRuns
  imports FrameProps Transactions
begin

text \<open>
  Runs of the interpreter on concrete input, from which witnesses of properties of whole
  frames, calls and transactions are taken. They are evaluated turn by turn, since the state
  holds functions. The contract stores 9 in a transient slot and then hits \<open>INVALID\<close>.
\<close>

text \<open>A demonstration contract: store 9 in transient slot 0, then \<open>INVALID\<close>.\<close>

definition store_and_halt :: bytes where
  "store_and_halt = [0x60, 9, 0x5f, 0x5d, 0xfe]"

definition demo_world :: ext where
  "demo_world = demo_ext\<lparr>x_remote := None,
     x_state := [0x11 \<mapsto> account_default, 0x42 \<mapsto> account_default,
       0x99 \<mapsto> account_default\<lparr>a_code := (store_and_halt, 1)\<rparr>],
     x_accessed_addresses := {0x11, 0x42, 0x99},
     x_tx_ctx := demo_tx_context\<lparr>t_gas_price := 0, t_access_list := []\<rparr>\<rparr>"

lemma store_and_halt_code: "decode_bytecode store_and_halt =
  \<lparr>bc_bytecode = store_and_halt,
   bc_instructions =
     [\<lparr>i_opcode = \<lparr>op_code = 0x60, op_name = ''PUSH_'', op_n = 1\<rparr>, i_offset = 0, i_argument = Some [9]\<rparr>,
      \<lparr>i_opcode = \<lparr>op_code = 0x5f, op_name = ''PUSH0'', op_n = 0\<rparr>, i_offset = 2, i_argument = None\<rparr>,
      \<lparr>i_opcode = \<lparr>op_code = 0x5d, op_name = ''TSTORE'', op_n = 0\<rparr>, i_offset = 3, i_argument = None\<rparr>,
      \<lparr>i_opcode = \<lparr>op_code = 0xfe, op_name = ''INVALID'', op_n = 0\<rparr>, i_offset = 4, i_argument = None\<rparr>],
   bc_jumptable = []\<rparr>"
  by code_simp

lemma table_entries:
  "map_of (op_table exec) 0x5f = Some op_PUSH0" "map_of (op_table exec) 0x5d = Some op_TSTORE"
  "map_of (op_table exec) 0xfe = Some op_INVALID"
  by (simp_all add: op_table_def)

lemma run_loop_numeral: "run_loop (numeral k) H hdr code call ctx = run_loop (Suc (pred_numeral k)) H hdr code call ctx"
  by (simp add: numeral_eq_Suc)

lemma plain_turn:
  assumes "execute_instruction exec F m = (Ok (StepOk c), m1)" "0 \<le> c" "c \<le> m_remaining m1"
    and "\<not> is_call (f_instr F)" "f_op F \<noteq> 0xfe" "f_op F \<noteq> 0xff"
  obtains m2 where "execute_turn exec F m = (Ok Continue, m2)"
    "m_evm m2 = (m_evm m1)\<lparr>e_gas := (m_gas m1)\<lparr>g_used := g_used (m_gas m1) + c\<rparr>, e_refund := g_refund (m_gas m1)\<rparr>"
    "m_ext m2 = m_ext m1" "m_ret m2 = m_ret m1"
  using assms
  by (simp add: execute_turn_def catchM_def [of "execute_instruction exec F"] after_step_def turn_defs
      catchM_def evm_gas_eq gas_remaining_def split: prod.splits)

lemma run_loop_continue:
  assumes "\<not> e_stopped (m_evm m)" "e_pc (m_evm m) < length (bc_instructions code)"
    and "execute_turn (enter_frame (run_loop n H hdr)) \<lparr>f_host = H, f_header = hdr, f_code = code, f_call = call,
      f_ctx = ctx, f_instr = bc_instructions code ! e_pc (m_evm m)\<rparr> m = (Ok t, m1)"
  shows "run_loop (Suc n) H hdr code call ctx m =
    (case t of Continue \<Rightarrow> run_loop n H hdr code call ctx m1 | Finish bs \<Rightarrow> (Ok bs, m1))"
  using assms by (simp add: bindM_def returnM_def split: turn.splits)

lemma invalid_turn:
  assumes "f_op F = 0xfe" "\<not> is_call (f_instr F)" "0 \<le> m_remaining m"
  obtains m' where "execute_turn exec F m = (Ok (Finish []), m')" "e_reverted (m_evm m')" "m_ext m' = m_ext m"
    "e_touches (m_evm m') = e_touches (m_evm m)" "g_refund (m_gas m') = g_refund (m_gas m)"
  using assms
  by (simp add: execute_turn_def execute_instruction_def table_entries op_INVALID_def next_pc_eq catchM_def
      after_step_def turn_defs drain_gas_eq advance_def gas_remaining_def split: prod.splits if_splits)

lemma store_and_halt_runs:
  assumes "m_stack m = []" "e_pc (m_evm m) = 0" "\<not> e_stopped (m_evm m)" "105 \<le> m_remaining m"
    and "self = (if c_to call = 0 then k_created ctx else c_to call)"
  shows "\<exists>m'. run_loop (Suc (Suc (Suc (Suc n)))) H hdr (decode_bytecode store_and_halt) call ctx m = (Ok [], m') \<and>
    e_reverted (m_evm m') \<and> g_refund (m_gas m') = g_refund (m_gas m) \<and>
    e_touches (m_evm m') = e_touches (m_evm m) @ [T_SetTransientState self 0 (transient_view (m_ext m) (self, 0)) 9] \<and>
    m_ext m' = (m_ext m)\<lparr>x_transient := (x_transient (m_ext m))((self, 0) \<mapsto> 9)\<rparr>"
proof -
  let ?x = "\<lambda>n. enter_frame (run_loop n H hdr)" and ?c = "decode_bytecode store_and_halt"
  let ?F = "\<lambda>i. \<lparr>f_host = H, f_header = hdr, f_code = ?c, f_call = call, f_ctx = ctx, f_instr = bc_instructions ?c ! i\<rparr>"
  let ?paid = "\<lambda>k m. (m_evm m)\<lparr>e_gas := (m_gas m)\<lparr>g_used := g_used (m_gas m) + k\<rparr>, e_refund := g_refund (m_gas m)\<rparr>"
  note step = execute_instruction_def table_entries op_TSTORE_def op_PUSH0_def op_PUSH_def eval_step
    upd_evm_def on_ext_def touch_def frame_this_def addr_is_zero_iff Let_def store_and_halt_code is_call_def
    gas_remaining_def from_bytes_def be_nat_def put_pc_def put_stack_def
  let ?m1 = "put_pc 1 (put_stack [9] m)"
  have "execute_instruction (?x (n + 3)) (?F 0) m = (Ok (StepOk 3), ?m1)"
    using assms by (simp add: step)
  then obtain m1 where t1: "execute_turn (?x (n + 3)) (?F 0) m = (Ok Continue, m1)"
    and m1: "m_evm m1 = ?paid 3 ?m1" "m_ext m1 = m_ext ?m1"
    by (rule plain_turn) (use assms in \<open>simp_all add: step\<close>)
  let ?m2 = "put_pc 2 (put_stack [9, 0] m1)"
  have "execute_instruction (?x (n + 2)) (?F 1) m1 = (Ok (StepOk 2), ?m2)"
    using assms m1 by (simp add: step)
  then obtain m2 where t2: "execute_turn (?x (n + 2)) (?F 1) m1 = (Ok Continue, m2)"
    and m2: "m_evm m2 = ?paid 2 ?m2" "m_ext m2 = m_ext ?m2"
    by (rule plain_turn) (use assms m1 in \<open>simp_all add: step\<close>)
  let ?old = "transient_view (m_ext m) (self, 0)"
  let ?m3 = "put_pc 3 (put_stack [] (m2\<lparr>m_evm := (m_evm m2)\<lparr>e_touches := e_touches (m_evm m2) @
      [T_SetTransientState self 0 ?old 9]\<rparr>,
      m_ext := (m_ext m2)\<lparr>x_transient := (x_transient (m_ext m2))((self, 0) \<mapsto> 9)\<rparr>\<rparr>))"
  have "execute_instruction (?x (n + 1)) (?F 2) m2 = (Ok (StepOk 100), ?m3)"
    using assms m1 m2 by (simp add: step transient_view_def)
  then obtain m3 where t3: "execute_turn (?x (n + 1)) (?F 2) m2 = (Ok Continue, m3)"
    and m3: "m_evm m3 = ?paid 100 ?m3" "m_ext m3 = m_ext ?m3"
    by (rule plain_turn) (use assms m1 m2 in \<open>simp_all add: step\<close>)
  obtain m4 where t4: "execute_turn (?x n) (?F 3) m3 = (Ok (Finish []), m4)"
    and m4: "e_reverted (m_evm m4)" "m_ext m4 = m_ext m3" "e_touches (m_evm m4) = e_touches (m_evm m3)"
      "g_refund (m_gas m4) = g_refund (m_gas m3)"
    by (rule invalid_turn [of "?F 3" m3 "?x n"]) (use assms m1 m2 m3 in \<open>simp_all add: step\<close>)
  have "run_loop (Suc (Suc (Suc (Suc n)))) H hdr ?c call ctx m = (Ok [], m4)"
    using t1 t2 t3 t4 m1 m2 m3 assms
    by (simp add: run_loop_continue put_pc_def put_stack_def store_and_halt_code eval_nat_numeral del: run_loop.simps)
  then show ?thesis using m1 m2 m3 m4 by (simp add: put_pc_def put_stack_def)
qed

lemma store_and_halt_anywhere:
  assumes "m_stack m = []" "e_pc (m_evm m) = 0" "\<not> e_stopped (m_evm m)" "105 \<le> m_remaining m"
    and "self = (if c_to call = 0 then k_created ctx else c_to call)" "c_from call \<in> x_accessed_addresses (m_ext m)" "k_depth ctx \<le> 1024" "4 \<le> n"
  shows "\<exists>m'. execute_with_context n H hdr (decode_bytecode store_and_halt) call ctx m = (Ok [], m') \<and>
    e_reverted (m_evm m') \<and> g_refund (m_gas m') = g_refund (m_gas m) \<and>
    e_touches (m_evm m') = e_touches (m_evm m) @ [T_SetTransientState self 0 (transient_view (m_ext m) (self, 0)) 9] \<and>
    m_ext m' = (m_ext m)\<lparr>x_transient := (x_transient (m_ext m))((self, 0) \<mapsto> 9)\<rparr>"
proof -
  obtain k where n: "n = Suc (Suc (Suc (Suc k)))" using le_Suc_ex [OF assms(8)] by auto
  obtain m1 where m1: "announce_call call ctx m = (Ok (), m1)" "m_evm m1 = m_evm m" "m_ext m1 = m_ext m"
    using assms(6) by (auto simp: announce_call_def warm_touch_def warm_address_def trace_push_def on_ext_def
        monad_defs insert_absorb split: prod.splits)
  have "m_stack m1 = []" "e_pc (m_evm m1) = 0" "\<not> e_stopped (m_evm m1)" "105 \<le> m_remaining m1"
    using assms(1-4) m1(2) by simp_all
  from store_and_halt_runs [OF this assms(5), of k H hdr] show ?thesis
    using m1 assms(7) unfolding n execute_with_context_def enter_frame_def seqM_def bindM_def by simp
qed

lemma store_and_halt_frame:
  assumes "m_stack m = []" "e_pc (m_evm m) = 0" "\<not> e_stopped (m_evm m)" "105 \<le> m_remaining m"
    and "c_to call \<noteq> 0" "c_from call \<in> x_accessed_addresses (m_ext m)" "k_depth ctx \<le> 1024" "4 \<le> n"
  shows "\<exists>m'. execute_with_context n H hdr (decode_bytecode store_and_halt) call ctx m = (Ok [], m') \<and>
    e_reverted (m_evm m') \<and> g_refund (m_gas m') = g_refund (m_gas m) \<and>
    e_touches (m_evm m') = e_touches (m_evm m) @ [T_SetTransientState (c_to call) 0 (transient_view (m_ext m) (c_to call, 0)) 9] \<and>
    m_ext m' = (m_ext m)\<lparr>x_transient := (x_transient (m_ext m))((c_to call, 0) \<mapsto> 9)\<rparr>"
  by (rule store_and_halt_anywhere) (use assms in simp_all)

lemma demo_world_frame:
  "m_stack (demo_machine []\<lparr>m_ext := demo_world\<rparr>) = []"
  "e_pc (m_evm (demo_machine []\<lparr>m_ext := demo_world\<rparr>)) = 0"
  "\<not> e_stopped (m_evm (demo_machine []\<lparr>m_ext := demo_world\<rparr>))"
  "105 \<le> m_remaining (demo_machine []\<lparr>m_ext := demo_world\<rparr>)"
  "c_to demo_call \<noteq> 0" "c_from demo_call \<in> x_accessed_addresses (m_ext (demo_machine []\<lparr>m_ext := demo_world\<rparr>))"
  "e_touches (m_evm (demo_machine []\<lparr>m_ext := demo_world\<rparr>)) = []"
  by (simp_all add: demo_machine_def demo_call_def demo_world_def evm_default_def gas_new_def gas_remaining_def)

definition demo_quiet_header :: header where
  "demo_quiet_header = demo_header\<lparr>h_miner := 0\<rparr>"
definition demo_fresh :: machine where
  "demo_fresh = \<lparr>m_evm = evm_default, m_ext = demo_world, m_ret = [], m_trace = []\<rparr>"

lemmas demo_defs = demo_world_def demo_ext_def demo_quiet_header_def demo_header_def demo_call_def demo_tx_context_def demo_host_def account_default_def
  monad_defs on_ext_def warm_touch_def warm_address_def ext_code_def touch_def upd_evm_def is_delegation_def
  evm_default_def addr_is_zero_iff is_zero_def demo_fresh_def ext_balance_def ext_nonce_def word_mul_def overflowing_mul_def
  as_i64_def as_u64_def i64_arith_def access_list_cost_def calldata_cost_def apply_access_list_def set_nonce_def account_upd_def
  trace_push_def word_add_def overflowing_add_def u64_succ_def

lemma demo_transaction:
  "\<exists>m'. execute 80000 demo_host demo_quiet_header (decode_bytecode store_and_halt) demo_call demo_fresh = (Ok [], m') \<and>
    e_reverted (m_evm m') \<and> g_refund (m_gas m') = 0"
proof -
  let ?code = "decode_bytecode store_and_halt"
  let ?x = "demo_world\<lparr>x_state := (x_state demo_world)(0x11 \<mapsto> account_default\<lparr>a_nonce := 1\<rparr>)\<rparr>"
  obtain m1 where pre: "\<And>k :: u256 \<Rightarrow> u256 \<Rightarrow> int \<Rightarrow> u256 \<Rightarrow> bytes exec. seqM (tx_warm demo_host demo_quiet_header demo_call)
      (bindM (tx_prepay demo_host demo_call) (\<lambda>(p, b). bindM (tx_intrinsic demo_host demo_call) (\<lambda>alc.
       seqM (tx_transfer demo_host demo_call) (bindM (bump_nonce demo_host (c_from demo_call) 1)
         (\<lambda>nonce. k p b alc nonce))))) demo_fresh = k 0 0 0 0 m1"
    and m1: "m_stack m1 = []" "e_pc (m_evm m1) = 0" "\<not> e_stopped (m_evm m1)" "m_gas m1 = gas_new 78952"
      "e_touches (m_evm m1) = [T_GetCode 0x42 0 [], T_SetNonce 0x11 0 1]" "m_ext m1 = ?x"
    by (simp add: demo_defs tx_warm_def tx_prepay_def tx_intrinsic_def tx_transfer_def bump_nonce_def insert_commute)
  let ?m1 = "m1\<lparr>m_ret := [], m_trace := log_fork (m_trace m1)\<rparr>"
  have ready: "m_stack ?m1 = []" "e_pc (m_evm ?m1) = 0" "\<not> e_stopped (m_evm ?m1)" "105 \<le> m_remaining ?m1"
    "c_to demo_call \<noteq> 0" "c_from demo_call \<in> x_accessed_addresses (m_ext ?m1)"
    by (simp_all add: m1 gas_new_def gas_remaining_def demo_call_def demo_world_def)
  obtain m2 where run: "tx_run 80000 demo_host demo_quiet_header ?code demo_call
      (addr_create (keccak256 demo_host) (c_from demo_call) 0) m1 = (Ok [], m2)"
    and m2: "e_reverted (m_evm m2)" "g_refund (m_gas m2) = 0" "m_ext m2 = ?x\<lparr>x_transient := [(0x42, 0) \<mapsto> 9]\<rparr>"
      "e_touches (m_evm m2) = [T_GetCode 0x42 0 [], T_SetNonce 0x11 0 1, T_SetTransientState 0x42 0 0 9]"
    using store_and_halt_frame [OF ready, of "context_default\<lparr>k_created := addr_create (keccak256 demo_host)
      (c_from demo_call) 0, k_origin := c_from demo_call, k_depth := 1\<rparr>" 80000 demo_host demo_quiet_header]
    by (auto simp: tx_run_def m1 gas_new_def demo_call_def transient_view_def demo_world_def demo_ext_def)
  have code: "bc_bytecode ?code = store_and_halt" "store_and_halt \<noteq> []" by (simp add: store_and_halt_code, simp add: store_and_halt_def)
  have start: "seqM (if bc_bytecode ?code = [] \<and> c_data demo_call = [] \<and> \<not> addr_is_zero (c_to demo_call)
      then upd_evm (\<lambda>e. e\<lparr>e_stopped := True, e_reverted := False\<rparr>) else returnM ())
      (bindM (tx_run 80000 demo_host demo_quiet_header ?code demo_call (addr_create (keccak256 demo_host)
        (c_from demo_call) 0)) k) m1 = k [] m2" for k :: "bytes \<Rightarrow> bytes exec"
    by (simp add: code seqM_def bindM_def returnM_def run)
  show ?thesis
    unfolding execute_def pre start using m2
    by (simp add: demo_defs Let_def not_less order_trans [OF _ tx_gas_final_ge] evm_revert_def tx_refund_sender_def tx_pay_coinbase_def tx_blob_fee_def tx_effective_price_def
        word_of_i64_def word_sub_def overflowing_sub_def)
qed

lemma demo_failed_call:
  "\<exists>c m'. evm_call (execute_with_context 9 demo_host demo_header) (demo_frame [0xf1] 0)
     (demo_machine [0, 0, 0, 0, 0, 0x99, 500]\<lparr>m_ext := demo_world\<rparr>) = (Ok c, m') \<and> last (m_stack m') = 0"
proof -
  let ?F = "demo_frame [0xf1] 0" and ?m = "demo_machine [0, 0, 0, 0, 0, 0x99, 500]\<lparr>m_ext := demo_world\<rparr>"
  let ?e = "(m_evm (demo_machine []))\<lparr>e_touches := [T_GetCode 0x99 1 store_and_halt]\<rparr>"
  let ?t = "\<lparr>ct_code = store_and_halt, ct_codehash = 1, ct_create_cost = 0, ct_access_cost = 100\<rparr>"
  let ?m1 = "demo_machine []\<lparr>m_ext := demo_world\<rparr>" let ?m2 = "?m1\<lparr>m_evm := ?e\<rparr>"
  have adr: "addr_of_word 0x99 = 0x99" by code_simp
  have precompile: "\<not> is_precompile 0x99" by code_simp
  have self: "frame_this ?F = 0x42" by (simp add: frame_this_def demo_frame_def demo_call_def addr_is_zero_iff)
  have pop: "pop_call_args ?F ?m = (Ok demo_args, ?m1)"
    by (simp add: pop_call_args_def eval_step pop_address_def demo_machine_def evm_default_def as_usize_def
        demo_frame_def context_default_def demo_args_def adr)
  have expand: "call_expand (f_host ?F) demo_args ?m1 = (Ok (), ?m1)"
    by (simp add: call_expand_def demo_args_def monad_defs)
  have mem: "memory_expansion_cost ?m1 = (Ok 0, ?m1)"
    by (simp add: memory_expansion_cost_eq demo_machine_def evm_default_def mem_words_cost_def div_ceil_def)
  have access: "call_access ?F demo_args ?m1 = (Ok ?t, ?m2)"
    by (simp add: call_access_def demo_args_def address_access_cost_def demo_frame_def ext_is_empty_def demo_defs precompile store_and_halt_def
        demo_machine_def is_address_warm_def Let_def)
  have ctx: "k_call_type (f_ctx ?F) = CT_Call" "f_depth ?F = 1" by (simp_all add: demo_frame_def context_default_def)
  then have params: "c_to (inner_call ?F demo_args [] 500) = 0x99" "c_from (inner_call ?F demo_args [] 500) = 0x42"
    "f_depth ?F = 1"
    by (simp_all add: inner_call_def self demo_args_def)
  have inner: "\<exists>m'. execute_with_context 9 demo_host demo_header (decode_bytecode store_and_halt)
      (inner_call ?F demo_args [] 500) ((f_ctx ?F)\<lparr>k_depth := f_depth ?F + 1\<rparr>)
      \<lparr>m_evm = inner_evm 500, m_ext = demo_world, m_ret = [], m_trace = log_fork tr\<rparr> = (Ok [], m') \<and>
      e_reverted (m_evm m') \<and> e_touches (m_evm m') = [T_SetTransientState 0x99 0 0 9]" for tr
    using store_and_halt_frame [of "\<lparr>m_evm = inner_evm 500, m_ext = demo_world, m_ret = [], m_trace = log_fork tr\<rparr>"
        "inner_call ?F demo_args [] 500" "(f_ctx ?F)\<lparr>k_depth := f_depth ?F + 1\<rparr>" 9 demo_host demo_header]
    by (auto simp: inner_evm_def evm_default_def gas_new_def gas_remaining_def params demo_world_def demo_ext_def transient_view_def)
  have "\<exists>m'. call_inner (execute_with_context 9 demo_host demo_header) ?F demo_args ?t 500 600 [] ?m2 = (Ok (), m') \<and>
      last (m_stack m') = 0"
  proof -
    let ?m3 = "?m2\<lparr>m_trace := [\<lparr>ev_data = ED_Account (AE_GetCode 0x99 1 store_and_halt), ev_depth = 1, ev_reverted = False\<rparr>]\<rparr>"
    have transfer: "call_transfer ?F demo_args ?m2 = (Ok (), ?m2)"
      by (simp add: call_transfer_def self demo_defs demo_args_def transfers_value_def)
    have got: "trace_push (ED_Account (AE_GetCode 0x99 1 (bc_bytecode (decode_bytecode store_and_halt)))) (f_depth ?F) False ?m2
        = (Ok (), ?m3)"
      by (simp add: trace_push_def modifyM_def demo_machine_def log_push_def store_and_halt_code demo_frame_def)
    obtain m4 where "execute_with_context 9 demo_host demo_header (decode_bytecode store_and_halt)
      (inner_call ?F demo_args [] 500) ((f_ctx ?F)\<lparr>k_depth := f_depth ?F + 1\<rparr>)
      \<lparr>m_evm = inner_evm 500, m_ext = demo_world, m_ret = [], m_trace = log_fork (m_trace ?m3)\<rparr> = (Ok [], m4)"
      and m4: "e_reverted (m_evm m4)" "e_touches (m_evm m4) = [T_SetTransientState 0x99 0 0 9]"
      using inner by blast
    then have run: "run_inner (execute_with_context 9 demo_host demo_header) (decode_bytecode store_and_halt)
      (inner_call ?F demo_args [] 500) ((f_ctx ?F)\<lparr>k_depth := f_depth ?F + 1\<rparr>) 500 ?m3 = (Ok ([], m_evm m4, m_trace m4), ?m3\<lparr>m_ext := m_ext m4\<rparr>)"
      by (simp add: run_inner_def)
    have "\<exists>m'. finish_call ?F demo_args 600 [] (m_evm m4) (m_trace m4) (?m3\<lparr>m_ext := m_ext m4\<rparr>) = (Ok (), m') \<and> last (m_stack m') = 0"
      by (simp add: finish_call_def settle_call_def m4 trace_call_def trace_join_def copy_return_def charge_used_def demo_args_def trace_opcode_def trace_push_def
        set_ret_def evm_push_eq on_ext_def evm_revert_def extend_touches_def upd_evm_def monad_defs demo_machine_def evm_default_def)
    then show ?thesis
      using transfer got run by (auto simp: call_inner_def Let_def seqM_def bindM_def demo_args_def)
  qed
  then have "\<exists>c m'. call_dispatch (execute_with_context 9 demo_host demo_header) ?F demo_args 0 ?t ?m2 = (Ok c, m') \<and> last (m_stack m') = 0"
    by (auto simp: call_dispatch_def call_base_cost_def call_stipend_def transfers_value_def is_zero_def demo_args_def monad_defs
      call_data_def precompile as_i64_def as_u64_def Let_def demo_machine_def gas_new_def gas_remaining_def all_but_one_64th_def trunc_div_def)
  then show ?thesis using pop expand mem access by (simp add: evm_call_def seqM_def bindM_def)
qed
end
