(* ===== verification/AtomicProps.thy ===== *)
theory AtomicProps
  imports DemoRuns
begin

text \<open>
  Atomicity: what a frame, a call or a transaction that fails leaves behind, and the bounds of
  a whole transaction.
\<close>

section \<open>Failed calls\<close>

text \<open>Steps that change neither the storage nor the transient storage.\<close>

definition unchanged :: "machine \<Rightarrow> machine \<Rightarrow> bool" where
  "unchanged m m' \<longleftrightarrow> persist (m_ext m') = persist (m_ext m)"

interpretation unchanged: step_relation unchanged
  by unfold_locales (simp_all add: unchanged_def)

lemma unchanged_ext: "(\<And>m r m'. c m = (r, m') \<Longrightarrow> m_ext m' = m_ext m) \<Longrightarrow> preserves unchanged c"
  by (auto simp: preserves_def unchanged_def)

lemma unchanged_on_ext: "preserves neutral c \<Longrightarrow> preserves unchanged (on_ext c)"
  by (auto simp: preserves_def unchanged_def on_ext_def neutral_def split: prod.splits)

lemma unchanged_upd: "preserves unchanged (upd_evm f)"
  by (rule unchanged_ext) (auto simp: upd_evm_def modifyM_def)

lemma unchanged_steps:
  "preserves unchanged evm_pop" "preserves unchanged (evm_push v)" "preserves unchanged (evm_gas k)"
  "preserves unchanged (set_ret bs)" "preserves unchanged (trace_push d n b)"
  "preserves unchanged (read_memory i j)" "preserves unchanged (write_memory i j bs)"
  "preserves unchanged memory_expansion_cost" "preserves unchanged (resize_memory k')"
  by (rule unchanged_ext; auto simp: evm_pop_eq evm_push_eq evm_gas_eq set_ret_def trace_push_def read_memory_def
      write_memory_def memory_expansion_cost_eq resize_memory_def upd_evm_def monad_defs split: if_splits)+

lemmas unchanged_intros = unchanged.preserves_bind unchanged.preserves_seq unchanged.preserves_pure
  unchanged.preserves_branch unchanged_steps unchanged_on_ext unchanged_upd neutral_reads neutral_setters
  neutral_misc

lemma unchanged_call_steps:
  "preserves unchanged (pop_call_args F)" "preserves unchanged (call_access F a)"
  "preserves unchanged (call_data H a)" "preserves unchanged (call_transfer F a)"
  unfolding pop_call_args_def pop_address_def pop_usize_def call_access_def address_access_cost_def touch_def
    call_data_def call_transfer_def move_value_def Let_def
  by (intro unchanged_intros)+

lemma unchanged_call_expand: "preserves unchanged (call_expand H a)"
proof -
  have "preserves unchanged (\<lambda>m. if n > length (m_memory m) then
           (if n > allocation_sanity_limit then throwM (InvalidAllocation n) m
            else resize_memory (div_ceil n 32 * 32) m) else (Ok (), m))" for n
    using unchanged_steps(9) [of "div_ceil n 32 * 32"]
    by (auto simp: preserves_def throwM_def unchanged.R_refl split: if_splits)
  then show ?thesis unfolding call_expand_def Let_def by (intro unchanged_intros)
qed

lemma unchanged_call_precompile: "preserves unchanged (call_precompile F a tot data)"
proof -
  have "preserves unchanged (case r of Ok ret \<Rightarrow> seqM (set_ret ret) (returnM 1)
      | Err _ \<Rightarrow> returnM 0 | Panic \<Rightarrow> panicM | OutOfFuel \<Rightarrow> panicM)" for r :: "(bytes, exec_error) res"
    by (cases r) (auto intro!: unchanged_intros)
  then show ?thesis
    unfolding call_precompile_def trace_call_def trace_opcode_def Let_def by (intro unchanged_intros)
qed


text \<open>The end of a call: a zero on the stack means that the nested frame was rolled back.\<close>

lemma settle_call_zero:
  assumes "pending m0 inner m" "settle_call inner ret m = (Ok u, m')" "last (m_stack m') = 0"
  shows "persist (m_ext m') = persist (m_ext m0)"
proof (cases "e_reverted inner")
  case True
  then obtain x where "evm_revert inner (m_ext m) = (Ok (), x)" "m_ext m' = x"
    using assms(2)
    by (auto simp: settle_call_def seqM_def bindM_Ok_iff on_ext_def extend_touches_def upd_evm_def
        evm_push_eq set_ret_def modifyM_def split: if_splits prod.splits)
  then show ?thesis using evm_revert_persist pending_undo [OF assms(1)] by simp
next
  case False
  then have "last (m_stack m') = 1"
    using assms(2)
    by (auto simp: settle_call_def seqM_def bindM_Ok_iff extend_touches_def upd_evm_def evm_push_eq
        set_ret_def modifyM_def Let_def split: if_splits)
  with assms(3) show ?thesis by simp
qed

lemma finish_call_zero:
  assumes p: "pending m0 inner m" and run: "finish_call F a tot ret inner tr m = (Ok u, m')"
    and zero: "last (m_stack m') = 0"
  shows "persist (m_ext m') = persist (m_ext m0)"
proof -
  have skip: "\<exists>m1. pending m0 inner m1 \<and> k m1 = (Ok u, m')"
    if c: "steady c" and p: "pending m0 inner m" and run: "seqM c k m = (Ok u, m')" for k m and c :: "unit exec"
  proof -
    from run obtain m1 where "c m = (Ok (), m1)" "k m1 = (Ok u, m')" by (auto simp: seqM_def bindM_Ok_iff)
    with steadyD [OF c] pending_still [OF p] show ?thesis by (metis settled_simps(1))
  qed
  from run p obtain m1 where "pending m0 inner m1" "settle_call inner ret m1 = (Ok u, m')"
    unfolding finish_call_def by (metis skip steady_steps(4) steady_steps(1) steady_copy_return steady_steps(3))
  then show ?thesis using zero by (rule settle_call_zero)
qed

context journaling_executor
begin

lemma call_inner_zero:
  assumes "0 \<le> g" and run: "call_inner exec F a t g tot data m = (Ok u, m')" and zero: "last (m_stack m') = 0"
  shows "unchanged m m'"
proof -
  from run obtain m0 m1 ret inner tr m2 where "call_transfer F a m = (Ok (), m0)"
      "trace_push (ED_Account (AE_GetCode (ca_address a) (ct_codehash t) (bc_bytecode (decode_bytecode (ct_code t)))))
        (f_depth F) False m0 = (Ok (), m1)"
    and run: "run_inner exec (decode_bytecode (ct_code t)) (inner_call F a data g)
        ((f_ctx F)\<lparr>k_depth := f_depth F + 1\<rparr>) g m1 = (Ok (ret, inner, tr), m2)"
    and fin: "finish_call F a tot ret inner tr m2 = (Ok u, m')"
    unfolding call_inner_def Let_def seqM_def by (auto simp: bindM_Ok_iff)
  then have pre: "unchanged m m1"
    using preservesD [OF unchanged_call_steps(4)] preservesD [OF unchanged_steps(5)]
    by (metis unchanged.R_trans settled_simps(1))
  from run have "pending m1 inner m2" using run_inner_pending [OF assms(1)] by fastforce
  from finish_call_zero [OF this fin zero] pre show ?thesis by (simp add: unchanged_def)
qed

lemma call_dispatch_zero:
  assumes "\<exists>w. ca_gas a = min w (of_int i64_max)"
    and run: "call_dispatch exec F a mem_cost t m = (Ok c, m')" and zero: "last (m_stack m') = 0"
  shows "unchanged m m'"
proof -
  let ?r = "m_remaining m - call_base_cost F a mem_cost t"
  from run have r: "\<not> ?r < 0"
    by (auto simp: call_dispatch_def Let_def bindM_Ok_iff getsM_def call_oog_def seqM_def throwM_def split: if_splits)
  have "\<exists>cg data m1 tot b. as_i64 (ca_gas a) = (Ok cg :: (int, exec_error) res) \<and>
      call_data (f_host F) a m = (Ok data, m1) \<and>
      (if is_precompile (ca_address a) then
          seqM (call_precompile F a tot data)
            (seqM (evm_gas (precompile_gas_cost (ca_address a) data)) (returnM b))
        else seqM (call_inner exec F a t (min cg (all_but_one_64th ?r) + call_stipend F a) tot data) (returnM b)) m1
      = (Ok c, m')"
    using run r unfolding call_dispatch_def Let_def bindM_Ok_iff getsM_def liftM_def
    by (simp del: if_split split del: if_split add: bindM_Ok_iff) blast
  then obtain cg data m1 tot b where cg: "as_i64 (ca_gas a) = (Ok cg :: (int, exec_error) res)"
    and d: "call_data (f_host F) a m = (Ok data, m1)"
    and rest: "(if is_precompile (ca_address a) then
          seqM (call_precompile F a tot data)
            (seqM (evm_gas (precompile_gas_cost (ca_address a) data)) (returnM b))
        else seqM (call_inner exec F a t (min cg (all_but_one_64th ?r) + call_stipend F a) tot data) (returnM b)) m1
      = (Ok c, m')" by blast
  have pre: "unchanged m m1" using preservesD [OF unchanged_call_steps(3) d] by simp
  have "0 \<le> cg" using as_i64_min assms(1) cg by fastforce
  then have g: "0 \<le> min cg (all_but_one_64th ?r) + call_stipend F a"
    using all_but_one_64th_bounds [of ?r] r by (auto simp: call_stipend_def)
  have pre2: "preserves unchanged (seqM (call_precompile F a tot data)
      (seqM (evm_gas (precompile_gas_cost (ca_address a) data)) (returnM b)))"
    by (intro unchanged_intros unchanged_call_precompile)
  have "unchanged m1 m'"
  proof (cases "is_precompile (ca_address a)")
    case True
    with rest preservesD [OF pre2, of m1 "Ok c" m'] show ?thesis by simp
  next
    case False
    with rest show ?thesis by (auto simp: seqM_def bindM_Ok_iff returnM_def intro: call_inner_zero [OF g _ zero])
  qed
  with pre show ?thesis by (rule unchanged.R_trans)
qed

lemma evm_call_zero:
  assumes run: "evm_call exec F m = (Ok c, m')" and zero: "last (m_stack m') = 0"
  shows "unchanged m m'"
proof -
  from run obtain a m1 m2 m3 t mc m4 where a: "pop_call_args F m = (Ok a, m1)"
    and "call_expand (f_host F) a m1 = (Ok (), m2)" "memory_expansion_cost m2 = (Ok mc, m3)"
      "call_access F a m3 = (Ok t, m4)"
    and d: "call_dispatch exec F a mc t m4 = (Ok c, m')"
    unfolding evm_call_def seqM_def by (auto simp: bindM_Ok_iff)
  then have "unchanged m m4"
    using preservesD [OF unchanged_call_steps(1)] preservesD [OF unchanged_call_expand]
      preservesD [OF unchanged_steps(8)] preservesD [OF unchanged_call_steps(2)]
    by (metis unchanged.R_trans settled_simps(1))
  moreover have "unchanged m4 m'" by (rule call_dispatch_zero [OF pop_call_args_gas [OF a] d zero])
  ultimately show ?thesis by (rule unchanged.R_trans)
qed

end

text \<open>C4. A failed call is atomic: when \<open>CALL\<close>, \<open>CALLCODE\<close>, \<open>DELEGATECALL\<close> or \<open>STATICCALL\<close>
  completes and leaves zero on the stack, then persistent and transient storage are as they were
  before the call, whatever the frames it started wrote.\<close>

theorem failed_call_keeps_storage:
  assumes "overflow_checks H" "evm_call (execute_with_context n H hdr) F m = (Ok c, m')"
    and "last (m_stack m') = 0"
  shows "storage_view (m_ext m') = storage_view (m_ext m) \<and> transient_view (m_ext m') = transient_view (m_ext m)"
proof -
  have "checked H = H" by (rule checked_id) (rule assms(1))
  then have "unchanged m m'" using journals.evm_call_zero [of n H hdr F m c m'] assms(2,3) by simp
  then show ?thesis by (simp add: unchanged_def persist_def)
qed

theorem failed_call_keeps_storage_witness:
  "\<exists>c m'. evm_call (execute_with_context 9 demo_host demo_header) (demo_frame [0xf1] 0)
     (demo_machine [0, 0, 0, 0, 0, 0x99, 500]\<lparr>m_ext := demo_world\<rparr>) = (Ok c, m') \<and>
     transient_view (m_ext m') = transient_view demo_world"
proof -
  obtain c m' where run: "evm_call (execute_with_context 9 demo_host demo_header) (demo_frame [0xf1] 0)
      (demo_machine [0, 0, 0, 0, 0, 0x99, 500]\<lparr>m_ext := demo_world\<rparr>) = (Ok c, m')" and "last (m_stack m') = 0"
    using demo_failed_call by blast
  from failed_call_keeps_storage [OF demo_ready(1) this] run show ?thesis by simp
qed

section \<open>Reverted frames\<close>

text \<open>C6. A frame that ends can be rolled back: undoing the journal of the frame, with the entries of all
  frames nested in it, restores persistent and transient storage to what they were when it began.\<close>

theorem rolled_back_frame_restores_storage:
  assumes "overflow_checks H" "frame_inv m" "g_used (m_gas m) \<le> g_limit (m_gas m)" "e_touches (m_evm m) = []"
    and "execute_with_context n H hdr code call ctx m = (Ok ret, m')"
    and "evm_revert (m_evm m') (m_ext m') = (Ok (), x)"
  shows "storage_view x = storage_view (m_ext m) \<and> transient_view x = transient_view (m_ext m)"
proof -
  have "journaled m m'" using execute_with_context_journaled [OF assms(1-3,5)] by simp
  then have "persist x = persist (m_ext m)"
    using evm_revert_persist [OF assms(6)] assms(4) by (auto simp: journaled_def)
  then show ?thesis by (simp add: persist_def)
qed

theorem rolled_back_frame_restores_storage_witness:
  "\<exists>m' x. execute_with_context 9 demo_host demo_header (decode_bytecode store_and_halt) demo_call
     (context_default\<lparr>k_depth := 1\<rparr>) (demo_machine []\<lparr>m_ext := demo_world\<rparr>) = (Ok [], m') \<and>
     evm_revert (m_evm m') (m_ext m') = (Ok (), x) \<and> transient_view x = transient_view demo_world"
proof -
  let ?m = "demo_machine []\<lparr>m_ext := demo_world\<rparr>"
  have "k_depth (context_default\<lparr>k_depth := 1\<rparr>) \<le> 1024" "4 \<le> (9 :: nat)" by simp_all
  from store_and_halt_frame [OF demo_world_frame(1-6) this, of demo_host demo_header]
  obtain m' where run: "execute_with_context 9 demo_host demo_header (decode_bytecode store_and_halt) demo_call
      (context_default\<lparr>k_depth := 1\<rparr>) ?m = (Ok [], m')"
    and ts: "e_touches (m_evm m') = [T_SetTransientState 0x42 0 0 9]"
    by (auto simp: demo_call_def transient_view_def demo_world_def demo_ext_def demo_machine_def evm_default_def)
  obtain x where rev: "evm_revert (m_evm m') (m_ext m') = (Ok (), x)" by (simp add: evm_revert_def ts monad_defs)
  have "frame_inv ?m" using demo_ready(2) by (simp add: frame_inv_def)
  from rolled_back_frame_restores_storage [OF demo_ready(1) this _ demo_world_frame(7) run rev] run rev
  show ?thesis by (simp add: demo_machine_def gas_new_def)
qed

section \<open>Transactions\<close>

lemma fresh_ready: "m_evm m = evm_default \<Longrightarrow> ready m 0 m"
  by (simp add: ready_def journal.R_refl frame_inv_def evm_default_def gas_new_def mem_words_cost_def div_ceil_def)


lemma demo_transaction_ready:
  "overflow_checks demo_host" "m_evm demo_fresh = evm_default" "unat (c_gas demo_call) < 2 ^ 63"
  "0 \<le> tx_frame_gas demo_call (x_tx_ctx (m_ext demo_fresh))"
  "tx_frame_gas demo_call (x_tx_ctx (m_ext demo_fresh)) + 2 \<le> int 80000"
  by (simp_all add: demo_host_def demo_fresh_def demo_call_def tx_frame_gas_def calldata_cost_def
      access_list_cost_def demo_world_def)

text \<open>Transactions end: with fuel for the gas that the intrinsic costs leave, \<open>Executor::execute\<close>
  on a fresh \<open>Evm\<close> returns.\<close>

theorem transaction_terminates:
  assumes "overflow_checks H" "m_evm m = evm_default" "unat (c_gas call) < 2 ^ 63"
    and "0 \<le> tx_frame_gas call (x_tx_ctx (m_ext m))" "tx_frame_gas call (x_tx_ctx (m_ext m)) + 2 \<le> int fuel"
  shows "fst (execute fuel H hdr code call m) \<noteq> OutOfFuel"
  using execute_triple [OF assms] fresh_ready [OF assms(2)] unfolding triple_def by (metis prod.collapse)

theorem transaction_terminates_witness:
  "fst (execute 80000 demo_host demo_header (decode_bytecode [0x5b, 0x5f, 0x56]) demo_call demo_fresh) \<noteq> OutOfFuel"
  by (rule transaction_terminates [OF demo_transaction_ready])

text \<open>C5. Transactions are atomic on storage: one that ends reverted leaves persistent and transient
  storage as they were.\<close>

theorem reverted_transaction_restores_storage:
  assumes "overflow_checks H" "m_evm m = evm_default" "unat (c_gas call) < 2 ^ 63"
    and "0 \<le> tx_frame_gas call (x_tx_ctx (m_ext m))" "tx_frame_gas call (x_tx_ctx (m_ext m)) + 2 \<le> int fuel"
    and "execute fuel H hdr code call m = (Ok ret, m')" "e_reverted (m_evm m')"
  shows "storage_view (m_ext m') = storage_view (m_ext m) \<and> transient_view (m_ext m') = transient_view (m_ext m)"
proof -
  have "persist (m_ext m') = persist (m_ext m)"
    using execute_triple [OF assms(1-5)] fresh_ready [OF assms(2)] assms(6,7)
    unfolding triple_def done_ok_def by blast
  then show ?thesis by (simp add: persist_def)
qed

theorem reverted_transaction_restores_storage_witness:
  "\<exists>m'. execute 80000 demo_host demo_quiet_header (decode_bytecode store_and_halt) demo_call demo_fresh = (Ok [], m') \<and>
     transient_view (m_ext m') = transient_view demo_world"
proof -
  obtain m' where run: "execute 80000 demo_host demo_quiet_header (decode_bytecode store_and_halt) demo_call demo_fresh
      = (Ok [], m')" and "e_reverted (m_evm m')" using demo_transaction by blast
  from reverted_transaction_restores_storage [OF demo_transaction_ready this] run show ?thesis
    by (simp add: demo_fresh_def)
qed



end
