(* ===== verification/RunnerDemo.thy ===== *)
theory RunnerDemo
  imports SolenoidLaws AtomicProps
begin

text \<open>
  Creations run to their end on concrete input, from which witnesses of the properties of
  \<open>Runner::apply\<close> are taken: one that deploys a byte of code and one that is reverted.
\<close>

abbreviation fresh :: "ext \<Rightarrow> machine" where
  "fresh x \<equiv> \<lparr>m_evm = evm_default, m_ext = x, m_ret = [], m_trace = []\<rparr>"

text \<open>Init code that returns one zero byte.\<close>

definition deploy_byte :: bytes where
  "deploy_byte = [0x60, 1, 0x5f, 0xf3]"

lemma deploy_byte_code: "decode_bytecode deploy_byte =
  \<lparr>bc_bytecode = deploy_byte,
   bc_instructions =
     [\<lparr>i_opcode = \<lparr>op_code = 0x60, op_name = ''PUSH_'', op_n = 1\<rparr>, i_offset = 0, i_argument = Some [1]\<rparr>,
      \<lparr>i_opcode = \<lparr>op_code = 0x5f, op_name = ''PUSH0'', op_n = 0\<rparr>, i_offset = 2, i_argument = None\<rparr>,
      \<lparr>i_opcode = \<lparr>op_code = 0xf3, op_name = ''RETURN'', op_n = 0\<rparr>, i_offset = 3, i_argument = None\<rparr>],
   bc_jumptable = []\<rparr>"
  by code_simp

definition creation_demo :: "bytes \<Rightarrow> runner" where
  "creation_demo code = \<lparr>r_header = demo_quiet_header,
     r_call = \<lparr>c_data = [], c_value = 0, c_from = 0x11, c_to = 0, c_gas = 100000\<rparr>, r_code = code\<rparr>"



text \<open>The address of the contract it creates, with the hash of the demonstration.\<close>

lemma demo_created: "addr_create (keccak256 demo_host) 0x11 0 = 4480"
proof -
  let ?rlp = "[0xd6, 0x94, 0, 0, 0, 0, 0, 0, 0, 0, 0, 0, 0, 0, 0, 0, 0, 0, 0, 0, 0, 0x11, 0x80] :: bytes"
  let ?low = "[0, 0, 0, 0, 0, 0, 0, 0, 0, 0, 0, 0, 0, 0, 0, 0, 0, 0, 0x11, 0x80] :: bytes"
  have buffer: "create_buffer 0x11 0 = ?rlp" by code_simp
  have "keccak256 demo_host ?rlp = replicate 9 0 @ ?rlp"
    using to_be_be_nat [of "replicate 9 0 @ ?rlp"] by (simp add: demo_host_def be_nat_zeros_append del: to_be.simps)
  moreover have "sub_list 12 32 (replicate 9 0 @ ?rlp) = ?low" by code_simp
  moreover have "addr_of_bytes ?low = 4480" by (simp add: addr_of_bytes_def be_nat_def)
  ultimately show ?thesis by (simp add: addr_create_def buffer)
qed

definition demo_start :: machine where
  "demo_start = \<lparr>m_evm = evm_default\<lparr>e_gas := gas_new 47000, e_touches := [T_WarmUp 4480]\<rparr>,
     m_ext = demo_world\<lparr>x_state := (x_state demo_world)(4480 \<mapsto> account_default), x_created_accounts := [4480],
       x_accessed_addresses := insert 4480 (x_accessed_addresses demo_world)\<rparr>, m_ret = [], m_trace = []\<rparr>"

lemma creation_demo_start:
  assumes "\<not> is_delegation c"
  shows "runner_body fuel demo_host (creation_demo c) (fresh demo_world) =
    runner_create fuel demo_host (creation_demo c) (decode_bytecode c) 4480 53000 demo_start"
proof -
  let ?R = "creation_demo c" and ?m1 = "(fresh demo_world)\<lparr>m_evm := evm_default\<lparr>e_gas := gas_new 47000\<rparr>\<rparr>"
  let ?call = "\<lparr>c_data = [], c_value = 0, c_from = 0x11, c_to = 0, c_gas = 100000\<rparr>"
  have R: "r_call ?R = ?call" "h_miner (r_header ?R) = 0" "r_code ?R = c"
    by (simp_all add: creation_demo_def demo_quiet_header_def)
  have H: "overflow_checks demo_host" by (simp add: demo_host_def)
  have code: "runner_code demo_host ?R m = (Ok c, m)" for m
    using assms by (simp add: runner_code_def R addr_is_zero_iff seqM_def bindM_def returnM_def Let_def)
  have gas: "runner_gas demo_host ?call (fresh demo_world) = (Ok 53000, ?m1)"
    by (simp add: runner_gas_def upfront_gas_def calldata_cost_def addr_is_zero_iff div_ceil_def access_list_cost_def
        demo_world_def demo_tx_context_def on_ext_def apply_access_list_def upd_evm_def as_i64_def as_u64_def
        i64_arith_def H monad_defs Let_def)
  have created: "runner_created demo_host ?call ?m1 = (Ok 4480, demo_start)"
    using demo_created
    by (simp add: runner_created_def register_created_def warm_touch_def warm_address_def touch_def upd_evm_def
        entry_or_default_def ext_pull_def account_get_def on_ext_def monad_defs Let_def demo_start_def
        demo_world_def demo_ext_def account_default_def evm_default_def)
  show ?thesis
    using code gas created
    by (simp add: runner_body_def R addr_is_zero_iff runner_endow_def is_zero_def seqM_def bindM_def returnM_def)
qed

lemma return_entry: "map_of (op_table exec) 0xf3 = Some op_RETURN"
  by (simp add: op_table_def)

text \<open>\<open>RETURN\<close> of the first byte of an empty memory.\<close>

lemma return_zero_byte:
  assumes "m_stack m = [1, 0]" "m_memory m = []" "e_mem_cost (m_evm m) = 0" "f_host F = demo_host" "f_op F = 0xf3"
  obtains m' where "op_RETURN F m = (Ok (StepOk 3), m')" "m_ret m' = [0]" "m_ext m' = m_ext m"
    "e_stopped (m_evm m')" "\<not> e_reverted (m_evm m')" "m_gas m' = m_gas m"
proof -
  let ?e = "(m_evm m)\<lparr>e_stopped := True, e_reverted := False, e_stack := []\<rparr>"
  let ?m1 = "m\<lparr>m_evm := ?e\<rparr>"
  let ?m2 = "?m1\<lparr>m_evm := ?e\<lparr>e_memory := replicate 32 0\<rparr>, m_ret := [0]\<rparr>"
  have idx: "as_usize 1 = (Ok 1 :: (nat, exec_error) res)" "as_usize 0 = (Ok 0 :: (nat, exec_error) res)"
    by (simp_all add: as_usize_def)
  have pops: "op_RETURN F m = (seqM (return_data demo_host 0 1) (bindM memory_expansion_cost (\<lambda>gas.
      bindM (getsM m_ret) (\<lambda>ret. bindM (returnM None) (\<lambda>error. bindM (getsM (\<lambda>m. g_used (m_gas m))) (\<lambda>used.
      seqM (trace_push (ED_Return True ret error used) (f_depth F) False) (next_pc gas))))))) ?m1"
    using assms by (simp add: op_RETURN_def return_body_def pop_usize_def evm_pop_eq upd_evm_def idx
        seqM_def bindM_def liftM_def modifyM_def)
  have "return_data demo_host 0 1 ?m1 = (Ok (), ?m2)"
    using assms(2) by (simp add: return_data_def usize_add_def demo_host_def expand_memory_def resize_memory_def
        padded_def resize0_def read_memory_def set_ret_def upd_evm_def monad_defs slice_ok_def sub_list_def)
  moreover have "\<exists>m3. memory_expansion_cost ?m2 = (Ok 3, m3) \<and> m_ret m3 = [0] \<and> m_ext m3 = m_ext m \<and>
      e_stopped (m_evm m3) \<and> \<not> e_reverted (m_evm m3) \<and> m_gas m3 = m_gas m"
    using assms(3) by (simp add: memory_expansion_cost_def mem_words_cost_def div_ceil_def)
  ultimately show thesis
    using pops that by (auto simp: seqM_def bindM_def getsM_def returnM_def trace_push_def modifyM_def next_pc_eq advance_def)
qed

lemma deploy_byte_runs:
  assumes "m_stack m = []" "m_memory m = []" "e_mem_cost (m_evm m) = 0" "e_pc (m_evm m) = 0"
    and "\<not> e_stopped (m_evm m)" "\<not> e_reverted (m_evm m)" "8 \<le> m_remaining m"
  shows "\<exists>m'. run_loop (Suc (Suc (Suc (Suc n)))) demo_host hdr (decode_bytecode deploy_byte) call ctx m = (Ok [0], m') \<and>
    \<not> e_reverted (m_evm m') \<and> m_gas m' = (m_gas m)\<lparr>g_used := g_used (m_gas m) + 8\<rparr> \<and>
    m_ext m' = m_ext m"
proof -
  let ?x = "\<lambda>n. enter_frame (run_loop n demo_host hdr)" and ?c = "decode_bytecode deploy_byte"
  let ?F = "\<lambda>i. \<lparr>f_host = demo_host, f_header = hdr, f_code = ?c, f_call = call, f_ctx = ctx, f_instr = bc_instructions ?c ! i\<rparr>"
  let ?paid = "\<lambda>k m. (m_evm m)\<lparr>e_gas := (m_gas m)\<lparr>g_used := g_used (m_gas m) + k\<rparr>, e_refund := g_refund (m_gas m)\<rparr>"
  note step = execute_instruction_def table_entries return_entry op_PUSH0_def op_PUSH_def eval_step
    upd_evm_def Let_def deploy_byte_code is_call_def
    gas_remaining_def from_bytes_def be_nat_def put_pc_def put_stack_def
  let ?m1 = "put_pc 1 (put_stack [1] m)"
  have "execute_instruction (?x (n + 3)) (?F 0) m = (Ok (StepOk 3), ?m1)"
    using assms by (simp add: step)
  then obtain m1 where t1: "execute_turn (?x (n + 3)) (?F 0) m = (Ok Continue, m1)"
    and m1: "m_evm m1 = ?paid 3 ?m1" "m_ext m1 = m_ext ?m1"
    by (rule plain_turn) (use assms in \<open>simp_all add: step\<close>)
  let ?m2 = "put_pc 2 (put_stack [1, 0] m1)"
  have "execute_instruction (?x (n + 2)) (?F 1) m1 = (Ok (StepOk 2), ?m2)"
    using assms m1 by (simp add: step)
  then obtain m2 where t2: "execute_turn (?x (n + 2)) (?F 1) m1 = (Ok Continue, m2)"
    and m2: "m_evm m2 = ?paid 2 ?m2" "m_ext m2 = m_ext ?m2"
    by (rule plain_turn) (use assms m1 in \<open>simp_all add: step\<close>)
  have top: "m_stack m2 = [1, 0]" "m_memory m2 = []" "e_mem_cost (m_evm m2) = 0"
    using assms m1 m2 by (simp_all add: step)
  obtain m3 where r: "op_RETURN (?F 2) m2 = (Ok (StepOk 3), m3)"
    and m3: "m_ret m3 = [0]" "m_ext m3 = m_ext m2" "e_stopped (m_evm m3)" "\<not> e_reverted (m_evm m3)" "m_gas m3 = m_gas m2"
    by (rule return_zero_byte [OF top, of "?F 2"]) (simp_all add: deploy_byte_code)
  then have "execute_instruction (?x (n + 1)) (?F 2) m2 = (Ok (StepOk 3), m3)"
    by (simp add: execute_instruction_def return_entry deploy_byte_code)
  then obtain m4 where t3: "execute_turn (?x (n + 1)) (?F 2) m2 = (Ok Continue, m4)"
    and m4: "m_evm m4 = ?paid 3 m3" "m_ext m4 = m_ext m3" "m_ret m4 = m_ret m3"
    by (rule plain_turn) (use assms m1 m2 m3 in \<open>simp_all add: step\<close>)
  have fin: "run_loop (Suc n) demo_host hdr ?c call ctx m4 = (Ok [0], m4)"
    using m3 m4 by (simp add: end_frame_def monad_defs)
  have "run_loop (Suc (Suc (Suc (Suc n)))) demo_host hdr ?c call ctx m = (Ok [0], m4)"
    using t1 t2 t3 m1 m2 fin assms
    by (simp add: run_loop_continue put_pc_def put_stack_def deploy_byte_code eval_nat_numeral del: run_loop.simps)
  then show ?thesis using assms m1 m2 m3 m4 by (auto simp: put_pc_def put_stack_def)
qed

lemma demo_start_simps:
  "m_stack demo_start = []" "m_memory demo_start = []" "e_mem_cost (m_evm demo_start) = 0"
  "e_pc (m_evm demo_start) = 0" "\<not> e_stopped (m_evm demo_start)" "\<not> e_reverted (m_evm demo_start)"
  "m_gas demo_start = gas_new 47000" "0x11 \<in> x_accessed_addresses (m_ext demo_start)"
  "e_touches (m_evm demo_start) = [T_WarmUp 4480]"
  by (simp_all add: demo_start_def evm_default_def demo_world_def)

lemma demo_deployment:
  "\<exists>res x. runner_apply 50000 demo_host (creation_demo deploy_byte) demo_world = (Ok res, x) \<and>
     cr_ret res = [0] \<and> \<not> e_reverted (cr_evm res) \<and> g_refund (e_gas (cr_evm res)) = 0"
proof -
  let ?R = "creation_demo deploy_byte" and ?code = "decode_bytecode deploy_byte"
  let ?call = "\<lparr>c_data = [], c_value = 0, c_from = 0x11, c_to = 0, c_gas = 100000\<rparr>"
  let ?ctx = "context_default\<lparr>k_created := 4480, k_call_type := CT_Create, k_depth := 1\<rparr>"
  have R: "r_call ?R = ?call" "r_header ?R = demo_quiet_header" "h_miner demo_quiet_header = 0"
    by (simp_all add: creation_demo_def demo_quiet_header_def)
  obtain m1 where a: "announce_call ?call ?ctx demo_start = (Ok (), m1)" "m_evm m1 = m_evm demo_start"
      "m_ext m1 = m_ext demo_start"
    using demo_start_simps(8) by (auto simp: announce_call_def warm_touch_def warm_address_def trace_push_def on_ext_def
        monad_defs insert_absorb split: prod.splits)
  obtain m2 where "run_loop (Suc (Suc (Suc (Suc 49996)))) demo_host demo_quiet_header ?code ?call ?ctx m1 = (Ok [0], m2)"
    and m2: "\<not> e_reverted (m_evm m2)" "m_gas m2 = \<lparr>g_limit = 47000, g_used = 8, g_refund = 0\<rparr>"
      "m_ext m2 = m_ext demo_start"
    using deploy_byte_runs [of m1 49996 demo_quiet_header ?call ?ctx] demo_start_simps a(2,3)
    by (auto simp: gas_new_def gas_remaining_def)
  then have frame: "execute_with_context 50000 demo_host demo_quiet_header ?code ?call ?ctx demo_start = (Ok [0], m2)"
    using a by (simp add: execute_with_context_def enter_frame_def seqM_def bindM_def context_default_def
        del: run_loop.simps)
  have "is_delegation deploy_byte = False" by (simp add: is_delegation_def deploy_byte_def)
  then have body: "runner_body 50000 demo_host ?R (fresh demo_world) =
      runner_create 50000 demo_host ?R ?code 4480 53000 demo_start"
    by (simp add: creation_demo_start)
  have deposit: "code_deposit ?call 53000 [0] m2 = (Ok ([0], 53208), m2)"
    using m2 by (simp add: code_deposit_def monad_defs gas_remaining_def gas_finalized_def trunc_div_def)
  have coinbase: "runner_coinbase demo_host demo_quiet_header 53208 m2 = (Ok (), m2)"
    by (simp add: runner_coinbase_def R addr_is_zero_iff monad_defs)
  have x: "x_state (m_ext m2) 0x11 = Some account_default" "x_state (m_ext m2) 4480 = Some account_default"
    "t_gas_price (x_tx_ctx (m_ext m2)) = 0"
    using m2(3) by (simp_all add: demo_start_def demo_world_def)
  have "\<exists>m3. install_code demo_host 0x11 4480 [0] m2 = (Ok (), m3) \<and> m_gas m3 = m_gas m2 \<and>
      \<not> e_reverted (m_evm m3) \<and> t_gas_price (x_tx_ctx (m_ext m3)) = 0 \<and> x_state (m_ext m3) 0x11 \<noteq> None"
    using x m2(1)
    by (simp add: install_code_def ext_pull_def on_ext_def nonce_recorded_def nonce_plus_one_def account_get_def
        set_nonce_def set_code_def account_upd_def touch_def upd_evm_def as_u64_def u64_succ_def word_add_def
        overflowing_add_def monad_defs account_default_def Let_def demo_host_def del: to_be.simps)
  then obtain m3 acc where install: "install_code demo_host 0x11 4480 [0] m2 = (Ok (), m3)" "m_gas m3 = m_gas m2"
      "\<not> e_reverted (m_evm m3)" "t_gas_price (x_tx_ctx (m_ext m3)) = 0" "x_state (m_ext m3) 0x11 = Some acc" by blast
  have fee: "word_of_i64 53208 = (Ok 53208 :: (u256, exec_error) res)" "word_mul (53208 :: u256) 0 = (Ok 0 :: (u256, exec_error) res)"
    by (simp_all add: word_of_i64_def word_mul_def overflowing_mul_def)
  have "\<exists>m4. charge_sender demo_host 0x11 53208 m3 = (Ok (), m4) \<and> m_gas m4 = m_gas m2 \<and>
      \<not> e_reverted (m_evm m4) \<and> t_gas_price (x_tx_ctx (m_ext m4)) = 0"
    using install by (simp add: charge_sender_def fee ext_balance_def on_ext_def set_value_def account_upd_def touch_def
        upd_evm_def monad_defs Let_def)
  then obtain m4 where charge: "charge_sender demo_host 0x11 53208 m3 = (Ok (), m4)" "m_gas m4 = m_gas m2"
      "\<not> e_reverted (m_evm m4)" "t_gas_price (x_tx_ctx (m_ext m4)) = 0" by blast
  obtain rep where report: "gas_report ?call 53208 m4 = (Ok rep, m4)"
    using charge(4) by (simp add: gas_report_def fee as_i64_def as_u64_def monad_defs)
  have "runner_create 50000 demo_host ?R ?code 4480 53000 demo_start = (Ok ([0], rep), m4)"
    using frame deposit coinbase m2(1) install(1) charge(1) report
    by (simp add: runner_create_def R Let_def seqM_def bindM_def getsM_def returnM_def)
  then show ?thesis using body charge m2(2) by (simp add: runner_apply_def)
qed

lemma demo_reverted_creation:
  "\<exists>res x. runner_apply 50000 demo_host (creation_demo store_and_halt) demo_world = (Ok res, x) \<and>
     e_reverted (cr_evm res)"
proof -
  let ?R = "creation_demo store_and_halt" and ?code = "decode_bytecode store_and_halt"
  let ?call = "\<lparr>c_data = [], c_value = 0, c_from = 0x11, c_to = 0, c_gas = 100000\<rparr>"
  let ?ctx = "context_default\<lparr>k_created := 4480, k_call_type := CT_Create, k_depth := 1\<rparr>"
  have R: "r_call ?R = ?call" "r_header ?R = demo_quiet_header" "h_miner demo_quiet_header = 0"
    by (simp_all add: creation_demo_def demo_quiet_header_def)
  have H: "overflow_checks demo_host" by (simp add: demo_host_def)
  have view: "transient_view (m_ext demo_start) (4480, 0) = 0"
    by (simp add: demo_start_def transient_view_def demo_world_def demo_ext_def)
  obtain m2 where frame: "execute_with_context 50000 demo_host demo_quiet_header ?code ?call ?ctx demo_start = (Ok [], m2)"
    and m2: "e_reverted (m_evm m2)" "g_refund (m_gas m2) = 0"
      "e_touches (m_evm m2) = [T_WarmUp 4480, T_SetTransientState 4480 0 0 9]"
      "m_ext m2 = (m_ext demo_start)\<lparr>x_transient := (x_transient (m_ext demo_start))((4480, 0) \<mapsto> 9)\<rparr>"
    using store_and_halt_anywhere [of demo_start 4480 ?call ?ctx 50000 demo_host demo_quiet_header] demo_start_simps view
    by (auto simp: context_default_def gas_new_def gas_remaining_def)
  have "frame_inv demo_start" "g_used (m_gas demo_start) \<le> g_limit (m_gas demo_start)"
    by (simp_all add: frame_inv_def demo_start_def evm_default_def gas_new_def mem_words_cost_def div_ceil_def)
  from execute_with_context_ok [OF H this frame] have used: "0 \<le> g_used (m_gas m2)"
    by (simp add: frame_ok_def demo_start_simps gas_new_def)
  let ?g = "gas_finalized (m_gas m2) 53000 True"
  have g: "0 \<le> ?g" using used m2(2) gas_finalized_range(1) [of "m_gas m2" 53000 True] by linarith
  have "is_delegation store_and_halt = False" by (simp add: is_delegation_def store_and_halt_def)
  then have body: "runner_body 50000 demo_host ?R (fresh demo_world) =
      runner_create 50000 demo_host ?R ?code 4480 53000 demo_start"
    by (simp add: creation_demo_start)
  have deposit: "code_deposit ?call 53000 [] m2 = (Ok ([], ?g), m2)"
    using m2 by (simp add: code_deposit_def monad_defs)
  have coinbase: "runner_coinbase demo_host demo_quiet_header ?g m2 = (Ok (), m2)"
    by (simp add: runner_coinbase_def R addr_is_zero_iff monad_defs)
  obtain m3 where revert: "on_ext (evm_revert (m_evm m2)) m2 = (Ok (), m3)" "m_evm m3 = m_evm m2"
      "x_state (m_ext m3) 0x11 = Some account_default" "t_gas_price (x_tx_ctx (m_ext m3)) = 0"
    using m2(3,4) by (simp add: evm_revert_def on_ext_def monad_defs demo_start_def demo_world_def)
  have "\<exists>m4. nonce_recorded demo_host 0x11 m3 = (Ok (), m4) \<and>
      e_reverted (m_evm m4) \<and> t_gas_price (x_tx_ctx (m_ext m4)) = 0 \<and> x_state (m_ext m4) 0x11 \<noteq> None"
    using revert m2(1)
    by (simp add: on_ext_def nonce_recorded_def nonce_plus_one_def account_get_def set_nonce_def account_upd_def
        touch_def upd_evm_def as_u64_def u64_succ_def word_add_def overflowing_add_def monad_defs account_default_def
        Let_def del: to_be.simps)
  then obtain m4 acc where nonce: "nonce_recorded demo_host 0x11 m3 = (Ok (), m4)" "e_reverted (m_evm m4)"
      "t_gas_price (x_tx_ctx (m_ext m4)) = 0" "x_state (m_ext m4) 0x11 = Some acc" by blast
  obtain w :: u256 where fee: "word_of_i64 ?g = (Ok w :: (u256, exec_error) res)" using g by (simp add: word_of_i64_def)
  have zero: "word_mul w 0 = (Ok 0 :: (u256, exec_error) res)" by (simp add: word_mul_def overflowing_mul_def)
  have "\<exists>m5. charge_sender demo_host 0x11 ?g m4 = (Ok (), m5) \<and> e_reverted (m_evm m5) \<and>
      t_gas_price (x_tx_ctx (m_ext m5)) = 0"
    using nonce by (simp add: charge_sender_def fee zero ext_balance_def on_ext_def set_value_def account_upd_def touch_def
        upd_evm_def monad_defs Let_def)
  then obtain m5 where charge: "charge_sender demo_host 0x11 ?g m4 = (Ok (), m5)" "e_reverted (m_evm m5)"
      "t_gas_price (x_tx_ctx (m_ext m5)) = 0" by blast
  obtain rep where report: "gas_report ?call ?g m5 = (Ok rep, m5)"
    using charge(3) by (simp add: gas_report_def fee zero as_i64_def as_u64_def monad_defs)
  have "runner_create 50000 demo_host ?R ?code 4480 53000 demo_start = (Ok ([], rep), m5)"
    using frame deposit coinbase m2(1) revert(1) nonce(1) charge(1) report
    by (simp add: runner_create_def R Let_def seqM_def bindM_def getsM_def returnM_def)
  then show ?thesis using body charge by (simp add: runner_apply_def)
qed

end
