(* ===== verification/SolenoidProps.thy ===== *)
theory SolenoidProps
  imports RunnerDemo
begin

text \<open>Properties of whole runs of \<open>Runner::apply\<close>.\<close>

section \<open>Runs end, and within their gas\<close>

lemma demo_creation_ready:
  "overflow_checks demo_host" "unat (c_gas (r_call (creation_demo c))) < 2 ^ 63"
  "0 \<le> runner_frame_gas (r_call (creation_demo c)) (x_tx_ctx demo_world)"
  "runner_frame_gas (r_call (creation_demo c)) (x_tx_ctx demo_world) + 2 \<le> int 50000"
  by (simp_all add: demo_host_def creation_demo_def runner_frame_gas_def upfront_total_def upfront_gas_def
      addr_is_zero_iff calldata_cost_def div_ceil_def access_list_cost_def demo_world_def)

lemma runner_run:
  assumes "overflow_checks H" "unat (c_gas (r_call R)) < 2 ^ 63"
    and "0 \<le> runner_frame_gas (r_call R) (x_tx_ctx x)" "runner_frame_gas (r_call R) (x_tx_ctx x) + 2 \<le> int fuel"
  shows "fst (runner_body fuel H R (fresh x)) \<noteq> OutOfFuel"
    and "runner_body fuel H R (fresh x) = (Ok res, m) \<Longrightarrow>
      (if addr_is_zero (c_to (r_call R)) then creation_done (fresh x) (r_call R) res m
       else call_done (fresh x) (r_call R) res m)"
proof -
  have t: "triple (ready (fresh x) 0) (runner_body fuel H R)
      (if addr_is_zero (c_to (r_call R)) then creation_done (fresh x) (r_call R) else call_done (fresh x) (r_call R))"
    by (rule runner_body_triple) (use assms in \<open>simp_all add: evm_default_def\<close>)
  have r: "ready (fresh x) 0 (fresh x)" by (rule fresh_ready) simp
  show "fst (runner_body fuel H R (fresh x)) \<noteq> OutOfFuel"
    using t r unfolding triple_def by (metis prod.collapse)
  assume "runner_body fuel H R (fresh x) = (Ok res, m)"
  then have "(if addr_is_zero (c_to (r_call R)) then creation_done (fresh x) (r_call R)
      else call_done (fresh x) (r_call R)) res m"
    using t r unfolding triple_def by blast
  then show "if addr_is_zero (c_to (r_call R)) then creation_done (fresh x) (r_call R) res m
       else call_done (fresh x) (r_call R) res m"
    by (simp split: if_splits)
qed

lemma runner_apply_Ok:
  assumes "runner_apply fuel H R x = (Ok res, x')"
  obtains m where "runner_body fuel H R (fresh x) = (Ok (cr_ret res, cr_gas res), m)"
    "m_ext m = x'" "m_evm m = cr_evm res"
  using assms by (auto simp: runner_apply_def split: prod.splits res.splits)

lemma runner_done:
  assumes "overflow_checks H" "unat (c_gas (r_call R)) < 2 ^ 63"
    and "0 \<le> runner_frame_gas (r_call R) (x_tx_ctx x)" "runner_frame_gas (r_call R) (x_tx_ctx x) + 2 \<le> int fuel"
    and "runner_apply fuel H R x = (Ok res, x')"
  shows "\<exists>m. m_ext m = x' \<and> m_evm m = cr_evm res \<and> done_ok (fresh x) (runner_frame_gas (r_call R) (x_tx_ctx x)) m \<and>
    (if addr_is_zero (c_to (r_call R)) then creation_done (fresh x) (r_call R) (cr_ret res, cr_gas res) m
     else call_done (fresh x) (r_call R) (cr_ret res, cr_gas res) m)"
proof -
  obtain m where m: "runner_body fuel H R (fresh x) = (Ok (cr_ret res, cr_gas res), m)" "m_ext m = x'" "m_evm m = cr_evm res"
    using assms(5) by (rule runner_apply_Ok)
  from runner_run(2) [OF assms(1-4) m(1)] m(2,3) show ?thesis
    by (intro exI [of _ m]) (auto simp: creation_done_def call_done_def closing_def Let_def split: if_splits)
qed

text \<open>C15. Runs end: with fuel for the gas that is left after the upfront costs, \<open>Runner::apply\<close> returns,
  whether it calls an account or creates a contract.\<close>

theorem runner_terminates:
  assumes "overflow_checks H" "unat (c_gas (r_call R)) < 2 ^ 63"
    and "0 \<le> runner_frame_gas (r_call R) (x_tx_ctx x)" "runner_frame_gas (r_call R) (x_tx_ctx x) + 2 \<le> int fuel"
  shows "fst (runner_apply fuel H R x) \<noteq> OutOfFuel"
  using runner_run(1) [OF assms] by (auto simp: runner_apply_def split: prod.splits res.splits)

theorem runner_terminates_witness:
  "fst (runner_apply 50000 demo_host (creation_demo [0x5b, 0x5f, 0x56]) demo_world) \<noteq> OutOfFuel"
  by (rule runner_terminates [OF demo_creation_ready])

text \<open>C8. A run that ends reverted, call or creation, leaves persistent and transient storage as they
  were.\<close>

theorem reverted_run_restores_storage:
  assumes "overflow_checks H" "unat (c_gas (r_call R)) < 2 ^ 63"
    and "0 \<le> runner_frame_gas (r_call R) (x_tx_ctx x)" "runner_frame_gas (r_call R) (x_tx_ctx x) + 2 \<le> int fuel"
    and "runner_apply fuel H R x = (Ok res, x')" "e_reverted (cr_evm res)"
  shows "storage_view x' = storage_view x \<and> transient_view x' = transient_view x"
  using runner_done [OF assms(1-5)] assms(6) by (auto simp: done_ok_def persist_def)

theorem reverted_run_restores_storage_witness:
  "\<exists>res x. runner_apply 50000 demo_host (creation_demo store_and_halt) demo_world = (Ok res, x) \<and>
     transient_view x = transient_view demo_world"
proof -
  obtain res x where run: "runner_apply 50000 demo_host (creation_demo store_and_halt) demo_world = (Ok res, x)"
    and "e_reverted (cr_evm res)" using demo_reverted_creation by blast
  from reverted_run_restores_storage [OF demo_creation_ready this] run show ?thesis by blast
qed



section \<open>What a creation installs\<close>

text \<open>The nonces of all accounts, those not loaded yet included, stay as they are.\<close>

definition nonces_kept :: "machine \<Rightarrow> machine \<Rightarrow> bool" where
  "nonces_kept m m' \<longleftrightarrow> nonce_view (m_ext m') = nonce_view (m_ext m)"

interpretation nonces_kept: step_relation nonces_kept
  by unfold_locales (simp_all add: nonces_kept_def)

lemma nonces_kept_upd: "preserves nonces_kept (upd_evm f)"
  by (auto simp: preserves_def nonces_kept_def upd_evm_def modifyM_def)

lemma nonces_kept_modify:
  assumes "\<And>x. x_state (f x) = x_state x" "\<And>x. x_remote (f x) = x_remote x"
  shows "preserves nonces_kept (on_ext (modifyM f))"
  using assms
  by (auto simp: preserves_def nonces_kept_def on_ext_def modifyM_def nonce_view_def account_view_def fun_eq_iff
      split: option.splits)

lemma nonces_kept_reads:
  "preserves nonces_kept (on_ext (ext_pull H a))" "preserves nonces_kept (on_ext (ext_code H a))"
  "preserves nonces_kept (on_ext (account_get a))"
proof -
  show "preserves nonces_kept (on_ext (ext_pull H a))"
    by (auto simp: preserves_def nonces_kept_def on_ext_def dest: ext_pull_views(3) split: prod.splits)
  then show "preserves nonces_kept (on_ext (ext_code H a))"
    using lazy_account_read [OF ext_code_def [THEN fun_cong]]
    by (fastforce simp: preserves_def nonces_kept_def on_ext_def dest: ext_pull_views(3) split: prod.splits)
  show "preserves nonces_kept (on_ext (account_get a))"
    by (auto simp: preserves_def nonces_kept_def on_ext_def account_get_def split: prod.splits option.splits)
qed

lemma on_ext_Ok: "on_ext c m = (Ok a, m') \<longleftrightarrow> (\<exists>x. c (m_ext m) = (Ok a, x) \<and> m' = m\<lparr>m_ext := x\<rparr>)"
  by (auto simp: on_ext_def split: prod.splits)

lemma nonces_kept_warm:
  "preserves nonces_kept (on_ext (warm_address a))" "preserves nonces_kept (on_ext apply_access_list)"
  by (auto simp: preserves_def nonces_kept_def on_ext_def warm_address_def apply_access_list_def monad_defs
      warm_items_eq nonce_view_def account_view_def fun_eq_iff split: option.splits)

lemmas nonces_kept_intros = nonces_kept.preserves_bind nonces_kept.preserves_seq nonces_kept.preserves_pure
  nonces_kept.preserves_branch nonces_kept_upd nonces_kept_reads nonces_kept_warm

lemma runner_steps_nonces:
  "preserves nonces_kept (runner_code H R)" "preserves nonces_kept (runner_gas H call)"
  "preserves nonces_kept (if b then returnM () else bindM (on_ext (warm_address a)) (\<lambda>_. returnM ()))"
  unfolding runner_code_def runner_gas_def touch_def Let_def split_def
  by (intro nonces_kept_intros)+

lemma runner_created_address:
  assumes "runner_created H call m = (Ok created, m')"
  shows "\<exists>nonce. nonce_view (m_ext m) (c_from call) = Some nonce \<and>
    created = addr_create (keccak256 H) (c_from call) nonce"
proof -
  from assms obtain acc x1 m1 acc1 where p: "ext_pull H (c_from call) (m_ext m) = (Ok acc, x1)"
    and g: "account_get (c_from call) x1 = (Ok acc1, m1)"
    and c: "created = addr_create (keccak256 H) (c_from call) (a_nonce acc1)"
    by (auto simp: runner_created_def seqM_def bindM_Ok_iff on_ext_Ok returnM_def Let_def)
  have "acc1 = acc" using g ext_pull_Ok_present [OF p] by (auto simp: account_get_def)
  then have "nonce_view x1 (c_from call) = Some (a_nonce acc1)"
    using ext_pull_Ok_present [OF p] by (simp add: nonce_view_def account_view_def)
  then show ?thesis using ext_pull_views(3) [OF p] c by auto
qed

definition installed :: "addr160 \<Rightarrow> bytes \<times> u256 \<Rightarrow> machine \<Rightarrow> bool" where
  "installed a code m \<longleftrightarrow> (\<exists>acc. x_state (m_ext m) a = Some acc \<and> a_code acc = code \<and> a_nonce acc = 1)"

lemma install_code_installs:
  assumes "install_code H sender created ret m = (Ok (), m')"
  shows "installed created (ret, from_bytes (keccak256 H ret)) m'"
  using assms
  by (auto simp: install_code_def Let_def seqM_def bindM_Ok_iff on_ext_def set_code_def set_nonce_def touch_def
      upd_evm_def modifyM_def account_upd_def installed_def split: prod.splits option.splits)

lemma charge_keeps_installed:
  assumes "charge_sender H sender g m = (Ok (), m')" "installed a code m"
  shows "installed a code m'"
proof -
  from assms(1) obtain b x1 v where b: "ext_balance H sender (m_ext m) = (Ok b, x1)"
    and v: "set_value sender v x1 = (Ok (), m_ext m')"
    by (auto simp: charge_sender_def Let_def seqM_def bindM_Ok_iff on_ext_Ok touch_def upd_evm_def modifyM_def
        liftM_def getsM_def)
  have "x_state x1 a = Some acc" if "x_state (m_ext m) a = Some acc" for acc
    using b that by (auto simp: ext_balance_def bindM_Ok_iff returnM_def elim!: ext_pull_cases split: option.splits)
  then show ?thesis
    using assms(2) v by (auto simp: installed_def set_value_def account_upd_def split: option.splits if_splits
        dest!: sym [of _ "m_ext m'"])
qed

lemma gas_report_still: "gas_report call g m = (Ok rep, m') \<Longrightarrow> m' = m"
  by (auto simp: gas_report_def bindM_Ok_iff liftM_def getsM_def returnM_def)

lemma runner_create_installs:
  assumes "runner_create fuel H R code created upfront m = (Ok (ret, rep), m')" "\<not> e_reverted (m_evm m')"
  shows "installed created (ret, from_bytes (keccak256 H ret)) m'"
proof -
  from assms(1) obtain g m1 m2 m3 where
      settle: "(if e_reverted (m_evm m1) then seqM (on_ext (evm_revert (m_evm m1))) (nonce_recorded H (c_from (r_call R)))
        else install_code H (c_from (r_call R)) created ret) m1 = (Ok (), m2)"
    and charge: "charge_sender H (c_from (r_call R)) g m2 = (Ok (), m3)" and m3: "m' = m3"
    by (auto simp: runner_create_def Let_def split_def seqM_def bindM_Ok_iff getsM_def returnM_def
        cong: if_cong dest!: gas_report_still)
  have "mild m2 m3" using preservesD [OF settle_steps_mild(4) charge] by simp
  then have "e_reverted (m_evm m2) = e_reverted (m_evm m')" using m3 by (simp add: mild_def)
  moreover have "e_reverted (m_evm m2)" if "e_reverted (m_evm m1)"
  proof -
    from settle that obtain x where "nonce_recorded H (c_from (r_call R)) (m1\<lparr>m_ext := x\<rparr>) = (Ok (), m2)"
      by (auto simp: seqM_def bindM_Ok_iff on_ext_def split: prod.splits)
    then have "mild (m1\<lparr>m_ext := x\<rparr>) m2" using preservesD [OF settle_steps_mild(2)] by fastforce
    then show ?thesis using that by (simp add: mild_def)
  qed
  ultimately have "\<not> e_reverted (m_evm m1)" using assms(2) by blast
  then show ?thesis
    using settle install_code_installs charge_keeps_installed [OF charge] m3 by auto
qed

lemma runner_apply_installs:
  assumes "addr_is_zero (c_to (r_call R))" "runner_apply fuel H R x = (Ok res, x')" "\<not> e_reverted (cr_evm res)"
  shows "\<exists>nonce acc. nonce_view x (c_from (r_call R)) = Some nonce \<and>
    x_state x' (addr_create (keccak256 H) (c_from (r_call R)) nonce) = Some acc \<and>
    a_code acc = (cr_ret res, from_bytes (keccak256 H (cr_ret res))) \<and> a_nonce acc = 1"
proof -
  obtain m where run: "runner_body fuel H R (fresh x) = (Ok (cr_ret res, cr_gas res), m)"
    and m: "m_ext m = x'" "m_evm m = cr_evm res"
    using assms(2) by (rule runner_apply_Ok)
  from run obtain m1 code m2 upfront m3 created m4 m5 where
      s1: "(if addr_is_zero (h_miner (r_header R)) then returnM ()
           else bindM (on_ext (warm_address (h_miner (r_header R)))) (\<lambda>_. returnM ())) (fresh x) = (Ok (), m1)"
    and s2: "runner_code H R m1 = (Ok code, m2)" and s3: "runner_gas H (r_call R) m2 = (Ok upfront, m3)"
    and s4: "runner_created H (r_call R) m3 = (Ok created, m4)"
    and s5: "runner_create fuel H R (decode_bytecode code) created upfront m5 = (Ok (cr_ret res, cr_gas res), m)"
    using assms(1) unfolding runner_body_def seqM_def by (auto simp: bindM_Ok_iff)
  have "nonces_kept (fresh x) m1" "nonces_kept m1 m2" "nonces_kept m2 m3"
    using preservesD [OF runner_steps_nonces(3) s1] preservesD [OF runner_steps_nonces(1) s2]
      preservesD [OF runner_steps_nonces(2) s3] by simp_all
  then have "nonce_view (m_ext m3) = nonce_view x" by (simp add: nonces_kept_def)
  with runner_created_address [OF s4] runner_create_installs [OF s5] assms(3) m show ?thesis
    by (auto simp: installed_def)
qed

text \<open>C14. A creation that is not reverted leaves the code the init code returned, with nonce 1, at the
  address derived from the sender and the nonce it had before the run.\<close>

theorem creation_installs_code:
  assumes "addr_is_zero (c_to (r_call R))" "runner_apply fuel H R x = (Ok res, x')" "\<not> e_reverted (cr_evm res)"
  shows "\<exists>nonce acc. nonce_view x (c_from (r_call R)) = Some nonce \<and>
    x_state x' (addr_create (keccak256 H) (c_from (r_call R)) nonce) = Some acc \<and>
    a_code acc = (cr_ret res, from_bytes (keccak256 H (cr_ret res))) \<and> a_nonce acc = 1"
  by (rule runner_apply_installs [OF assms])

theorem creation_installs_code_witness:
  "\<exists>res x acc. runner_apply 50000 demo_host (creation_demo deploy_byte) demo_world = (Ok res, x) \<and>
     x_state x 4480 = Some acc \<and> fst (a_code acc) = [0] \<and> a_nonce acc = 1"
proof -
  obtain res x where run: "runner_apply 50000 demo_host (creation_demo deploy_byte) demo_world = (Ok res, x)"
    and e: "cr_ret res = [0]" "\<not> e_reverted (cr_evm res)" using demo_deployment by blast
  have to_zero: "addr_is_zero (c_to (r_call (creation_demo deploy_byte)))" by (simp add: creation_demo_def addr_is_zero_iff)
  have "nonce_view demo_world 0x11 = Some 0" by (simp add: nonce_view_def account_view_def demo_world_def account_default_def)
  with creation_installs_code [OF to_zero run e(2)] run e(1) demo_created show ?thesis by (auto simp: creation_demo_def)
qed

end
