(* ===== verification/ProxyCache.thy ===== *)
theory ProxyCache
  imports Prelude
begin

text \<open>
  \<open>rpc-proxy/src/cache.rs\<close>: the cache of the proxy. Balances, nonces and storage slots live
  in key-value stores under fixed-width keys made from the hexadecimal parameters of a request;
  code, blocks, transactions and receipts are compressed files, and a block number is a symbolic
  link to the file of the block's hash.

  The crates \<open>hex\<close>, \<open>yakvdb\<close> and \<open>flate2\<close> are parameters (\<open>cache_env\<close>); what they
  document is stated by \<open>hex_ok\<close>, \<open>kv_ok\<close> and \<open>gz_ok\<close>. A directory is a map from
  file names to files; text is ASCII and file names contain no separator.
\<close>

section \<open>What the cache relies on\<close>

datatype io_error = IoError | KvError | GzError

text \<open>
  \<open>hex_decode_to_slice\<close> returns whether it succeeded with the slice it leaves behind;
  \<open>kv_open\<close> is \<open>open_or_create_kv\<close> on a path; \<open>writable\<close> tells for which file of which
  directory the operating system lets the proxy create it.
\<close>

record 'kv cache_env =
  hex_encode :: "bytes \<Rightarrow> string"
  hex_decode :: "string \<Rightarrow> bytes option"
  hex_decode_to_slice :: "string \<Rightarrow> bytes \<Rightarrow> bool \<times> bytes"
  kv_open :: "string \<Rightarrow> 'kv option"
  kv_lookup :: "'kv \<Rightarrow> bytes \<Rightarrow> bytes option option"
  kv_insert :: "'kv \<Rightarrow> bytes \<Rightarrow> bytes \<Rightarrow> 'kv option"
  gz :: "string \<Rightarrow> bytes"
  gunzip :: "bytes \<Rightarrow> string option"
  writable :: "string \<Rightarrow> string \<Rightarrow> bool"

definition kv_ok :: "('kv, 'a) cache_env_scheme \<Rightarrow> bool" where
  "kv_ok E \<longleftrightarrow> (\<forall>db k v db' j. kv_insert E db k v = Some db' \<longrightarrow>
     kv_lookup E db' j = (if j = k then Some (Some v) else kv_lookup E db j))"

definition gz_ok :: "('kv, 'a) cache_env_scheme \<Rightarrow> bool" where
  "gz_ok E \<longleftrightarrow> (\<forall>s. gunzip E (gz E s) = Some s)"

section \<open>Hexadecimal text\<close>

text \<open>\<open>trim_start_matches("0x")\<close>: the prefix is removed as often as it occurs.\<close>

fun strip_0x :: "string \<Rightarrow> string" where
  "strip_0x (a # b # cs) = (if a = CHR ''0'' \<and> b = CHR ''x'' then strip_0x cs else a # b # cs)"
| "strip_0x cs = cs"

definition char_lower :: "char \<Rightarrow> char" where
  "char_lower c = (let n = of_char c :: nat in if 65 \<le> n \<and> n \<le> 90 then char_of (n + 32) else c)"

definition normalize_hex :: "string \<Rightarrow> string" where
  "normalize_hex s = map char_lower (strip_0x s)"

text \<open>\<open>format!("{:0>width$}")\<close>.\<close>

definition pad_left :: "nat \<Rightarrow> string \<Rightarrow> string" where
  "pad_left width s = replicate (width - length s) CHR ''0'' @ s"

definition decode_hex_padded :: "('kv, 'a) cache_env_scheme \<Rightarrow> nat \<Rightarrow> string \<Rightarrow> bytes" where
  "decode_hex_padded E N hex_str =
     (let padded = pad_left (N * 2) (strip_0x hex_str)
      in snd (hex_decode_to_slice E (take (N * 2) padded) (replicate N 0)))"

abbreviation pad32 where "pad32 E \<equiv> decode_hex_padded E 32"
abbreviation pad20 where "pad20 E \<equiv> decode_hex_padded E 20"
abbreviation pad8 where "pad8 E \<equiv> decode_hex_padded E 8"

definition storage_key :: "('kv, 'a) cache_env_scheme \<Rightarrow> string \<Rightarrow> string \<Rightarrow> bytes" where
  "storage_key E slot block = pad32 E slot @ pad8 E block"

definition address_block_key :: "('kv, 'a) cache_env_scheme \<Rightarrow> string \<Rightarrow> string \<Rightarrow> bytes" where
  "address_block_key E address block = pad20 E address @ pad8 E block"

definition decode_hex_compact :: "('kv, 'a) cache_env_scheme \<Rightarrow> string \<Rightarrow> bytes" where
  "decode_hex_compact E s =
     (let clean = strip_0x s in
      if clean = [] then [0]
      else let even_text = (if odd (length clean) then CHR ''0'' # clean else clean)
           in case hex_decode E even_text of Some bs \<Rightarrow> bs | None \<Rightarrow> [0])"

definition encode_quantity :: "('kv, 'a) cache_env_scheme \<Rightarrow> bytes \<Rightarrow> string" where
  "encode_quantity E bs =
     (let trimmed = dropWhile (\<lambda>c. c = CHR ''0'') (hex_encode E bs)
      in if trimmed = [] then ''0x0'' else ''0x'' @ trimmed)"

definition encode_data32 :: "('kv, 'a) cache_env_scheme \<Rightarrow> bytes \<Rightarrow> string" where
  "encode_data32 E bs = ''0x'' @ pad_left 64 (hex_encode E bs)"

section \<open>Files\<close>

datatype cached_file = Content bytes | Link string

type_synonym dir = "string \<Rightarrow> cached_file option"

text \<open>Reading follows symbolic links, at most 40 of them; a missing file is \<open>Ok(None)\<close>.\<close>

fun read_file :: "nat \<Rightarrow> dir \<Rightarrow> string \<Rightarrow> (bytes option, io_error) res" where
  "read_file 0 d n = Err IoError"
| "read_file (Suc k) d n = (case d n of
     None \<Rightarrow> Ok None
   | Some (Content bs) \<Rightarrow> Ok (Some bs)
   | Some (Link target) \<Rightarrow> read_file k d target)"

definition read_gz_string :: "('kv, 'a) cache_env_scheme \<Rightarrow> dir \<Rightarrow> string \<Rightarrow> (string option, io_error) res" where
  "read_gz_string E d n =
     res_bind (read_file 41 d n) (\<lambda>data. case data of
       None \<Rightarrow> Ok None
     | Some bs \<Rightarrow> (case gunzip E bs of Some s \<Rightarrow> Ok (Some s) | None \<Rightarrow> Err GzError))"

text \<open>\<open>path.with_extension("tmp")\<close>; then the temporary file is written and renamed.\<close>

definition with_tmp :: "string \<Rightarrow> string" where
  "with_tmp n = rev (dropWhile (\<lambda>c. c \<noteq> CHR ''.'') (rev n)) @ ''tmp''"

definition write_gz_string ::
    "('kv, 'a) cache_env_scheme \<Rightarrow> string \<Rightarrow> string \<Rightarrow> string \<Rightarrow> (dir, io_error, unit) monad" where
  "write_gz_string E parent n content = (\<lambda>d.
     if \<not> writable E parent (with_tmp n) then (Err IoError, d)
     else if \<not> writable E parent n then (Err IoError, d(with_tmp n \<mapsto> Content (gz E content)))
     else (Ok (), (d(with_tmp n := None))(n \<mapsto> Content (gz E content))))"

section \<open>The cache\<close>

record 'kv cache =
  c_balance :: 'kv
  c_nonce :: 'kv
  c_storage :: "string \<Rightarrow> 'kv option"
  c_code :: dir
  c_blocks :: dir
  c_txs :: dir

text \<open>
  Opening the cache: \<open>made\<close> tells which of the five \<open>create_dir_all\<close> succeed, the directories
  are what the disk holds already; no store of an account is open yet.
\<close>

definition cache_open ::
    "('kv, 'a) cache_env_scheme \<Rightarrow> bool list \<Rightarrow> dir \<Rightarrow> dir \<Rightarrow> dir \<Rightarrow> ('kv cache, io_error) res" where
  "cache_open E made code blocks txs =
     (if list_all id made then
        res_bind (case kv_open E ''balance.yak'' of Some db \<Rightarrow> Ok db | None \<Rightarrow> Err KvError) (\<lambda>balance.
        res_bind (case kv_open E ''nonce.yak'' of Some db \<Rightarrow> Ok db | None \<Rightarrow> Err KvError) (\<lambda>nonce.
          Ok \<lparr>c_balance = balance, c_nonce = nonce, c_storage = Map.empty, c_code = code, c_blocks = blocks, c_txs = txs\<rparr>))
      else Err IoError)"

type_synonym ('kv, 'a) cache_m = "('kv cache, io_error, 'a) monad"

definition on_dir ::
    "('kv cache \<Rightarrow> dir) \<Rightarrow> (dir \<Rightarrow> 'kv cache \<Rightarrow> 'kv cache) \<Rightarrow> (dir, io_error, 'a) monad \<Rightarrow> ('kv, 'a) cache_m" where
  "on_dir get put m = (\<lambda>c. case m (get c) of (r, d) \<Rightarrow> (r, put d c))"

abbreviation in_code :: "(dir, io_error, 'a) monad \<Rightarrow> ('kv, 'a) cache_m" where
  "in_code \<equiv> on_dir c_code (\<lambda>d c. c\<lparr>c_code := d\<rparr>)"
abbreviation in_blocks :: "(dir, io_error, 'a) monad \<Rightarrow> ('kv, 'a) cache_m" where
  "in_blocks \<equiv> on_dir c_blocks (\<lambda>d c. c\<lparr>c_blocks := d\<rparr>)"
abbreviation in_txs :: "(dir, io_error, 'a) monad \<Rightarrow> ('kv, 'a) cache_m" where
  "in_txs \<equiv> on_dir c_txs (\<lambda>d c. c\<lparr>c_txs := d\<rparr>)"

definition lookup_kv :: "('kv, 'a) cache_env_scheme \<Rightarrow> 'kv \<Rightarrow> bytes \<Rightarrow> (bytes option, io_error) res" where
  "lookup_kv E db key = (case kv_lookup E db key of Some v \<Rightarrow> Ok v | None \<Rightarrow> Err KvError)"

definition insert_kv :: "('kv, 'a) cache_env_scheme \<Rightarrow> 'kv \<Rightarrow> bytes \<Rightarrow> bytes \<Rightarrow> ('kv, io_error) res" where
  "insert_kv E db key val = (case kv_insert E db key val of Some db' \<Rightarrow> Ok db' | None \<Rightarrow> Err KvError)"

text \<open>
  The store of one account, opened on first use and kept in the map; the \<open>Arc\<close> it returns
  is the entry of the map.
\<close>

definition storage_db :: "('kv, 'a) cache_env_scheme \<Rightarrow> string \<Rightarrow> ('kv, 'kv) cache_m" where
  "storage_db E address = (\<lambda>c.
     let addr = normalize_hex address in
     case c_storage c addr of
       Some db \<Rightarrow> (Ok db, c)
     | None \<Rightarrow> (case kv_open E (addr @ ''.yak'') of
         Some db \<Rightarrow> (Ok db, c\<lparr>c_storage := (c_storage c)(addr \<mapsto> db)\<rparr>)
       | None \<Rightarrow> (Err KvError, c)))"

definition get_storage_at ::
    "('kv, 'a) cache_env_scheme \<Rightarrow> string \<Rightarrow> string \<Rightarrow> string \<Rightarrow> ('kv, string option) cache_m" where
  "get_storage_at E address slot block =
     bindM (storage_db E address) (\<lambda>db.
     bindM (liftM (lookup_kv E db (storage_key E slot block))) (\<lambda>v.
       returnM (map_option (encode_data32 E) v)))"

definition put_storage_at ::
    "('kv, 'a) cache_env_scheme \<Rightarrow> string \<Rightarrow> string \<Rightarrow> string \<Rightarrow> string \<Rightarrow> ('kv, unit) cache_m" where
  "put_storage_at E address slot block val =
     bindM (storage_db E address) (\<lambda>db.
     bindM (liftM (insert_kv E db (storage_key E slot block) (pad32 E val))) (\<lambda>db'.
       modifyM (\<lambda>c. c\<lparr>c_storage := (c_storage c)(normalize_hex address \<mapsto> db')\<rparr>)))"

definition get_balance :: "('kv, 'a) cache_env_scheme \<Rightarrow> string \<Rightarrow> string \<Rightarrow> ('kv, string option) cache_m" where
  "get_balance E address block =
     bindM (getsM c_balance) (\<lambda>db.
     bindM (liftM (lookup_kv E db (address_block_key E address block))) (\<lambda>v.
       returnM (map_option (encode_quantity E) v)))"

definition put_balance :: "('kv, 'a) cache_env_scheme \<Rightarrow> string \<Rightarrow> string \<Rightarrow> string \<Rightarrow> ('kv, unit) cache_m" where
  "put_balance E address block val =
     bindM (getsM c_balance) (\<lambda>db.
     bindM (liftM (insert_kv E db (address_block_key E address block) (decode_hex_compact E val))) (\<lambda>db'.
       modifyM (\<lambda>c. c\<lparr>c_balance := db'\<rparr>)))"

definition get_tx_count :: "('kv, 'a) cache_env_scheme \<Rightarrow> string \<Rightarrow> string \<Rightarrow> ('kv, string option) cache_m" where
  "get_tx_count E address block =
     bindM (getsM c_nonce) (\<lambda>db.
     bindM (liftM (lookup_kv E db (address_block_key E address block))) (\<lambda>v.
       returnM (map_option (encode_quantity E) v)))"

definition put_tx_count :: "('kv, 'a) cache_env_scheme \<Rightarrow> string \<Rightarrow> string \<Rightarrow> string \<Rightarrow> ('kv, unit) cache_m" where
  "put_tx_count E address block val =
     bindM (getsM c_nonce) (\<lambda>db.
     bindM (liftM (insert_kv E db (address_block_key E address block) (decode_hex_compact E val))) (\<lambda>db'.
       modifyM (\<lambda>c. c\<lparr>c_nonce := db'\<rparr>)))"

definition get_code :: "('kv, 'a) cache_env_scheme \<Rightarrow> string \<Rightarrow> ('kv, string option) cache_m" where
  "get_code E address =
     in_code (\<lambda>d. (read_gz_string E d (normalize_hex address @ ''.bin.tgz''), d))"

definition put_code :: "('kv, 'a) cache_env_scheme \<Rightarrow> string \<Rightarrow> string \<Rightarrow> ('kv, unit) cache_m" where
  "put_code E address hex_code =
     in_code (write_gz_string E ''code'' (normalize_hex address @ ''.bin.tgz'') hex_code)"

definition get_block_by_hash :: "('kv, 'a) cache_env_scheme \<Rightarrow> string \<Rightarrow> ('kv, string option) cache_m" where
  "get_block_by_hash E hash =
     in_blocks (\<lambda>d. (read_gz_string E d (normalize_hex hash @ ''.json.tgz''), d))"

text \<open>
  \<open>remove_file\<close> may fail (there is no such link yet); a \<open>symlink\<close> that fails leaves no
  link behind.
\<close>

definition link_block :: "('kv, 'a) cache_env_scheme \<Rightarrow> string \<Rightarrow> string \<Rightarrow> (dir, io_error, unit) monad" where
  "link_block E num target = (\<lambda>d.
     if num \<noteq> [] \<and> writable E ''blocks'' num then (Ok (), d(num \<mapsto> Link target))
     else (Err IoError, d(num := None)))"

definition put_block :: "('kv, 'a) cache_env_scheme \<Rightarrow> string \<Rightarrow> string \<Rightarrow> string \<Rightarrow> ('kv, unit) cache_m" where
  "put_block E hash number json =
     in_blocks
       (seqM (write_gz_string E ''blocks'' (normalize_hex hash @ ''.json.tgz'') json)
         (link_block E (normalize_hex number) (normalize_hex hash @ ''.json.tgz'')))"

definition get_block_by_number :: "('kv, 'a) cache_env_scheme \<Rightarrow> string \<Rightarrow> ('kv, string option) cache_m" where
  "get_block_by_number E number = in_blocks (\<lambda>d. (read_gz_string E d (normalize_hex number), d))"

definition get_tx :: "('kv, 'a) cache_env_scheme \<Rightarrow> string \<Rightarrow> ('kv, string option) cache_m" where
  "get_tx E hash = in_txs (\<lambda>d. (read_gz_string E d (normalize_hex hash @ ''.json.tgz''), d))"

definition put_tx :: "('kv, 'a) cache_env_scheme \<Rightarrow> string \<Rightarrow> string \<Rightarrow> ('kv, unit) cache_m" where
  "put_tx E hash json = in_txs (write_gz_string E ''txs'' (normalize_hex hash @ ''.json.tgz'') json)"

definition get_receipt :: "('kv, 'a) cache_env_scheme \<Rightarrow> string \<Rightarrow> ('kv, string option) cache_m" where
  "get_receipt E hash = in_txs (\<lambda>d. (read_gz_string E d (normalize_hex hash @ ''.receipt.json.tgz''), d))"

definition put_receipt :: "('kv, 'a) cache_env_scheme \<Rightarrow> string \<Rightarrow> string \<Rightarrow> ('kv, unit) cache_m" where
  "put_receipt E hash json =
     in_txs (write_gz_string E ''txs'' (normalize_hex hash @ ''.receipt.json.tgz'') json)"

end
