(* ===== verification/Proxy.thy ===== *)
theory Proxy
  imports ProxyCache
begin

text \<open>
  \<open>rpc-proxy/src/main.rs\<close> and \<open>retry.rs\<close>: the JSON-RPC proxy that answers from its cache and
  forwards to an upstream node what it does not have. Requests are handled one at a time. The
  upstream node, \<open>reqwest\<close>, \<open>http\<close> and \<open>serde_json\<close> are parameters (\<open>proxy_env\<close>); the state
  records the calls made upstream and the pauses between them.
\<close>

section \<open>JSON\<close>

text \<open>A number is kept as its text; an object holds each key once.\<close>

datatype json =
    JNull
  | JBool bool
  | JNumber string
  | JString string
  | JArray "json list"
  | JObject "(string \<times> json) list"

fun json_get :: "string \<Rightarrow> json \<Rightarrow> json option" where
  "json_get k (JObject kvs) = map_of kvs k"
| "json_get k _ = None"

fun as_str :: "json \<Rightarrow> string option" where
  "as_str (JString s) = Some s"
| "as_str _ = None"

fun as_array :: "json \<Rightarrow> json list option" where
  "as_array (JArray vs) = Some vs"
| "as_array _ = None"

fun is_object :: "json \<Rightarrow> bool" where
  "is_object (JObject _) = True"
| "is_object _ = False"

section \<open>Retries\<close>

record retry_config =
  max_attempts :: nat
  initial_delay_ms :: nat
  max_delay_ms :: nat

text \<open>Arithmetic of \<open>u64\<close>: an overflow panics in a build with checks and wraps otherwise.\<close>

definition u64_fit :: "bool \<Rightarrow> nat \<Rightarrow> (nat, 'e) res" where
  "u64_fit checks n = (if n < usize_bound then Ok n else if checks then Panic else Ok (n mod usize_bound))"

definition next_delay :: "bool \<Rightarrow> retry_config \<Rightarrow> nat \<Rightarrow> nat \<Rightarrow> (nat, 'e) res" where
  "next_delay checks config attempt delay =
     (if delay \<ge> max_delay_ms config then Ok (min delay (max_delay_ms config))
      else res_bind (u64_fit checks (2 ^ attempt)) (\<lambda>p. u64_fit checks (initial_delay_ms config * p)))"

text \<open>The loop, by the number of attempts that are left; without any it reaches \<open>unreachable!\<close>.\<close>

fun retry_loop ::
    "bool \<Rightarrow> retry_config \<Rightarrow> ('e \<Rightarrow> bool) \<Rightarrow> (nat \<Rightarrow> ('s, 'e, unit) monad) \<Rightarrow> ('s, 'e, 'a) monad \<Rightarrow>
     nat \<Rightarrow> nat \<Rightarrow> ('s, 'e, 'a) monad" where
  "retry_loop checks config retryable sleep attempt_once 0 delay = panicM"
| "retry_loop checks config retryable sleep attempt_once (Suc left) delay =
     (let attempt = max_attempts config - Suc left in
      catchM attempt_once returnM (\<lambda>e.
        if \<not> retryable e then throwM e
        else if attempt + 1 \<ge> max_attempts config then throwM e
        else
          bindM (liftM (next_delay checks config attempt delay)) (\<lambda>delay.
          seqM (sleep delay)
            (retry_loop checks config retryable sleep attempt_once left delay))))"

definition retry ::
    "bool \<Rightarrow> ('s, 'e, 'a) monad \<Rightarrow> ('e \<Rightarrow> bool) \<Rightarrow> (nat \<Rightarrow> ('s, 'e, unit) monad) \<Rightarrow> retry_config \<Rightarrow> ('s, 'e, 'a) monad" where
  "retry checks attempt_once retryable sleep config =
     retry_loop checks config retryable sleep attempt_once (max_attempts config) (initial_delay_ms config)"

section \<open>Forwarding\<close>

record reqwest_error =
  re_connect :: bool
  re_timeout :: bool
  re_request :: bool
  re_text :: string

datatype forward_error = FE_Reqwest reqwest_error | FE_Http nat string

fun is_retryable :: "forward_error \<Rightarrow> bool" where
  "is_retryable (FE_Reqwest e) = (re_connect e \<or> re_timeout e \<or> re_request e)"
| "is_retryable (FE_Http status body) = ((500 \<le> status \<and> status < 600) \<or> status = 429)"

text \<open>
  What comes back from upstream: no response, or a status with the text of the body (empty when
  it cannot be read) and the body parsed as JSON.
\<close>

datatype reply = NoReply reqwest_error | Reply nat string "reqwest_error + json"

record 'kv proxy_env = "'kv cache_env" +
  checked_arith :: bool
  upstream :: "(string \<times> json) list \<Rightarrow> string \<Rightarrow> json \<Rightarrow> reply"
  status_text :: "nat \<Rightarrow> string"
  json_text :: "json \<Rightarrow> string option"
  parse_json :: "string \<Rightarrow> json option"

record 'kv proxy =
  px_url :: string
  px_offline :: bool
  px_empty :: bool
  px_cache :: "'kv cache"
  px_calls :: "(string \<times> json) list"
  px_sleeps :: "nat list"

type_synonym ('kv, 'a) proxy_m = "('kv proxy, forward_error, 'a) monad"

fun error_text :: "'kv proxy_env \<Rightarrow> forward_error \<Rightarrow> string" where
  "error_text E (FE_Reqwest e) = ''Request failed: '' @ re_text e"
| "error_text E (FE_Http status body) = ''upstream error: '' @ status_text E status @ '' - '' @ body"

definition send_once :: "'kv proxy_env \<Rightarrow> string \<Rightarrow> json \<Rightarrow> ('kv, json) proxy_m" where
  "send_once E url body = (\<lambda>s.
     (case upstream E (px_calls s) url body of
        NoReply e \<Rightarrow> Err (FE_Reqwest e)
      | Reply status text parsed \<Rightarrow>
          if \<not> (200 \<le> status \<and> status < 300) then Err (FE_Http status text)
          else case parsed of Inr v \<Rightarrow> Ok v | Inl e \<Rightarrow> Err (FE_Reqwest e),
      s\<lparr>px_calls := px_calls s @ [(url, body)]\<rparr>))"

definition pause :: "nat \<Rightarrow> ('kv, unit) proxy_m" where
  "pause ms = modifyM (\<lambda>s. s\<lparr>px_sleeps := px_sleeps s @ [ms]\<rparr>)"

definition forward_config :: retry_config where
  "forward_config = \<lparr>max_attempts = 30, initial_delay_ms = 1000, max_delay_ms = 20000\<rparr>"

definition forward :: "'kv proxy_env \<Rightarrow> json \<Rightarrow> ('kv, json) proxy_m" where
  "forward E body =
     bindM (getsM px_url) (\<lambda>url.
       retry (checked_arith E) (send_once E url body) is_retryable pause forward_config)"

section \<open>Responses\<close>

datatype response_body = JsonBody json | TextBody string

record response =
  rs_status :: nat
  rs_body :: response_body

definition json_response :: "nat \<Rightarrow> json \<Rightarrow> response" where
  "json_response status v = \<lparr>rs_status = status, rs_body = JsonBody v\<rparr>"

definition rpc_error :: "string \<Rightarrow> string \<Rightarrow> json" where
  "rpc_error code message = JObject [(''code'', JNumber code), (''message'', JString message)]"

definition jsonrpc_ok :: "json \<Rightarrow> json \<Rightarrow> response" where
  "jsonrpc_ok rid result = json_response 200
     (JObject [(''jsonrpc'', JString ''2.0''), (''id'', rid), (''result'', result)])"

definition jsonrpc_err :: "json \<Rightarrow> string \<Rightarrow> string \<Rightarrow> response" where
  "jsonrpc_err rid code message = json_response 200
     (JObject [(''jsonrpc'', JString ''2.0''), (''id'', rid), (''error'', rpc_error code message)])"

definition error_response :: "'kv proxy_env \<Rightarrow> forward_error \<Rightarrow> response" where
  "error_response E err = json_response 502
     (JObject [(''jsonrpc'', JString ''2.0''), (''error'', rpc_error ''-32000'' (error_text E err)), (''id'', JNull)])"

definition forward_and_respond :: "'kv proxy_env \<Rightarrow> json \<Rightarrow> ('kv, response) proxy_m" where
  "forward_and_respond E body =
     catchM (forward E body) (\<lambda>resp. returnM (json_response 200 resp)) (\<lambda>err. returnM (error_response E err))"

definition cache_miss_and_forward ::
    "'kv proxy_env \<Rightarrow> json \<Rightarrow> json \<Rightarrow> (json \<Rightarrow> ('kv, unit) proxy_m) \<Rightarrow> ('kv, response) proxy_m" where
  "cache_miss_and_forward E body rid on_result =
     bindM (getsM px_offline) (\<lambda>offline.
       if offline then returnM (jsonrpc_err rid ''-32001'' ''Server running in offline mode'')
       else
         catchM (forward E body)
           (\<lambda>resp. seqM (case json_get ''error'' resp of
                Some _ \<Rightarrow> returnM ()
              | None \<Rightarrow> (case json_get ''result'' resp of
                  Some result \<Rightarrow> on_result result
                | None \<Rightarrow> returnM ()))
              (returnM (json_response 200 resp)))
           (\<lambda>err. returnM (error_response E err)))"

section \<open>Requests\<close>

text \<open>A cache operation whose error is logged or ignored.\<close>

definition on_cache :: "('kv, 'a) cache_m \<Rightarrow> ('kv, 'a option) proxy_m" where
  "on_cache m = (\<lambda>s. case m (px_cache s) of (r, c) \<Rightarrow>
     (Ok (case r of Ok a \<Rightarrow> Some a | _ \<Rightarrow> None), s\<lparr>px_cache := c\<rparr>))"

definition remember :: "('kv, unit) cache_m \<Rightarrow> ('kv, unit) proxy_m" where
  "remember m = bindM (on_cache m) (\<lambda>_. returnM ())"

text \<open>An entry that is text is the result itself; one that is JSON has to parse.\<close>

definition cached_text ::
    "('kv, string option) cache_m \<Rightarrow> json \<Rightarrow> ('kv, response) proxy_m \<Rightarrow> ('kv, response) proxy_m" where
  "cached_text look rid miss =
     bindM (on_cache look) (\<lambda>hit. case hit of
       Some (Some val) \<Rightarrow> returnM (jsonrpc_ok rid (JString val))
     | _ \<Rightarrow> miss)"

definition cached_json ::
    "'kv proxy_env \<Rightarrow> ('kv, string option) cache_m \<Rightarrow> json \<Rightarrow> ('kv, response) proxy_m \<Rightarrow> ('kv, response) proxy_m" where
  "cached_json E look rid miss =
     bindM (on_cache look) (\<lambda>hit. case hit of
       Some (Some text) \<Rightarrow> (case parse_json E text of
           Some val \<Rightarrow> returnM (jsonrpc_ok rid val)
         | None \<Rightarrow> miss)
     | _ \<Rightarrow> miss)"

definition text_of :: "'kv proxy_env \<Rightarrow> json \<Rightarrow> string" where
  "text_of E v = (case json_text E v of Some s \<Rightarrow> s | None \<Rightarrow> [])"

definition remember_block :: "'kv proxy_env \<Rightarrow> json \<Rightarrow> ('kv, unit) proxy_m" where
  "remember_block E result =
     (case (Option.bind (json_get ''hash'' result) as_str, Option.bind (json_get ''number'' result) as_str) of
        (Some h, Some n) \<Rightarrow> remember (put_block E h n (text_of E result))
      | _ \<Rightarrow> returnM ())"

definition zero_word_text :: string where
  "zero_word_text = ''0x'' @ replicate 64 CHR ''0''"

definition handle_storage_at :: "'kv proxy_env \<Rightarrow> json \<Rightarrow> json \<Rightarrow> string \<Rightarrow> string \<Rightarrow> string \<Rightarrow> ('kv, response) proxy_m" where
  "handle_storage_at E body rid address slot block =
     cached_text (get_storage_at E address slot block) rid
       (cache_miss_and_forward E body rid (\<lambda>result.
          remember (put_storage_at E address slot block
            (case as_str result of Some val \<Rightarrow> val | None \<Rightarrow> zero_word_text))))"

definition handle_balance :: "'kv proxy_env \<Rightarrow> json \<Rightarrow> json \<Rightarrow> string \<Rightarrow> string \<Rightarrow> ('kv, response) proxy_m" where
  "handle_balance E body rid address block =
     cached_text (get_balance E address block) rid
       (cache_miss_and_forward E body rid (\<lambda>result. case as_str result of
          Some val \<Rightarrow> remember (put_balance E address block val)
        | None \<Rightarrow> returnM ()))"

definition handle_tx_count :: "'kv proxy_env \<Rightarrow> json \<Rightarrow> json \<Rightarrow> string \<Rightarrow> string \<Rightarrow> ('kv, response) proxy_m" where
  "handle_tx_count E body rid address block =
     cached_text (get_tx_count E address block) rid
       (cache_miss_and_forward E body rid (\<lambda>result. case as_str result of
          Some val \<Rightarrow> remember (put_tx_count E address block val)
        | None \<Rightarrow> returnM ()))"

definition handle_code :: "'kv proxy_env \<Rightarrow> json \<Rightarrow> json \<Rightarrow> string \<Rightarrow> ('kv, response) proxy_m" where
  "handle_code E body rid address =
     cached_text (get_code E address) rid
       (cache_miss_and_forward E body rid (\<lambda>result. case as_str result of
          Some code \<Rightarrow> remember (put_code E address code)
        | None \<Rightarrow> returnM ()))"

definition handle_block_by_hash :: "'kv proxy_env \<Rightarrow> json \<Rightarrow> json \<Rightarrow> string \<Rightarrow> ('kv, response) proxy_m" where
  "handle_block_by_hash E body rid hash =
     cached_json E (get_block_by_hash E hash) rid (cache_miss_and_forward E body rid (remember_block E))"

definition handle_block_by_number :: "'kv proxy_env \<Rightarrow> json \<Rightarrow> json \<Rightarrow> string \<Rightarrow> ('kv, response) proxy_m" where
  "handle_block_by_number E body rid number =
     cached_json E (get_block_by_number E number) rid (cache_miss_and_forward E body rid (remember_block E))"

definition handle_tx :: "'kv proxy_env \<Rightarrow> json \<Rightarrow> json \<Rightarrow> string \<Rightarrow> ('kv, response) proxy_m" where
  "handle_tx E body rid hash =
     cached_json E (get_tx E hash) rid
       (cache_miss_and_forward E body rid (\<lambda>result.
          if result \<noteq> JNull then remember (put_tx E hash (text_of E result)) else returnM ()))"

definition handle_receipt :: "'kv proxy_env \<Rightarrow> json \<Rightarrow> json \<Rightarrow> string \<Rightarrow> ('kv, response) proxy_m" where
  "handle_receipt E body rid hash =
     cached_json E (get_receipt E hash) rid
       (cache_miss_and_forward E body rid (\<lambda>result.
          if result \<noteq> JNull then remember (put_receipt E hash (text_of E result)) else returnM ()))"

definition str_param :: "json \<Rightarrow> nat \<Rightarrow> string option" where
  "str_param params i = (case as_array params of
     Some vs \<Rightarrow> if i < length vs then as_str (vs ! i) else None
   | None \<Rightarrow> None)"

definition is_latest :: "json \<Rightarrow> bool" where
  "is_latest params = (case str_param params 0 of
     Some s \<Rightarrow> s = ''latest'' \<or> s = ''pending'' \<or> s = ''earliest''
   | None \<Rightarrow> False)"

definition handle_method ::
    "'kv proxy_env \<Rightarrow> json \<Rightarrow> string \<Rightarrow> json \<Rightarrow> json \<Rightarrow> ('kv, response) proxy_m" where
  "handle_method E body method params rid =
     (let p = str_param params; other = forward_and_respond E body in
      if method = ''eth_getStorageAt'' then
        (case (p 0, p 1, p 2) of
           (Some address, Some slot, Some block) \<Rightarrow> handle_storage_at E body rid address slot block
         | _ \<Rightarrow> other)
      else if method = ''eth_getBalance'' then
        (case (p 0, p 1) of (Some address, Some block) \<Rightarrow> handle_balance E body rid address block | _ \<Rightarrow> other)
      else if method = ''eth_getTransactionCount'' then
        (case (p 0, p 1) of (Some address, Some block) \<Rightarrow> handle_tx_count E body rid address block | _ \<Rightarrow> other)
      else if method = ''eth_getCode'' then
        (case (p 0, p 1) of (Some address, Some _) \<Rightarrow> handle_code E body rid address | _ \<Rightarrow> other)
      else if method = ''eth_getBlockByHash'' then
        (case p 0 of Some hash \<Rightarrow> handle_block_by_hash E body rid hash | None \<Rightarrow> other)
      else if method = ''eth_getBlockByNumber'' then
        (case p 0 of Some number \<Rightarrow> handle_block_by_number E body rid number | None \<Rightarrow> other)
      else if method = ''eth_getTransactionByHash'' then
        (case p 0 of Some hash \<Rightarrow> handle_tx E body rid hash | None \<Rightarrow> other)
      else if method = ''eth_getTransactionReceipt'' then
        (case p 0 of Some hash \<Rightarrow> handle_receipt E body rid hash | None \<Rightarrow> other)
      else other)"

definition invalid_request :: response where
  "invalid_request = json_response 400
     (JObject [(''jsonrpc'', JString ''2.0''), (''error'', rpc_error ''-32600'' ''Invalid Request''), (''id'', JNull)])"

definition handle_jsonrpc :: "'kv proxy_env \<Rightarrow> json \<Rightarrow> ('kv, response) proxy_m" where
  "handle_jsonrpc E body =
     (if as_array body \<noteq> None then forward_and_respond E body
      else if \<not> is_object body then returnM invalid_request
      else
        let method = (case Option.bind (json_get ''method'' body) as_str of Some m \<Rightarrow> m | None \<Rightarrow> []);
            params = (case json_get ''params'' body of Some p \<Rightarrow> p | None \<Rightarrow> JArray []);
            rid = (case json_get ''id'' body of Some i \<Rightarrow> i | None \<Rightarrow> JNull)
        in bindM (getsM px_empty) (\<lambda>empty.
             if \<not> (\<not> empty \<and> \<not> is_latest params) then forward_and_respond E body
             else handle_method E body method params rid))"

definition handle_update_url :: "json \<Rightarrow> ('kv, response) proxy_m" where
  "handle_update_url body = (case Option.bind (json_get ''url'' body) as_str of
     Some url \<Rightarrow> seqM (modifyM (\<lambda>s. s\<lparr>px_url := url\<rparr>)) (returnM \<lparr>rs_status = 200, rs_body = TextBody ''URL updated''\<rparr>)
   | None \<Rightarrow> returnM \<lparr>rs_status = 400, rs_body = TextBody ''ignored''\<rparr>)"

definition handle_ready :: "'kv proxy_env \<Rightarrow> ('kv, response) proxy_m" where
  "handle_ready E =
     (let body = JObject [(''jsonrpc'', JString ''2.0''), (''id'', JNumber ''1''),
                   (''method'', JString ''eth_blockNumber''), (''params'', JArray [])]
      in catchM (forward E body)
           (\<lambda>resp. returnM (case Option.bind (json_get ''result'' resp) as_str of
                Some result \<Rightarrow> json_response 200 (JObject [(''block'', JString result)])
              | None \<Rightarrow>
                  (case json_get ''error'' resp of
                     Some _ \<Rightarrow> json_response 503 (JObject [(''error'', JString ''upstream error'')])
                   | None \<Rightarrow> json_response 503 (JObject [(''error'', JString ''invalid response'')]))))
           (\<lambda>err. returnM (json_response 503 (JObject [(''error'', JString (error_text E err))]))))"

end
