(* ===== verification/EthClient.thy ===== *)
theory EthClient
  imports Proxy Ext
begin

text \<open>
  \<open>src/eth.rs\<close>: the JSON-RPC client that pulls accounts, storage, code and headers from a node,
  and the constructors of \<open>src/ext.rs\<close> that pin a state to one of its blocks.

  \<open>reqwest\<close>, \<open>hex\<close>, \<open>primitive_types\<close> and the derived JSON readers of \<open>Header\<close> and \<open>Block\<close> are
  parameters (\<open>eth_env\<close>); a client is the URL it talks to.
\<close>

section \<open>What the client relies on\<close>

text \<open>
  \<open>ec_post\<close> sends a request: nothing comes back, or a status and the body read as JSON (\<open>None\<close>
  when it is not JSON); the state is the other side's. \<open>ec_radix16\<close> is \<open>U256::from_str_radix\<close>,
  \<open>ec_key_text\<close> the format \<open>{key:#064x}\<close> of a word.
\<close>

record ('s, 'h, 'b) eth_env =
  ec_post :: "string \<Rightarrow> json \<Rightarrow> 's \<Rightarrow> (nat \<times> json option) option \<times> 's"
  ec_hex_encode :: "bytes \<Rightarrow> string"
  ec_hex_decode :: "string \<Rightarrow> bytes option"
  ec_radix16 :: "string \<Rightarrow> u256 option"
  ec_key_text :: "u256 \<Rightarrow> string"
  ec_header :: "json \<Rightarrow> 'h option"
  ec_header_hash :: "'h \<Rightarrow> u256"
  ec_block :: "json \<Rightarrow> 'b option"

record eth_client =
  eth_url :: string

datatype client_error =
    CE_Request
  | CE_Status nat
  | CE_Body
  | CE_RpcObject json
  | CE_RpcText string
  | CE_MissingHex
  | CE_InvalidU256 string
  | CE_ParseInt
  | CE_HexDecode
  | CE_MissingHash
  | CE_NotString
  | CE_Deserialize

type_synonym ('s, 'a) client_m = "('s, client_error, 'a) monad"

section \<open>Requests\<close>

text \<open>\<open>value[key]\<close> of \<open>serde_json\<close>: null when there is no such member.\<close>

definition json_index :: "string \<Rightarrow> json \<Rightarrow> json" where
  "json_index k v = (case json_get k v of Some j \<Rightarrow> j | None \<Rightarrow> JNull)"

definition request_body :: "string \<Rightarrow> json list \<Rightarrow> json" where
  "request_body method params = JObject [(''jsonrpc'', JString ''2.0''), (''method'', JString method),
     (''params'', JArray params), (''id'', JNumber ''0'')]"

definition rpc :: "('s, 'h, 'b) eth_env \<Rightarrow> eth_client \<Rightarrow> json \<Rightarrow> ('s, json) client_m" where
  "rpc E C body = (\<lambda>s. case ec_post E (eth_url C) body s of
       (None, s') \<Rightarrow> (Err CE_Request, s')
     | (Some (status, parsed), s') \<Rightarrow>
         (if \<not> (200 \<le> status \<and> status < 300) then Err (CE_Status status)
          else (case parsed of
              None \<Rightarrow> Err CE_Body
            | Some response \<Rightarrow>
                (let error = json_index ''error'' response in
                 if is_object error then Err (CE_RpcObject error)
                 else (case as_str error of
                     Some e \<Rightarrow> Err (CE_RpcText e)
                   | None \<Rightarrow> Ok (json_index ''result'' response)))), s'))"

section \<open>Results\<close>

fun strip_prefix_0x :: "string \<Rightarrow> string" where
  "strip_prefix_0x (a # b # cs) = (if a = CHR ''0'' \<and> b = CHR ''x'' then cs else a # b # cs)"
| "strip_prefix_0x cs = cs"

definition hex_str :: "json \<Rightarrow> (string, client_error) res" where
  "hex_str val = (case as_str val of Some hex \<Rightarrow> Ok (strip_prefix_0x hex) | None \<Rightarrow> Err CE_MissingHex)"

definition word_from_hex :: "('s, 'h, 'b) eth_env \<Rightarrow> string \<Rightarrow> (u256, client_error) res" where
  "word_from_hex E hex =
     (let hex = strip_0x hex in
      case ec_radix16 E hex of Some w \<Rightarrow> Ok w | None \<Rightarrow> Err (CE_InvalidU256 hex))"

definition hex_to_word :: "('s, 'h, 'b) eth_env \<Rightarrow> json \<Rightarrow> (u256, client_error) res" where
  "hex_to_word E val = res_bind (hex_str val) (word_from_hex E)"

text \<open>
  \<open>u64::from_str_radix(hex, 16)\<close>: an optional plus sign, at least one digit of either case, and a
  number below 2^64.
\<close>

definition radix_digit :: "char \<Rightarrow> nat option" where
  "radix_digit c = (let n = of_char (char_lower c) :: nat in
     if 48 \<le> n \<and> n \<le> 57 then Some (n - 48) else if 97 \<le> n \<and> n \<le> 102 then Some (n - 87) else None)"

fun radix_digits :: "nat \<Rightarrow> string \<Rightarrow> nat option" where
  "radix_digits acc [] = Some acc"
| "radix_digits acc (c # cs) = (case radix_digit c of Some d \<Rightarrow> radix_digits (acc * 16 + d) cs | None \<Rightarrow> None)"

definition u64_from_radix16 :: "string \<Rightarrow> nat option" where
  "u64_from_radix16 s =
     (let digits = (if s \<noteq> [] \<and> hd s = CHR ''+'' then tl s else s) in
      if digits = [] then None
      else (case radix_digits 0 digits of Some n \<Rightarrow> (if n < 2 ^ 64 then Some n else None) | None \<Rightarrow> None))"

definition hex_to_u64 :: "json \<Rightarrow> (nat, client_error) res" where
  "hex_to_u64 val = res_bind (hex_str val) (\<lambda>hex.
     case u64_from_radix16 hex of Some n \<Rightarrow> Ok n | None \<Rightarrow> Err CE_ParseInt)"

definition hex_to_vec :: "('s, 'h, 'b) eth_env \<Rightarrow> json \<Rightarrow> (bytes, client_error) res" where
  "hex_to_vec E val = res_bind (hex_str val) (\<lambda>hex.
     case ec_hex_decode E hex of Some bs \<Rightarrow> Ok bs | None \<Rightarrow> Err CE_HexDecode)"

section \<open>The methods\<close>

text \<open>A word inside \<open>json!\<close> is serialised by \<open>Serialize for Word\<close>.\<close>

definition word_json :: "('s, 'h, 'b) eth_env \<Rightarrow> u256 \<Rightarrow> json" where
  "word_json E w = JString (map (\<lambda>b. char_of (unat b)) (word_serialize (\<lambda>bs. str_bytes (ec_hex_encode E bs)) w))"

definition at_block :: "string \<Rightarrow> json" where
  "at_block block_hash = JObject [(''blockHash'', JString block_hash)]"

definition balance_request :: "string \<Rightarrow> string \<Rightarrow> json" where
  "balance_request block_hash address = request_body ''eth_getBalance'' [JString address, at_block block_hash]"

definition nonce_request :: "string \<Rightarrow> string \<Rightarrow> json" where
  "nonce_request block_hash address = request_body ''eth_getTransactionCount'' [JString address, at_block block_hash]"

definition code_request :: "string \<Rightarrow> string \<Rightarrow> json" where
  "code_request block_hash address = request_body ''eth_getCode'' [JString address, at_block block_hash]"

definition storage_request :: "string \<Rightarrow> string \<Rightarrow> string \<Rightarrow> json" where
  "storage_request block_hash address key =
     request_body ''eth_getStorageAt'' [JString address, JString key, at_block block_hash]"

definition block_request :: "json \<Rightarrow> bool \<Rightarrow> json" where
  "block_request number full = request_body ''eth_getBlockByNumber'' [number, JBool full]"

definition eth_chain_id :: "('s, 'h, 'b) eth_env \<Rightarrow> eth_client \<Rightarrow> ('s, nat) client_m" where
  "eth_chain_id E C = bindM (rpc E C (request_body ''eth_chainId'' [])) (\<lambda>value. liftM (hex_to_u64 value))"

definition eth_get_block_header :: "('s, 'h, 'b) eth_env \<Rightarrow> eth_client \<Rightarrow> u256 \<Rightarrow> ('s, 'h) client_m" where
  "eth_get_block_header E C number =
     bindM (rpc E C (block_request (word_json E number) True)) (\<lambda>value.
       case ec_header E value of Some header \<Rightarrow> returnM header | None \<Rightarrow> throwM CE_Deserialize)"

definition eth_get_full_block :: "('s, 'h, 'b) eth_env \<Rightarrow> eth_client \<Rightarrow> u256 \<Rightarrow> ('s, 'b) client_m" where
  "eth_get_full_block E C number =
     bindM (rpc E C (block_request (word_json E number) True)) (\<lambda>value.
       case ec_block E value of Some block \<Rightarrow> returnM block | None \<Rightarrow> throwM CE_Deserialize)"

definition number_and_hash :: "json \<Rightarrow> (nat \<times> string, client_error) res" where
  "number_and_hash value =
     res_bind (hex_to_u64 (json_index ''number'' value)) (\<lambda>num.
       case as_str (json_index ''hash'' value) of Some hash \<Rightarrow> Ok (num, hash) | None \<Rightarrow> Err CE_MissingHash)"

definition eth_get_block_by_number :: "('s, 'h, 'b) eth_env \<Rightarrow> eth_client \<Rightarrow> u256 \<Rightarrow> ('s, nat \<times> string) client_m" where
  "eth_get_block_by_number E C number =
     bindM (rpc E C (block_request (word_json E number) True)) (\<lambda>value. liftM (number_and_hash value))"

definition eth_get_latest_block :: "('s, 'h, 'b) eth_env \<Rightarrow> eth_client \<Rightarrow> ('s, nat \<times> string) client_m" where
  "eth_get_latest_block E C =
     bindM (rpc E C (block_request (JString ''latest'') False)) (\<lambda>value. liftM (number_and_hash value))"

definition eth_get_storage_at ::
    "('s, 'h, 'b) eth_env \<Rightarrow> eth_client \<Rightarrow> string \<Rightarrow> string \<Rightarrow> string \<Rightarrow> ('s, u256) client_m" where
  "eth_get_storage_at E C block_hash address key =
     bindM (rpc E C (storage_request block_hash address key)) (\<lambda>value. liftM (hex_to_word E value))"

definition eth_get_code :: "('s, 'h, 'b) eth_env \<Rightarrow> eth_client \<Rightarrow> string \<Rightarrow> string \<Rightarrow> ('s, bytes) client_m" where
  "eth_get_code E C block_hash address =
     bindM (rpc E C (code_request block_hash address)) (\<lambda>value. liftM (hex_to_vec E value))"

definition eth_get_balance :: "('s, 'h, 'b) eth_env \<Rightarrow> eth_client \<Rightarrow> string \<Rightarrow> string \<Rightarrow> ('s, u256) client_m" where
  "eth_get_balance E C block_hash address =
     bindM (rpc E C (balance_request block_hash address)) (\<lambda>value. liftM (hex_to_word E value))"

definition eth_get_nonce :: "('s, 'h, 'b) eth_env \<Rightarrow> eth_client \<Rightarrow> string \<Rightarrow> string \<Rightarrow> ('s, u256) client_m" where
  "eth_get_nonce E C block_hash address =
     bindM (rpc E C (nonce_request block_hash address)) (\<lambda>value. liftM (hex_to_word E value))"

text \<open>\<open>format!("0x{}", hex::encode(addr.0))\<close>.\<close>

definition addr_text :: "('s, 'h, 'b) eth_env \<Rightarrow> addr160 \<Rightarrow> string" where
  "addr_text E a = ''0x'' @ ec_hex_encode E (addr_bytes a)"

definition eth_eth_call :: "('s, 'h, 'b) eth_env \<Rightarrow> eth_client \<Rightarrow> addr160 \<Rightarrow> bytes \<Rightarrow> ('s, string) client_m" where
  "eth_eth_call E C address calldata =
     bindM (rpc E C (request_body ''eth_call''
              [JObject [(''to'', JString (addr_text E address)),
                        (''data'', JString (''0x'' @ ec_hex_encode E calldata))],
               JString ''latest''])) (\<lambda>value.
       case as_str value of Some s \<Rightarrow> returnM s | None \<Rightarrow> throwM CE_NotString)"

section \<open>A state at a block\<close>

text \<open>
  The remote of a state: what the client answers at the pinned block, the node being in state
  \<open>s\<close>. The block is named by its hash, so its state does not change.
\<close>

definition ok_value :: "('a, 'e) res \<Rightarrow> 'a option" where
  "ok_value r = (case r of Ok v \<Rightarrow> Some v | _ \<Rightarrow> None)"

definition client_remote :: "('s, 'h, 'b) eth_env \<Rightarrow> eth_client \<Rightarrow> string \<Rightarrow> 's \<Rightarrow> remote" where
  "client_remote E C block_hash s = \<lparr>
     rm_balance = (\<lambda>a. ok_value (fst (eth_get_balance E C block_hash (addr_text E a) s))),
     rm_nonce = (\<lambda>a. ok_value (fst (eth_get_nonce E C block_hash (addr_text E a) s))),
     rm_code = (\<lambda>a. ok_value (fst (eth_get_code E C block_hash (addr_text E a) s))),
     rm_storage = (\<lambda>a key. ok_value (fst (eth_get_storage_at E C block_hash (addr_text E a) (ec_key_text E key) s))),
     rm_block_hash = (\<lambda>n. map_option (ec_header_hash E) (ok_value (fst (eth_get_block_header E C n s))))\<rparr>"

definition ext_local :: ext where
  "ext_local = \<lparr>x_remote = None, x_state = Map.empty, x_original = Map.empty, x_transient = Map.empty,
     x_accessed_addresses = {}, x_accessed_storage = {}, x_created_accounts = [], x_destroyed_accounts = [],
     x_tx_ctx = \<lparr>t_gas_price = 0, t_gas_max_fee = 0, t_blob_max_fee = 0, t_gas_max_priority_fee = 0,
       t_blob_gas_used = 0, t_access_list = []\<rparr>\<rparr>"

definition ext_at_hash :: "('s, 'h, 'b) eth_env \<Rightarrow> string \<Rightarrow> eth_client \<Rightarrow> 's \<Rightarrow> ext" where
  "ext_at_hash E block_hash C s = ext_local\<lparr>x_remote := Some (client_remote E C block_hash s)\<rparr>"

definition ext_at_number :: "('s, 'h, 'b) eth_env \<Rightarrow> u256 \<Rightarrow> eth_client \<Rightarrow> ('s, ext) client_m" where
  "ext_at_number E number C =
     bindM (eth_get_block_by_number E C number) (\<lambda>(_, block_hash). getsM (ext_at_hash E block_hash C))"

definition ext_at_latest :: "('s, 'h, 'b) eth_env \<Rightarrow> eth_client \<Rightarrow> ('s, ext) client_m" where
  "ext_at_latest E C =
     bindM (eth_get_latest_block E C) (\<lambda>(_, block_hash). getsM (ext_at_hash E block_hash C))"

end
