(* ===== verification/ProxyCacheLaws.thy ===== *)
theory ProxyCacheLaws
  imports ProxyCache
begin

text \<open>
  What the cache promises: the canonical text of a number survives the way through a key-value
  store, distinct numbers have distinct keys, and every kind of entry answers a lookup with what
  was put last.
\<close>

section \<open>Numbers as hexadecimal text\<close>

definition hex_char :: "nat \<Rightarrow> char" where
  "hex_char d = ''0123456789abcdef'' ! d"

text \<open>The lowest digits of a number, and its canonical text.\<close>

fun hex_chars :: "nat \<Rightarrow> nat \<Rightarrow> string" where
  "hex_chars 0 n = []"
| "hex_chars (Suc k) n = hex_chars k (n div 16) @ [hex_char (n mod 16)]"

fun hex_num :: "nat \<Rightarrow> string" where
  "hex_num n = (if n < 16 then [hex_char n] else hex_num (n div 16) @ [hex_char (n mod 16)])"

declare hex_num.simps [simp del]

definition quantity :: "nat \<Rightarrow> string" where
  "quantity n = ''0x'' @ hex_num n"

definition data32 :: "nat \<Rightarrow> string" where
  "data32 n = ''0x'' @ hex_chars 64 n"

text \<open>
  What the crate \<open>hex\<close> documents: two lower-case digits for every byte, and decoding is the
  inverse.
\<close>

definition hex_ok :: "('kv, 'a) cache_env_scheme \<Rightarrow> bool" where
  "hex_ok E \<longleftrightarrow> (\<forall>bs. hex_encode E bs = hex_chars (2 * length bs) (be_nat bs)) \<and>
     (\<forall>k n. hex_decode E (hex_chars (2 * k) n) = Some (to_be k n)) \<and>
     (\<forall>k n out. length out = k \<longrightarrow> hex_decode_to_slice E (hex_chars (2 * k) n) out = (True, to_be k n))"

lemma hex_char_props:
  assumes "d < 16"
  shows "hex_char d \<noteq> CHR ''x''" "char_lower (hex_char d) = hex_char d" "hex_char d = CHR ''0'' \<longleftrightarrow> d = 0"
    "hex_char d \<noteq> CHR ''.''"
proof -
  have "\<forall>d \<in> set [0..<16]. hex_char d \<noteq> CHR ''x'' \<and> char_lower (hex_char d) = hex_char d \<and>
      (hex_char d = CHR ''0'' \<longleftrightarrow> d = 0) \<and> hex_char d \<noteq> CHR ''.''"
    by code_simp
  moreover have "d \<in> set [0..<16]" using assms by simp
  ultimately have "hex_char d \<noteq> CHR ''x'' \<and> char_lower (hex_char d) = hex_char d \<and>
      (hex_char d = CHR ''0'' \<longleftrightarrow> d = 0) \<and> hex_char d \<noteq> CHR ''.''" by blast
  then show "hex_char d \<noteq> CHR ''x''" "char_lower (hex_char d) = hex_char d" "hex_char d = CHR ''0'' \<longleftrightarrow> d = 0"
    "hex_char d \<noteq> CHR ''.''" by blast+
qed

lemma length_hex_chars [simp]: "length (hex_chars k n) = k"
  by (induction k arbitrary: n) auto

lemma hex_num_unfold: "16 \<le> n \<Longrightarrow> hex_num n = hex_num (n div 16) @ [hex_char (n mod 16)]"
  by (simp add: hex_num.simps [of n])

lemma hex_num_digit: "n < 16 \<Longrightarrow> hex_num n = [hex_char n]"
  by (simp add: hex_num.simps)

lemma set_hex_num: "c \<in> set (hex_num n) \<Longrightarrow> \<exists>d < 16. c = hex_char d"
proof (induction n rule: less_induct)
  case (less n)
  show ?case
  proof (cases "n < 16")
    case False
    then show ?thesis using less.IH [of "n div 16"] less.prems
      by (auto simp: hex_num_unfold intro: exI [of _ "n mod 16"])
  qed (use less.prems in \<open>auto simp: hex_num_digit\<close>)
qed

lemma set_hex_chars: "c \<in> set (hex_chars k n) \<Longrightarrow> \<exists>d < 16. c = hex_char d"
  by (induction k arbitrary: n) (auto intro: exI [of _ "m mod 16" for m])

lemma hex_text_plain:
  "CHR ''x'' \<notin> set (hex_num n)" "CHR ''x'' \<notin> set (hex_chars k n)"
  "CHR ''.'' \<notin> set (hex_num n)" "CHR ''.'' \<notin> set (hex_chars k n)"
  using set_hex_num set_hex_chars hex_char_props(1,4) by (metis, metis, metis, metis)

lemma hex_text_lower: "map char_lower (hex_num n) = hex_num n" "map char_lower (hex_chars k n) = hex_chars k n"
  using set_hex_num set_hex_chars hex_char_props(2) by (metis map_idI, metis map_idI)

lemma hex_num_nonempty [simp]: "hex_num n \<noteq> []"
  by (simp add: hex_num.simps)

lemma trim_plain: "CHR ''x'' \<notin> set s \<Longrightarrow> strip_0x s = s"
  by (induction s rule: strip_0x.induct) auto

lemma strip_0x_prefix: "CHR ''x'' \<notin> set s \<Longrightarrow> strip_0x (''0x'' @ s) = s"
  by (simp add: trim_plain)

lemma trim_quantity [simp]: "strip_0x (quantity n) = hex_num n"
  unfolding quantity_def by (rule strip_0x_prefix) (rule hex_text_plain)

lemma trim_data32 [simp]: "strip_0x (data32 n) = hex_chars 64 n"
  unfolding data32_def by (rule strip_0x_prefix) (rule hex_text_plain)

lemma normalize_quantity [simp]: "normalize_hex (quantity n) = hex_num n"
  by (simp add: normalize_hex_def hex_text_lower)

text \<open>The canonical text is the digits without leading zeros.\<close>

lemma hex_chars_pad:
  assumes "n < 16 ^ k" "0 < k"
  shows "hex_chars k n = replicate (k - length (hex_num n)) CHR ''0'' @ hex_num n \<and> length (hex_num n) \<le> k"
  using assms
proof (induction k arbitrary: n)
  case (Suc k)
  have zero: "hex_chars k 0 = replicate k CHR ''0''" for k
    by (induction k) (simp_all add: hex_char_def replicate_append_same)
  show ?case
  proof (cases "n < 16")
    case True
    then show ?thesis by (simp add: hex_num_digit zero)
  next
    case False
    with Suc.prems have "n div 16 < 16 ^ k" "0 < k" by (auto simp: less_mult_imp_div_less intro!: gr0I)
    with Suc.IH [of "n div 16"] False show ?thesis by (simp add: hex_num_unfold)
  qed
qed simp

lemma pad_hex_num: "n < 16 ^ k \<Longrightarrow> 0 < k \<Longrightarrow> pad_left k (hex_num n) = hex_chars k n"
  by (simp add: pad_left_def hex_chars_pad)

lemma hex_num_head: "0 < n \<Longrightarrow> hd (hex_num n) \<noteq> CHR ''0''"
proof (induction n rule: less_induct)
  case (less n)
  show ?case
  proof (cases "n < 16")
    case True
    then show ?thesis using less.prems by (simp add: hex_num_digit hex_char_props)
  next
    case False
    then show ?thesis using less.IH [of "n div 16"] by (simp add: hex_num_unfold)
  qed
qed

lemma hex_num_zero: "hex_num 0 = ''0''"
  by (simp add: hex_num_digit hex_char_def)

lemma strip_zeros:
  assumes "n < 16 ^ k" "0 < k"
  shows "dropWhile (\<lambda>c. c = CHR ''0'') (hex_chars k n) = (if n = 0 then [] else hex_num n)"
proof -
  have drop: "dropWhile (\<lambda>c. c = CHR ''0'') (replicate j CHR ''0'' @ s) = dropWhile (\<lambda>c. c = CHR ''0'') s" for j s
    by (induction j) auto
  have "dropWhile (\<lambda>c. c = CHR ''0'') (hex_num n) = (if n = 0 then [] else hex_num n)"
    using hex_num_head [of n] by (cases "hex_num n") (auto simp: hex_num_zero intro: gr0I)
  then show ?thesis by (subst hex_chars_pad [OF assms, THEN conjunct1]) (simp add: drop)
qed

text \<open>Two digits are one byte.\<close>

lemma hex_chars_to_be: "hex_chars k (n mod 16 ^ k) = hex_chars k n"
proof (induction k arbitrary: n)
  case (Suc k)
  have "n mod 16 ^ Suc k div 16 = n div 16 mod 16 ^ k" by (simp add: mod_mult2_eq)
  moreover have "n mod 16 ^ Suc k mod 16 = n mod 16" by (simp add: mod_mult2_eq)
  ultimately show ?case using Suc.IH [of "n div 16"] by (simp del: power_Suc)
qed simp

lemma hex_encode_to_be: "hex_ok E \<Longrightarrow> hex_encode E (to_be k n) = hex_chars (2 * k) n"
  using hex_chars_to_be [of "2 * k" n] by (simp add: hex_ok_def be_nat_to_be power_mult)

section \<open>Keys and values of canonical text\<close>

lemma hex_slice: "hex_ok E \<Longrightarrow> hex_decode_to_slice E (hex_chars (N * 2) n) (replicate N 0) = (True, to_be N n)"
  unfolding hex_ok_def by (metis length_replicate mult.commute)

lemma pad_quantity:
  assumes "hex_ok E" "0 < N" "n < 256 ^ N"
  shows "decode_hex_padded E N (quantity n) = to_be N n"
proof -
  have "n < 16 ^ (N * 2)" using assms(3) by (simp add: mult.commute [of N] power_mult)
  then have "pad_left (N * 2) (hex_num n) = hex_chars (N * 2) n"
    using pad_hex_num assms(2) by simp
  then show ?thesis by (simp add: decode_hex_padded_def hex_slice [OF assms(1)])
qed

lemma pad32_data32: "hex_ok E \<Longrightarrow> pad32 E (data32 n) = to_be 32 n"
  using hex_slice [of E 32 n] by (simp add: decode_hex_padded_def pad_left_def del: to_be.simps)

lemma encode_data32_to_be: "hex_ok E \<Longrightarrow> encode_data32 E (to_be 32 n) = data32 n"
  using hex_encode_to_be [of E 32 n] by (simp add: encode_data32_def data32_def pad_left_def del: to_be.simps)

lemma encode_quantity_to_be:
  assumes "hex_ok E" "0 < k" "n < 256 ^ k"
  shows "encode_quantity E (to_be k n) = quantity n"
proof -
  have "n < 16 ^ (2 * k)" using assms(3) by (simp add: power_mult)
  then have "dropWhile (\<lambda>c. c = CHR ''0'') (hex_encode E (to_be k n)) = (if n = 0 then [] else hex_num n)"
    using strip_zeros [of n "2 * k"] assms(2) by (simp add: hex_encode_to_be [OF assms(1)])
  then show ?thesis by (simp add: encode_quantity_def quantity_def hex_num_zero)
qed

text \<open>A quantity of any size is stored as the bytes of its number.\<close>

lemma hex_num_bound: "n < 16 ^ length (hex_num n)"
proof (induction n rule: less_induct)
  case (less n)
  show ?case
  proof (cases "n < 16")
    case False
    then have "n div 16 < 16 ^ length (hex_num (n div 16))" using less.IH by simp
    then show ?thesis using False by (simp add: hex_num_unfold)
  qed (simp add: hex_num_digit)
qed

lemma hex_num_as_chars: "hex_num n = hex_chars (length (hex_num n)) n"
  using hex_chars_pad [OF hex_num_bound, of n] by simp

lemma decode_compact_quantity:
  assumes "hex_ok E"
  shows "\<exists>k. 0 < k \<and> n < 256 ^ k \<and> decode_hex_compact E (quantity n) = to_be k n"
proof -
  let ?l = "length (hex_num n)" let ?k = "(?l + 1) div 2"
  have l: "0 < ?l" by simp
  have "(if odd ?l then CHR ''0'' # hex_num n else hex_num n) = hex_chars (2 * ?k) n"
  proof (cases "odd ?l")
    case True
    then have k: "2 * ?k = Suc ?l" by simp
    have "n < 16 ^ Suc ?l" using hex_num_bound [of n] by simp
    then show ?thesis using hex_chars_pad [of n "Suc ?l"] True by (simp add: k)
  next
    case False
    then have "2 * ?k = ?l" by simp
    then show ?thesis using False hex_num_as_chars [of n] by simp
  qed
  then have "decode_hex_compact E (quantity n) = to_be ?k n"
    using assms by (simp add: decode_hex_compact_def hex_ok_def Let_def)
  moreover have "n < 256 ^ ?k"
  proof -
    have "n < 16 ^ ?l" by (rule hex_num_bound)
    also have "\<dots> \<le> 16 ^ (2 * ?k)" by (rule power_increasing) auto
    finally show ?thesis by (simp add: power_mult)
  qed
  moreover have "0 < ?k" using l by simp
  ultimately show ?thesis by blast
qed

lemma quantity_roundtrip: "hex_ok E \<Longrightarrow> encode_quantity E (decode_hex_compact E (quantity n)) = quantity n"
  using decode_compact_quantity [of E n] encode_quantity_to_be by metis

text \<open>Keys are injective on the numbers that fit in them.\<close>

lemma to_be_inject: "m < 256 ^ k \<Longrightarrow> n < 256 ^ k \<Longrightarrow> to_be k m = to_be k n \<longleftrightarrow> m = n"
  using be_nat_to_be by (metis mod_less)

lemma storage_key_quantity:
  assumes "hex_ok E" "s < 2 ^ 256" "b < 2 ^ 64"
  shows "storage_key E (quantity s) (quantity b) = to_be 32 s @ to_be 8 b"
proof -
  have "s < 256 ^ 32" "b < 256 ^ 8" using assms(2,3) by simp_all
  then show ?thesis
    using pad_quantity [OF assms(1), of 32 s] pad_quantity [OF assms(1), of 8 b] by (simp add: storage_key_def del: to_be.simps)
qed

lemma storage_key_inject:
  assumes "hex_ok E" "s < 2 ^ 256" "b < 2 ^ 64" "s' < 2 ^ 256" "b' < 2 ^ 64"
  shows "storage_key E (quantity s) (quantity b) = storage_key E (quantity s') (quantity b') \<longleftrightarrow> s = s' \<and> b = b'"
proof -
  have "s < 256 ^ 32" "s' < 256 ^ 32" "b < 256 ^ 8" "b' < 256 ^ 8" using assms(2-5) by simp_all
  then show ?thesis
    using assms by (simp add: storage_key_quantity to_be_inject del: to_be.simps)
qed

lemma address_block_key_inject:
  assumes "hex_ok E" "a < 2 ^ 160" "b < 2 ^ 64" "a' < 2 ^ 160" "b' < 2 ^ 64"
  shows "address_block_key E (quantity a) (quantity b) = address_block_key E (quantity a') (quantity b') \<longleftrightarrow>
    a = a' \<and> b = b'"
proof -
  have *: "a < 256 ^ 20" "a' < 256 ^ 20" "b < 256 ^ 8" "b' < 256 ^ 8" using assms(2-5) by simp_all
  have "address_block_key E (quantity a) (quantity b) = to_be 20 a @ to_be 8 b"
    "address_block_key E (quantity a') (quantity b') = to_be 20 a' @ to_be 8 b'"
    using pad_quantity [OF assms(1) _ *(1)] pad_quantity [OF assms(1) _ *(2)]
      pad_quantity [OF assms(1) _ *(3)] pad_quantity [OF assms(1) _ *(4)]
    by (simp_all add: address_block_key_def del: to_be.simps)
  with * show ?thesis by (simp add: to_be_inject del: to_be.simps)
qed

section \<open>The contract of a cached kind of answer\<close>

text \<open>
  Requests with the same key share an entry; a lookup returns what was put last, as it was
  kept, and neither a lookup nor the entry of another key changes it.
\<close>

locale answer_cache =
  fixes invar :: "'c \<Rightarrow> bool"
    and get :: "'k \<Rightarrow> ('c, 'e, string option) monad"
    and put :: "'k \<Rightarrow> string \<Rightarrow> ('c, 'e, unit) monad"
    and same :: "'k \<Rightarrow> 'k \<Rightarrow> bool"
    and kept :: "string \<Rightarrow> (string option, 'e) res"
  assumes same_refl: "same k k"
    and get_keeps: "get k c = (r, c') \<Longrightarrow> fst (get j c') = fst (get j c)"
    and get_invar: "invar c \<Longrightarrow> get k c = (r, c') \<Longrightarrow> invar c'"
    and put_get: "invar c \<Longrightarrow> put k v c = (Ok u, c') \<Longrightarrow>
      fst (get j c') = (if same k j then kept v else fst (get j c))"
    and put_invar: "invar c \<Longrightarrow> put k v c = (ru, c') \<Longrightarrow> invar c'"
begin

lemma get_twice: "get k c = (r, c1) \<Longrightarrow> get k c1 = (r', c2) \<Longrightarrow> r' = r"
  using get_keeps [of k c r c1 k] by simp

lemma put_then_get: "invar c \<Longrightarrow> put k v c = (Ok u, c1) \<Longrightarrow> fst (get k c1) = kept v"
  by (simp add: put_get same_refl)

lemma put_elsewhere: "invar c \<Longrightarrow> put k v c = (Ok u, c1) \<Longrightarrow> \<not> same k j \<Longrightarrow> fst (get j c1) = fst (get j c)"
  by (simp add: put_get)

lemma last_put_wins:
  assumes "invar c" "put k v c = (Ok u, c1)" "put k w c1 = (Ok u', c2)"
  shows "fst (get j c2) = (if same k j then kept w else fst (get j c))"
  using put_get [OF put_invar [OF assms(1,2)] assms(3)] put_get [OF assms(1,2)] by simp

end

text \<open>
  Key-value stores that break the contract of the crate are replaced by one that refuses
  every insertion, so that the interpretations below need no hypothesis.
\<close>

definition checked_kv :: "('kv, 'a) cache_env_scheme \<Rightarrow> ('kv, 'a) cache_env_scheme" where
  "checked_kv E = (if kv_ok E then E else E\<lparr>kv_insert := \<lambda>_ _ _. None\<rparr>)"

lemma kv_ok_checked [simp]: "kv_ok (checked_kv E)"
  by (auto simp: checked_kv_def kv_ok_def)

lemma checked_kv_id [simp]: "kv_ok E \<Longrightarrow> checked_kv E = E"
  by (simp add: checked_kv_def)

lemma lookup_insert:
  "kv_ok E \<Longrightarrow> kv_insert E db k v = Some db' \<Longrightarrow> lookup_kv E db' j = (if j = k then Ok (Some v) else lookup_kv E db j)"
  by (auto simp: kv_ok_def lookup_kv_def)

definition storage_of :: "('kv, 'a) cache_env_scheme \<Rightarrow> 'kv cache \<Rightarrow> string \<Rightarrow> ('kv, io_error) res" where
  "storage_of E c addr = (case c_storage c addr of Some db \<Rightarrow> Ok db
     | None \<Rightarrow> (case kv_open E (addr @ ''.yak'') of Some db \<Rightarrow> Ok db | None \<Rightarrow> Err KvError))"

lemma storage_db_eq:
  "storage_db E a c = (storage_of E c (normalize_hex a), case storage_of E c (normalize_hex a) of
     Ok db \<Rightarrow> c\<lparr>c_storage := (c_storage c)(normalize_hex a \<mapsto> db)\<rparr> | _ \<Rightarrow> c)"
  by (auto simp: storage_db_def storage_of_def Let_def map_upd_triv split: option.splits)

lemma storage_of_upd:
  "storage_of E (c\<lparr>c_storage := (c_storage c)(a \<mapsto> db)\<rparr>) a' = (if a' = a then Ok db else storage_of E c a')"
  by (simp add: storage_of_def)

lemma storage_of_opened: "storage_db E a c = (r, c') \<Longrightarrow> storage_of E c' a' = storage_of E c a'"
  by (auto simp: storage_db_eq storage_of_upd split: res.splits)

lemma get_storage_at_eq:
  "\<exists>c'. get_storage_at E a s b c = (res_bind (storage_of E c (normalize_hex a)) (\<lambda>db.
      res_bind (lookup_kv E db (storage_key E s b)) (\<lambda>v. Ok (map_option (encode_data32 E) v))), c') \<and>
    storage_of E c' = storage_of E c"
proof -
  obtain r c1 where s: "storage_db E a c = (r, c1)" by fastforce
  have "r = storage_of E c (normalize_hex a)" using s by (simp add: storage_db_eq)
  moreover have "storage_of E c1 = storage_of E c" using storage_of_opened [OF s] by (simp add: fun_eq_iff)
  ultimately show ?thesis
    by (cases "storage_of E c (normalize_hex a)")
      (auto simp: get_storage_at_def bindM_def liftM_def returnM_def s split: res.splits)
qed

lemma fst_get_storage_at:
  "fst (get_storage_at E a s b c) = res_bind (storage_of E c (normalize_hex a)) (\<lambda>db.
      res_bind (lookup_kv E db (storage_key E s b)) (\<lambda>v. Ok (map_option (encode_data32 E) v)))"
  using get_storage_at_eq [of E a s b c] by auto

lemma put_storage_at_Ok:
  assumes "put_storage_at E a s b v c = (Ok u, c')"
  obtains db db' where "storage_of E c (normalize_hex a) = Ok db"
    "kv_insert E db (storage_key E s b) (pad32 E v) = Some db'"
    "storage_of E c' = (storage_of E c)(normalize_hex a := Ok db')"
  using assms
  by (auto simp: put_storage_at_def storage_db_eq insert_kv_def monad_defs storage_of_upd fun_eq_iff
      split: res.splits option.splits)

definition same_slot :: "('kv, 'a) cache_env_scheme \<Rightarrow> string \<times> string \<times> string \<Rightarrow> string \<times> string \<times> string \<Rightarrow> bool" where
  "same_slot E k j \<longleftrightarrow> (case (k, j) of ((a, s, b), (a', s', b')) \<Rightarrow>
     normalize_hex a' = normalize_hex a \<and> storage_key E s' b' = storage_key E s b)"

interpretation slots_cached: answer_cache "\<lambda>_. True"
    "\<lambda>(a, s, b). get_storage_at (checked_kv E) a s b" "\<lambda>(a, s, b). put_storage_at (checked_kv E) a s b"
    "same_slot (checked_kv E)" "\<lambda>v. Ok (Some (encode_data32 (checked_kv E) (pad32 (checked_kv E) v)))"
proof (unfold_locales, goal_cases)
  case (2 k c r c' j)
  then show ?case
    using get_storage_at_eq [of "checked_kv E" "fst k" "fst (snd k)" "snd (snd k)" c]
    by (cases k; cases j) (auto simp: fst_get_storage_at)
next
  case (4 c k v u c' j)
  obtain a s b a' s' b' where k: "k = (a, s, b)" "j = (a', s', b')" by (cases k, cases j)
  from 4(2) have "put_storage_at (checked_kv E) a s b v c = (Ok u, c')" by (simp add: k)
  then obtain db db' where db: "storage_of (checked_kv E) c (normalize_hex a) = Ok db"
      "kv_insert (checked_kv E) db (storage_key (checked_kv E) s b) (pad32 (checked_kv E) v) = Some db'"
      "storage_of (checked_kv E) c' = (storage_of (checked_kv E) c)(normalize_hex a := Ok db')"
    by (rule put_storage_at_Ok)
  show ?case
    using db(1) by (simp add: k same_slot_def fst_get_storage_at db(3) lookup_insert [OF kv_ok_checked db(2)])
qed (auto simp: same_slot_def)

definition same_account :: "('kv, 'a) cache_env_scheme \<Rightarrow> string \<times> string \<Rightarrow> string \<times> string \<Rightarrow> bool" where
  "same_account E k j \<longleftrightarrow> address_block_key E (fst j) (snd j) = address_block_key E (fst k) (snd k)"

lemma lookup_insert_res:
  assumes "kv_ok E" "insert_kv E db k v = Ok db'"
  shows "lookup_kv E db' j = (if j = k then Ok (Some v) else lookup_kv E db j)"
proof -
  from assms(2) have "kv_insert E db k v = Some db'" by (simp add: insert_kv_def split: option.splits)
  then show ?thesis by (rule lookup_insert [OF assms(1)])
qed

interpretation balances_cached: answer_cache "\<lambda>_. True"
    "\<lambda>(a, b). get_balance (checked_kv E) a b" "\<lambda>(a, b). put_balance (checked_kv E) a b"
    "same_account (checked_kv E)"
    "\<lambda>v. Ok (Some (encode_quantity (checked_kv E) (decode_hex_compact (checked_kv E) v)))"
  by unfold_locales
    (auto simp: same_account_def get_balance_def put_balance_def monad_defs lookup_insert_res
      split: res.splits)

interpretation nonces_cached: answer_cache "\<lambda>_. True"
    "\<lambda>(a, b). get_tx_count (checked_kv E) a b" "\<lambda>(a, b). put_tx_count (checked_kv E) a b"
    "same_account (checked_kv E)"
    "\<lambda>v. Ok (Some (encode_quantity (checked_kv E) (decode_hex_compact (checked_kv E) v)))"
  by unfold_locales
    (auto simp: same_account_def get_tx_count_def put_tx_count_def monad_defs lookup_insert_res
      split: res.splits)

section \<open>Files\<close>

text \<open>Directories without links.\<close>

definition plain :: "dir \<Rightarrow> bool" where
  "plain d \<longleftrightarrow> (\<forall>n t. d n \<noteq> Some (Link t))"

definition kept_file :: "('kv, 'a) cache_env_scheme \<Rightarrow> string \<Rightarrow> (string option, io_error) res" where
  "kept_file E s = (case gunzip E (gz E s) of Some t \<Rightarrow> Ok (Some t) | None \<Rightarrow> Err GzError)"

lemma kept_file_id: "gz_ok E \<Longrightarrow> kept_file E s = Ok (Some s)"
  by (simp add: kept_file_def gz_ok_def)

lemma read_gz_plain:
  assumes "\<forall>t. d n \<noteq> Some (Link t)"
  shows "read_gz_string E d n = (case d n of
     Some (Content bs) \<Rightarrow> (case gunzip E bs of Some s \<Rightarrow> Ok (Some s) | None \<Rightarrow> Err GzError) | _ \<Rightarrow> Ok None)"
proof -
  have "read_file k d n = Ok (case d n of Some (Content bs) \<Rightarrow> Some bs | _ \<Rightarrow> None)" if "0 < k" for k
    using assms that by (cases k) (auto split: option.splits cached_file.splits)
  then show ?thesis by (auto simp: read_gz_string_def split: option.splits cached_file.splits)
qed

text \<open>No entry is called like a temporary file.\<close>

definition tgz :: "string \<Rightarrow> bool" where
  "tgz n \<longleftrightarrow> (\<exists>s. n = s @ ''.tgz'')"

lemma with_tmp_last: "last (with_tmp n) = CHR ''p''"
  by (simp add: with_tmp_def)

lemma tgz_last: "tgz n \<Longrightarrow> last n = CHR ''z''"
  by (auto simp: tgz_def)

lemma tgz_not_tmp: "tgz n \<Longrightarrow> n \<noteq> with_tmp n'"
  using tgz_last [of n] with_tmp_last [of n'] by auto

lemma write_gz_plain:
  assumes "write_gz_string E p n v d = (r, d')"
  shows "plain d \<Longrightarrow> plain d'" and "m \<noteq> n \<Longrightarrow> tgz m \<Longrightarrow> d' m = d m"
    and "r = Ok () \<Longrightarrow> d' n = Some (Content (gz E v))" and "r = Ok () \<or> (r = Err IoError \<and> (tgz n \<longrightarrow> d' n = d n))"
  using assms tgz_not_tmp [of m n] tgz_not_tmp [of n n]
  by (auto simp: write_gz_string_def plain_def split: if_splits)

lemma tgz_names [simp]: "tgz (s @ ''.bin.tgz'')" "tgz (s @ ''.json.tgz'')" "tgz (s @ ''.receipt.json.tgz'')"
  unfolding tgz_def by (rule exI [of _ "s @ ''.bin''"], simp, rule exI [of _ "s @ ''.json''"], simp,
    rule exI [of _ "s @ ''.receipt.json''"], simp)

text \<open>The contract for files of a directory without links, under names that end in \<open>.tgz\<close>.\<close>

lemma file_cache_contract:
  fixes get :: "'k \<Rightarrow> ('c, io_error, string option) monad"
  assumes get: "\<And>k c. get k c = (read_gz_string E (dir_of c) (name k), c)"
    and put: "\<And>k v c r c'. put k v c = (r, c') \<Longrightarrow> \<exists>d. write_gz_string E p (name k) v (dir_of c) = (r, d) \<and> dir_of c' = d"
    and tgz: "\<And>k. tgz (name k)"
  shows "answer_cache (\<lambda>c. plain (dir_of c)) get put (\<lambda>k j. name k = name j) (kept_file E)"
proof (unfold_locales, goal_cases)
  case (4 c k v u c' j)
  then obtain d where w: "write_gz_string E p (name k) v (dir_of c) = (Ok (), d)" and d: "dir_of c' = d"
    using put by fastforce
  have "plain d" using write_gz_plain(1) [OF w] 4(1) by simp
  with 4(1) show ?case
    using write_gz_plain(2) [OF w, of "name j"] write_gz_plain(3) [OF w] tgz [of j]
    by (auto simp: get d read_gz_plain plain_def kept_file_def split: option.splits)
next
  case (5 c k v r c')
  then show ?case using put write_gz_plain(1) by metis
qed (auto simp: get)

interpretation codes_cached: answer_cache "\<lambda>c. plain (c_code c)" "get_code E" "put_code E"
    "\<lambda>a b. normalize_hex a @ ''.bin.tgz'' = normalize_hex b @ ''.bin.tgz''" "kept_file E"
  by (rule file_cache_contract [where dir_of = c_code and p = "''code''" and E = E])
    (auto simp: get_code_def put_code_def on_dir_def split: prod.splits)

interpretation txs_cached: answer_cache "\<lambda>c. plain (c_txs c)" "get_tx E" "put_tx E"
    "\<lambda>a b. normalize_hex a @ ''.json.tgz'' = normalize_hex b @ ''.json.tgz''" "kept_file E"
  by (rule file_cache_contract [where dir_of = c_txs and p = "''txs''" and E = E])
    (auto simp: get_tx_def put_tx_def on_dir_def split: prod.splits)

interpretation receipts_cached: answer_cache "\<lambda>c. plain (c_txs c)" "get_receipt E" "put_receipt E"
    "\<lambda>a b. normalize_hex a @ ''.receipt.json.tgz'' = normalize_hex b @ ''.receipt.json.tgz''" "kept_file E"
  by (rule file_cache_contract [where dir_of = c_txs and p = "''txs''" and E = E])
    (auto simp: get_receipt_def put_receipt_def on_dir_def split: prod.splits)

section \<open>Blocks and the links of their numbers\<close>

text \<open>Only names without \<open>.tgz\<close> are links, and each leads to the file of a block.\<close>

definition linked :: "dir \<Rightarrow> bool" where
  "linked d \<longleftrightarrow> (\<forall>n t. d n = Some (Link t) \<longrightarrow> \<not> tgz n \<and> tgz t \<and> (\<exists>bs. d t = Some (Content bs)))"

lemma write_gz_entries:
  assumes "write_gz_string E p n v d = (r, d')" "tgz n"
  shows "d' m = Some (Link t) \<Longrightarrow> d m = Some (Link t)"
    and "tgz m \<Longrightarrow> d m = Some (Content bs) \<Longrightarrow> \<exists>bs. d' m = Some (Content bs)"
  using assms tgz_not_tmp [of m n] tgz_not_tmp [of n n] by (auto simp: write_gz_string_def split: if_splits)

lemma write_linked:
  assumes "linked d" "tgz n" "write_gz_string E p n v d = (r, d')"
  shows "linked d'"
  using assms(1) write_gz_entries [OF assms(3,2)] unfolding linked_def by blast

text \<open>A link goes to a block that was just written, and its name is not that of a block.\<close>

lemma link_linked:
  assumes "linked d" "\<not> tgz num" "d target = Some (Content bs)" "tgz target" "link_block E num target d = (r, d')"
  shows "linked d'"
proof -
  have d': "d' n = d n" if "n \<noteq> num" for n using assms(5) that by (auto simp: link_block_def split: if_splits)
  have num: "d' num = None \<or> d' num = Some (Link target)" using assms(5) by (auto simp: link_block_def split: if_splits)
  have files: "\<exists>bs. d' t = Some (Content bs)" if "tgz t" "d t = Some (Content bs)" for t bs
    using that assms(2) d' [of t] by auto
  show ?thesis
    unfolding linked_def
  proof (intro allI impI)
    fix n t assume l: "d' n = Some (Link t)"
    show "\<not> tgz n \<and> tgz t \<and> (\<exists>bs. d' t = Some (Content bs))"
    proof (cases "n = num")
      case True
      then show ?thesis using l num assms(2-4) files by auto
    next
      case False
      then have "d n = Some (Link t)" using l d' by simp
      then show ?thesis using assms(1) files unfolding linked_def by blast
    qed
  qed
qed

text \<open>The name of a number: hexadecimal text has no dot, so it is not the name of a block.\<close>

lemma plain_number_not_tgz: "CHR ''.'' \<notin> set n \<Longrightarrow> \<not> tgz n"
  by (auto simp: tgz_def)

lemma char_lower_dot: "char_lower c = CHR ''.'' \<longleftrightarrow> c = CHR ''.''"
proof -
  have "char_lower c = c \<or> (of_char (char_lower c) :: nat) = of_char c + 32 \<and> 65 \<le> (of_char c :: nat)"
    by (auto simp: char_lower_def Let_def)
  moreover have "(of_char CHR ''.'' :: nat) = 46" by simp
  moreover have "char_lower CHR ''.'' = CHR ''.''" by (simp add: char_lower_def)
  ultimately show ?thesis by (cases "c = CHR ''.''") auto
qed

lemma set_strip_0x: "set (strip_0x s) \<subseteq> set s"
  by (induction s rule: strip_0x.induct) auto

lemma normalize_no_dot: "CHR ''.'' \<notin> set s \<Longrightarrow> CHR ''.'' \<notin> set (normalize_hex s)"
proof
  assume n: "CHR ''.'' \<notin> set s" and "CHR ''.'' \<in> set (normalize_hex s)"
  then obtain c where "c \<in> set (strip_0x s)" "char_lower c = CHR ''.''" by (auto simp: normalize_hex_def)
  then show False using n set_strip_0x [of s] by (auto simp: char_lower_dot)
qed

lemma put_block_linked:
  assumes "linked (c_blocks c)" "CHR ''.'' \<notin> set number" "put_block E hash number json c = (r, c')"
  shows "linked (c_blocks c')"
proof -
  let ?n = "normalize_hex hash @ ''.json.tgz''"
  obtain r1 d1 where w: "write_gz_string E ''blocks'' ?n json (c_blocks c) = (r1, d1)" by fastforce
  have l: "linked d1" by (rule write_linked [OF assms(1) _ w]) simp
  have num: "\<not> tgz (normalize_hex number)" by (intro plain_number_not_tgz normalize_no_dot assms(2))
  show ?thesis
  proof (cases "r1 = Ok ()")
    case True
    then have "c_blocks c' = snd (link_block E (normalize_hex number) ?n d1)"
      using assms(3) w by (auto simp: put_block_def on_dir_def seqM_def bindM_def split: prod.splits)
    then show ?thesis
      using link_linked [OF l num write_gz_plain(3) [OF w True]] by (metis prod.collapse tgz_names(2))
  next
    case False
    then have "r1 = Err IoError" using write_gz_plain(4) [OF w] by blast
    then have "c_blocks c' = d1"
      using assms(3) w by (auto simp: put_block_def on_dir_def seqM_def bindM_def split: prod.splits)
    then show ?thesis using l by simp
  qed
qed

lemma cache_open_Ok:
  assumes "cache_open E made code blocks txs = Ok c"
  shows "list_all id made" "kv_open E ''balance.yak'' = Some (c_balance c)" "kv_open E ''nonce.yak'' = Some (c_nonce c)"
    and "c_storage c = Map.empty" "linked blocks \<Longrightarrow> linked (c_blocks c)"
  using assms by (auto simp: cache_open_def res_bind_Ok_iff split: if_splits option.splits)

lemma read_link:
  assumes "d n = Some (Link t)" "d t = Some (Content bs)"
    and "1 < k"
  shows "read_file k d n = Ok (Some bs)"
proof -
  from assms(3) obtain j where "k = Suc (Suc j)" by (metis One_nat_def less_imp_Suc_add add_Suc)
  then show ?thesis using assms by simp
qed

text \<open>A block that was put answers both its hash and its number.\<close>

lemma put_block_get:
  assumes "put_block E hash number json c = (Ok (), c')" "CHR ''.'' \<notin> set number"
  shows "fst (get_block_by_hash E hash c') = kept_file E json" "fst (get_block_by_number E number c') = kept_file E json"
proof -
  let ?n = "normalize_hex hash @ ''.json.tgz''" and ?l = "normalize_hex number"
  have num: "\<not> tgz ?l" by (intro plain_number_not_tgz normalize_no_dot assms(2))
  then have ne: "?l \<noteq> ?n" using tgz_names(2) [of "normalize_hex hash"] by metis
  from assms(1) obtain d1 where w: "write_gz_string E ''blocks'' ?n json (c_blocks c) = (Ok (), d1)"
    and l: "link_block E ?l ?n d1 = (Ok (), c_blocks c')"
    by (auto simp: put_block_def on_dir_def seqM_def bindM_Ok_iff split: prod.splits)
  have d: "c_blocks c' ?n = Some (Content (gz E json))" "c_blocks c' ?l = Some (Link ?n)"
    using l ne write_gz_plain(3) [OF w] by (auto simp: link_block_def fun_upd_def split: if_splits dest!: sym [of _ "c_blocks c'"])
  have "read_file 41 (c_blocks c') ?l = Ok (Some (gz E json))"
    by (rule read_link [OF d(2,1)]) simp
  then show "fst (get_block_by_number E number c') = kept_file E json"
    by (simp add: get_block_by_number_def on_dir_def read_gz_string_def kept_file_def)
  show "fst (get_block_by_hash E hash c') = kept_file E json"
    using d(1) by (simp add: get_block_by_hash_def on_dir_def read_gz_plain kept_file_def split: option.splits)
qed

end
