(* ===== verification/ProxyLaws.thy ===== *)
theory ProxyLaws
  imports Proxy ProxyCacheLaws
begin

text \<open>
  The proxy: what a forwarded request costs in attempts and pauses, and what a request that
  was answered once leaves in the cache.
\<close>

section \<open>Forwarding\<close>

text \<open>The pause after a failed attempt: it doubles to 32 seconds once and is 20 seconds from then on.\<close>

definition pause_after :: "nat \<Rightarrow> nat" where
  "pause_after a = (if a \<le> 5 then 1000 * 2 ^ a else 20000)"

definition delay_before :: "nat \<Rightarrow> nat" where
  "delay_before a = (case a of 0 \<Rightarrow> 1000 | Suc b \<Rightarrow> pause_after b)"

lemma next_delay_forward:
  "next_delay checks forward_config a (delay_before a) = Ok (pause_after a)"
proof (cases "a \<le> 5")
  case True
  have "\<forall>a \<in> set [0..<6]. delay_before a < 20000 \<and> (2 :: nat) ^ a < usize_bound \<and> 1000 * 2 ^ a < usize_bound" by code_simp
  moreover have "a \<in> set [0..<6]" using True by simp
  ultimately have "delay_before a < 20000" "(2 :: nat) ^ a < usize_bound" "1000 * 2 ^ a < usize_bound" by blast+
  with True show ?thesis
    by (simp add: next_delay_def forward_config_def u64_fit_def pause_after_def del: power_increasing_iff)
next
  case False
  then obtain b where "a = Suc b" "5 \<le> b" by (cases a) auto
  then show ?thesis by (cases "b = 5") (auto simp: next_delay_def forward_config_def delay_before_def pause_after_def)
qed

text \<open>The state after the first calls of a request, with the pauses between them.\<close>

definition called :: "string \<Rightarrow> json \<Rightarrow> nat \<Rightarrow> nat \<Rightarrow> 'kv proxy \<Rightarrow> 'kv proxy" where
  "called url body n k s = s\<lparr>px_calls := px_calls s @ replicate n (url, body),
     px_sleeps := px_sleeps s @ map pause_after [0..<k]\<rparr>"

definition outcome_of :: "'kv proxy_env \<Rightarrow> string \<Rightarrow> json \<Rightarrow> 'kv proxy \<Rightarrow> nat \<Rightarrow> (json, forward_error) res" where
  "outcome_of E url body s i = fst (send_once E url body (called url body i i s))"

fun try_again :: "(json, forward_error) res \<Rightarrow> bool" where
  "try_again (Err e) = is_retryable e"
| "try_again _ = False"

lemma send_once_called:
  "send_once E url body (called url body a a s) = (outcome_of E url body s a, called url body (Suc a) a s)"
  by (simp add: outcome_of_def called_def send_once_def replicate_append_same [symmetric])

lemma outcome_settled: "(\<exists>v. outcome_of E url body s a = Ok v) \<or> (\<exists>e. outcome_of E url body s a = Err e)"
  by (auto simp: outcome_of_def send_once_def split: reply.splits sum.splits)

lemma retry_again:
  fixes e :: 'e
  assumes "attempt_once s = (Err e, s1)" "retryable e" "max_attempts config - Suc left = a \<and> a + 1 < max_attempts config"
    and "next_delay checks config a delay = (Ok d :: (nat, 'e) res)" "sleep d s1 = (Ok (), s2)"
  shows "retry_loop checks config retryable sleep attempt_once (Suc left) delay s =
    retry_loop checks config retryable sleep attempt_once left d s2"
  using assms by (simp add: catchM_def bindM_def seqM_def liftM_def Let_def)

lemma retry_loop_forward:
  assumes "Suc left + a = 30"
    and "retry_loop checks forward_config is_retryable pause (send_once E url body) (Suc left) (delay_before a)
      (called url body a a s) = (r, t)"
  shows "\<exists>n. a \<le> n \<and> n < 30 \<and> t = called url body (Suc n) n s \<and> r = outcome_of E url body s n \<and>
    (\<forall>i. a \<le> i \<and> i < n \<longrightarrow> try_again (outcome_of E url body s i)) \<and> (try_again r \<longrightarrow> n = 29)"
  using assms
proof (induction left arbitrary: a)
  case 0
  then have "a = 29" by simp
  with 0 outcome_settled [of E url body s a] show ?case
    by (intro exI [of _ 29]) (auto simp: catchM_def send_once_called forward_config_def throwM_def returnM_def split: if_splits)
next
  case (Suc left)
  have a: "max_attempts forward_config - Suc (Suc left) = a" "\<not> max_attempts forward_config \<le> a + 1"
    using Suc.prems(1) by (simp_all add: forward_config_def)
  show ?case
  proof (cases "try_again (outcome_of E url body s a)")
    case True
    then obtain e where e: "outcome_of E url body s a = Err e" "is_retryable e"
      using outcome_settled [of E url body s a] by auto
    have pause: "pause (pause_after a) (called url body (Suc a) a s) = (Ok (), called url body (Suc a) (Suc a) s)"
      by (simp add: pause_def modifyM_def called_def)
    have bound: "max_attempts forward_config - Suc (Suc left) = a \<and> a + 1 < max_attempts forward_config"
      using a by simp
    have before: "delay_before (Suc a) = pause_after a" by (simp add: delay_before_def)
    have step: "send_once E url body (called url body a a s) = (Err e, called url body (Suc a) a s)"
      using e(1) by (simp add: send_once_called)
    have "retry_loop checks forward_config is_retryable pause (send_once E url body) (Suc left) (delay_before (Suc a))
        (called url body (Suc a) (Suc a) s) = (r, t)"
      unfolding before Suc.prems(2) [symmetric]
      by (rule retry_again [where attempt_once = "send_once E url body" and sleep = pause and retryable = is_retryable
            and s = "called url body a a s", OF step e(2) bound next_delay_forward pause, symmetric])
    moreover have "Suc left + Suc a = 30" using Suc.prems(1) by simp
    ultimately obtain n where n: "Suc a \<le> n" "n < 30" "t = called url body (Suc n) n s"
        "r = outcome_of E url body s n" "\<forall>i. Suc a \<le> i \<and> i < n \<longrightarrow> try_again (outcome_of E url body s i)"
        "try_again r \<longrightarrow> n = 29" using Suc.IH [of "Suc a"] by blast
    have "try_again (outcome_of E url body s i)" if "a \<le> i" "i < n" for i
      using n(5) that True by (cases "i = a") auto
    then show ?thesis using n(1-4,6) Suc_leD by blast
  next
    case False
    then have "r = outcome_of E url body s a \<and> t = called url body (Suc a) a s"
      using Suc.prems(2) outcome_settled [of E url body s a]
      by (auto simp: catchM_def send_once_called Let_def throwM_def returnM_def)
    with False Suc.prems(1) show ?thesis by (intro exI [of _ a]) auto
  qed
qed

lemma forward_runs:
  assumes "forward E body s = (r, t)"
  shows "\<exists>n < 30. t = called (px_url s) body (Suc n) n s \<and> r = outcome_of E (px_url s) body s n \<and>
    (\<forall>i < n. try_again (outcome_of E (px_url s) body s i)) \<and> (try_again r \<longrightarrow> n = 29)"
proof -
  have "called (px_url s) body 0 0 s = s" by (simp add: called_def)
  moreover have "delay_before 0 = 1000" by (simp add: delay_before_def)
  moreover have "(30 :: nat) = Suc 29" by simp
  ultimately have "retry_loop (checked_arith E) forward_config is_retryable pause (send_once E (px_url s) body) (Suc 29)
      (delay_before 0) (called (px_url s) body 0 0 s) = (r, t)"
    using assms unfolding forward_def retry_def
    by (simp add: bindM_def getsM_def forward_config_def del: retry_loop.simps)
  from retry_loop_forward [OF _ this] show ?thesis by auto
qed

lemma forward_effect:
  assumes "forward E body s = (r, t)"
  shows "(\<exists>v. r = Ok v) \<or> (\<exists>e. r = Err e)" "px_cache t = px_cache s" "px_empty t = px_empty s"
    "px_offline t = px_offline s" "px_url t = px_url s"
proof -
  obtain n where t: "t = called (px_url s) body (Suc n) n s" and r: "r = outcome_of E (px_url s) body s n"
    using forward_runs [OF assms] by blast
  show "(\<exists>v. r = Ok v) \<or> (\<exists>e. r = Err e)" unfolding r by (rule outcome_settled)
  show "px_cache t = px_cache s" "px_empty t = px_empty s" "px_offline t = px_offline s" "px_url t = px_url s"
    by (simp_all add: t called_def)
qed

section \<open>Misses and hits\<close>

lemma remember_eq: "remember m s = (Ok (), s\<lparr>px_cache := snd (m (px_cache s))\<rparr>)"
  by (simp add: remember_def on_cache_def bindM_def returnM_def split: prod.splits)

text \<open>What a response answers: its result, when it carries no error.\<close>

definition answered :: "response \<Rightarrow> json \<Rightarrow> bool" where
  "answered resp v \<longleftrightarrow> (\<exists>obj. resp = json_response 200 obj \<and> json_get ''error'' obj = None \<and>
     json_get ''result'' obj = Some v)"

lemma answered_ok [simp]: "answered (jsonrpc_ok rid v) w \<longleftrightarrow> w = v"
  by (auto simp: answered_def jsonrpc_ok_def json_response_def)

lemma answered_unique: "answered resp v \<Longrightarrow> answered resp w \<Longrightarrow> w = v"
  by (auto simp: answered_def json_response_def)

lemma not_answered [simp]: "\<not> answered (jsonrpc_err rid code msg) v" "\<not> answered (error_response E e) v"
  "\<not> answered invalid_request v"
  by (auto simp: answered_def jsonrpc_err_def error_response_def invalid_request_def json_response_def)

lemma answered_json_response:
  "answered (json_response 200 obj) v \<longleftrightarrow> json_get ''error'' obj = None \<and> json_get ''result'' obj = Some v"
  by (auto simp: answered_def json_response_def)

text \<open>A result that came from upstream.\<close>

definition from_upstream :: "'kv proxy_env \<Rightarrow> json \<Rightarrow> bool" where
  "from_upstream E v \<longleftrightarrow> (\<exists>calls url body status reason obj.
     upstream E calls url body = Reply status reason (Inr obj) \<and> json_get ''result'' obj = Some v)"

lemma forward_reply:
  assumes "forward E body s = (Ok obj, t)" "json_get ''result'' obj = Some v"
  shows "from_upstream E v"
proof -
  obtain n where "outcome_of E (px_url s) body s n = Ok obj" using forward_runs [OF assms(1)] by metis
  then obtain calls status reason where "upstream E calls (px_url s) body = Reply status reason (Inr obj)"
    by (auto simp: outcome_of_def send_once_def split: reply.splits sum.splits if_splits)
  then show ?thesis using assms(2) unfolding from_upstream_def by blast
qed

text \<open>A miss either leaves the cache as it was or hands the result it answers with to the cache.\<close>

lemma miss_outcome:
  assumes f: "\<And>v s. \<exists>c. f v s = (Ok (), s\<lparr>px_cache := c\<rparr>)"
    and run: "cache_miss_and_forward E body rid f s = (r, t)"
  obtains (kept) resp where "r = Ok resp" "\<And>v. \<not> answered resp v" "px_cache t = px_cache s"
      "px_offline s \<Longrightarrow> t = s" "px_empty t = px_empty s" "px_offline t = px_offline s"
  | (stored) resp v s1 where "r = Ok resp" "answered resp v" "f v s1 = (Ok (), t)" "px_cache s1 = px_cache s"
      "px_empty t = px_empty s" "px_offline t = px_offline s" "\<not> px_offline s" "from_upstream E v"
proof (cases "px_offline s")
  case True
  then have "r = Ok (jsonrpc_err rid ''-32001'' ''Server running in offline mode'')" "t = s"
    using run by (auto simp: cache_miss_and_forward_def bindM_def getsM_def returnM_def)
  then show thesis by - (rule kept, assumption, rule not_answered, simp_all)
next
  case False
  obtain r1 s1 where fw: "forward E body s = (r1, s1)" by fastforce
  note eff = forward_effect [OF fw]
  show thesis
  proof (cases r1)
    case (Ok obj)
    show thesis
    proof (cases "\<exists>v. json_get ''error'' obj = None \<and> json_get ''result'' obj = Some v")
      case True
      then obtain v where v: "json_get ''error'' obj = None" "json_get ''result'' obj = Some v" by blast
      obtain c where c: "f v s1 = (Ok (), s1\<lparr>px_cache := c\<rparr>)" using f by blast
      then have "r = Ok (json_response 200 obj)" "t = s1\<lparr>px_cache := c\<rparr>"
        using run False fw Ok v
        by (auto simp: cache_miss_and_forward_def bindM_def getsM_def catchM_def seqM_def returnM_def)
      then show thesis using v c eff False forward_reply [OF fw [unfolded Ok] v(2)]
        by - (rule stored [of _ v s1], assumption, simp_all add: answered_json_response)
    next
      case no: False
      then have "r = Ok (json_response 200 obj)" "t = s1"
        using run False fw Ok
        by (auto simp: cache_miss_and_forward_def bindM_def getsM_def catchM_def seqM_def returnM_def split: option.splits)
      then show thesis using no eff False by - (rule kept, assumption, auto simp: answered_json_response)
    qed
  next
    case (Err e)
    then have "r = Ok (error_response E e)" "t = s1"
      using run False fw
      by (auto simp: cache_miss_and_forward_def bindM_def getsM_def catchM_def seqM_def returnM_def)
    then show thesis using eff False by - (rule kept, assumption, auto)
  qed (use eff in auto)
qed

text \<open>What holds of the cache before a request for a cached answer holds after it.\<close>

lemma cached_keeps:
  assumes f: "\<And>v s. \<exists>c. f v s = (Ok (), s\<lparr>px_cache := c\<rparr>)" and P: "P (px_cache s)"
    and look: "\<And>c. P c \<Longrightarrow> P (snd (look c))"
    and result: "\<And>v s. from_upstream E v \<Longrightarrow> P (px_cache s) \<Longrightarrow> P (px_cache (snd (f v s)))"
  shows "cached_text look rid (cache_miss_and_forward E body rid f) s = (r, t) \<Longrightarrow> P (px_cache t)"
    and "cached_json E look rid (cache_miss_and_forward E body rid f) s = (r, t) \<Longrightarrow> P (px_cache t)"
proof -
  obtain r1 c where l: "look (px_cache s) = (r1, c)" by fastforce
  have c: "P c" using look [OF P] l by simp
  have miss: "P (px_cache t)" if "cache_miss_and_forward E body rid f (s\<lparr>px_cache := c\<rparr>) = (r, t)"
  proof (rule miss_outcome [OF f that])
    assume "px_cache t = px_cache (s\<lparr>px_cache := c\<rparr>)"
    with c show ?thesis by simp
  next
    fix v s1 assume "f v s1 = (Ok (), t)" "px_cache s1 = px_cache (s\<lparr>px_cache := c\<rparr>)" "from_upstream E v"
    then show ?thesis using result [of v s1] c by simp
  qed
  note simps = cached_text_def cached_json_def on_cache_def bindM_def l returnM_def
  show "cached_text look rid (cache_miss_and_forward E body rid f) s = (r, t) \<Longrightarrow> P (px_cache t)"
    using miss c by (auto simp: simps split: option.splits res.splits)
  show "cached_json E look rid (cache_miss_and_forward E body rid f) s = (r, t) \<Longrightarrow> P (px_cache t)"
    using miss c by (auto simp: simps split: option.splits res.splits)
qed

text \<open>The contract of a kind of answer, seen from the handlers.\<close>

locale served_cache = answer_cache invar get put same kept
  for invar :: "'kv cache \<Rightarrow> bool" and get :: "'k \<Rightarrow> ('kv, string option) cache_m"
    and put :: "'k \<Rightarrow> string \<Rightarrow> ('kv, unit) cache_m" and same :: "'k \<Rightarrow> 'k \<Rightarrow> bool"
    and kept :: "string \<Rightarrow> (string option, io_error) res"
begin

lemma text_hit:
  assumes "fst (get k (px_cache s)) = Ok (Some t)"
  shows "\<exists>c. cached_text (get k) rid miss s = (Ok (jsonrpc_ok rid (JString t)), s\<lparr>px_cache := c\<rparr>)"
  using assms by (cases "get k (px_cache s)") (auto simp: cached_text_def on_cache_def bindM_def returnM_def)

lemma json_hit:
  assumes "fst (get k (px_cache s)) = Ok (Some t)" "parse_json E t = Some v"
  shows "\<exists>c. cached_json E (get k) rid miss s = (Ok (jsonrpc_ok rid v), s\<lparr>px_cache := c\<rparr>)"
  using assms by (cases "get k (px_cache s)") (auto simp: cached_json_def on_cache_def bindM_def returnM_def)

lemma text_hit_calls:
  assumes "fst (get k (px_cache s)) = Ok (Some t)"
  shows "\<exists>s'. cached_text (get k) rid miss s = (Ok (jsonrpc_ok rid (JString t)), s') \<and> px_calls s' = px_calls s"
  using text_hit [OF assms, of rid miss] by auto

lemma json_hit_calls:
  assumes "fst (get k (px_cache s)) = Ok (Some t)" "parse_json E t = Some v"
  shows "\<exists>s'. cached_json E (get k) rid miss s = (Ok (jsonrpc_ok rid v), s') \<and> px_calls s' = px_calls s"
  using json_hit [where E = E, OF assms, of rid miss] by auto

text \<open>After an answer, hit or miss, the entry holds the answer.\<close>

lemma text_entry:
  assumes "invar (px_cache s)"
    and run: "cached_text (get k) rid (cache_miss_and_forward E body rid f) s = (Ok resp, s1)"
    and ans: "answered resp (JString t)"
    and f: "\<And>v s. \<exists>c. f v s = (Ok (), s\<lparr>px_cache := c\<rparr>)" "f (JString t) = remember (put k t)"
    and store: "\<And>c. fst (put k t c) = Ok ()" "kept t = Ok (Some t)"
  shows "fst (get k (px_cache s1)) = Ok (Some t)"
proof -
  obtain r c where g: "get k (px_cache s) = (r, c)" by fastforce
  show ?thesis
  proof (cases "\<exists>val. r = Ok (Some val)")
    case True
    then obtain val where val: "r = Ok (Some val)" by blast
    then have "resp = jsonrpc_ok rid (JString val)" "s1 = s\<lparr>px_cache := c\<rparr>"
      using run g by (auto simp: cached_text_def on_cache_def bindM_def returnM_def)
    then show ?thesis using ans get_keeps [OF g, of k] g val by simp
  next
    case False
    then have miss: "cache_miss_and_forward E body rid f (s\<lparr>px_cache := c\<rparr>) = (Ok resp, s1)"
      using run g by (cases r) (auto simp: cached_text_def on_cache_def bindM_def split: option.splits)
    show ?thesis
    proof (rule miss_outcome [OF f(1) miss])
      fix resp' assume "Ok resp = Ok resp'" "\<And>v. \<not> answered resp' v"
      with ans show ?thesis by auto
    next
      fix resp' v s2 assume "(Ok resp :: (response, forward_error) res) = Ok resp'" "answered resp' v" "f v s2 = (Ok (), s1)" "px_cache s2 = px_cache (s\<lparr>px_cache := c\<rparr>)"
      then have "remember (put k t) s2 = (Ok (), s1)" and c: "px_cache s2 = c" using ans f(2) answered_unique by fastforce+
      moreover obtain c1 where p: "put k t c = (Ok (), c1)" using store(1) [of c] by (metis prod.collapse)
      ultimately have "px_cache s1 = c1" by (auto simp: remember_eq c p)
      then show ?thesis using put_then_get [OF get_invar [OF assms(1) g] p] store(2) by simp
    qed
  qed
qed

lemma json_entry:
  assumes "invar (px_cache s)"
    and run: "cached_json E (get k) rid (cache_miss_and_forward E body rid f) s = (Ok resp, s1)"
    and ans: "answered resp v"
    and f: "\<And>v s. \<exists>c. f v s = (Ok (), s\<lparr>px_cache := c\<rparr>)" "f v = remember (put k (text_of E v))"
    and store: "\<And>c. fst (put k (text_of E v) c) = Ok ()" "kept (text_of E v) = Ok (Some (text_of E v))"
    and parse: "parse_json E (text_of E v) = Some v"
  shows "\<exists>t. fst (get k (px_cache s1)) = Ok (Some t) \<and> parse_json E t = Some v"
proof -
  obtain r c where g: "get k (px_cache s) = (r, c)" by fastforce
  show ?thesis
  proof (cases "\<exists>t w. r = Ok (Some t) \<and> parse_json E t = Some w")
    case True
    then obtain t w where t: "r = Ok (Some t)" "parse_json E t = Some w" by blast
    then have "resp = jsonrpc_ok rid w" "s1 = s\<lparr>px_cache := c\<rparr>"
      using run g by (auto simp: cached_json_def on_cache_def bindM_def returnM_def)
    then show ?thesis using ans get_keeps [OF g, of k] g t by simp
  next
    case False
    then have miss: "cache_miss_and_forward E body rid f (s\<lparr>px_cache := c\<rparr>) = (Ok resp, s1)"
      using run g by (cases r) (auto simp: cached_json_def on_cache_def bindM_def split: option.splits)
    show ?thesis
    proof (rule miss_outcome [OF f(1) miss])
      fix resp' assume "Ok resp = Ok resp'" "\<And>v. \<not> answered resp' v"
      with ans show ?thesis by auto
    next
      fix resp' w s2 assume "(Ok resp :: (response, forward_error) res) = Ok resp'" "answered resp' w" "f w s2 = (Ok (), s1)" "px_cache s2 = px_cache (s\<lparr>px_cache := c\<rparr>)"
      then have "remember (put k (text_of E v)) s2 = (Ok (), s1)" and c: "px_cache s2 = c" using ans f(2) answered_unique by fastforce+
      moreover obtain c1 where p: "put k (text_of E v) c = (Ok (), c1)" using store(1) [of c] by (metis prod.collapse)
      ultimately have "px_cache s1 = c1" by (auto simp: remember_eq c p)
      then show ?thesis using put_then_get [OF get_invar [OF assms(1) g] p] store(2) parse by auto
    qed
  qed
qed

end

interpretation slots_served: served_cache "\<lambda>_. True"
    "\<lambda>(a, s, b). get_storage_at (checked_kv E) a s b" "\<lambda>(a, s, b). put_storage_at (checked_kv E) a s b"
    "same_slot (checked_kv E)" "\<lambda>v. Ok (Some (encode_data32 (checked_kv E) (pad32 (checked_kv E) v)))"
  by (rule served_cache.intro) (rule slots_cached.answer_cache_axioms)

interpretation balances_served: served_cache "\<lambda>_. True"
    "\<lambda>(a, b). get_balance (checked_kv E) a b" "\<lambda>(a, b). put_balance (checked_kv E) a b"
    "same_account (checked_kv E)"
    "\<lambda>v. Ok (Some (encode_quantity (checked_kv E) (decode_hex_compact (checked_kv E) v)))"
  by (rule served_cache.intro) (rule balances_cached.answer_cache_axioms)

interpretation nonces_served: served_cache "\<lambda>_. True"
    "\<lambda>(a, b). get_tx_count (checked_kv E) a b" "\<lambda>(a, b). put_tx_count (checked_kv E) a b"
    "same_account (checked_kv E)"
    "\<lambda>v. Ok (Some (encode_quantity (checked_kv E) (decode_hex_compact (checked_kv E) v)))"
  by (rule served_cache.intro) (rule nonces_cached.answer_cache_axioms)

interpretation codes_served: served_cache "\<lambda>c. plain (c_code c)" "get_code E" "put_code E"
    "\<lambda>a b. normalize_hex a @ ''.bin.tgz'' = normalize_hex b @ ''.bin.tgz''" "kept_file E"
  by (rule served_cache.intro) (rule codes_cached.answer_cache_axioms)

interpretation txs_served: served_cache "\<lambda>c. plain (c_txs c)" "get_tx E" "put_tx E"
    "\<lambda>a b. normalize_hex a @ ''.json.tgz'' = normalize_hex b @ ''.json.tgz''" "kept_file E"
  by (rule served_cache.intro) (rule txs_cached.answer_cache_axioms)

interpretation receipts_served: served_cache "\<lambda>c. plain (c_txs c)" "get_receipt E" "put_receipt E"
    "\<lambda>a b. normalize_hex a @ ''.receipt.json.tgz'' = normalize_hex b @ ''.receipt.json.tgz''" "kept_file E"
  by (rule served_cache.intro) (rule receipts_cached.answer_cache_axioms)

end
