(* ===== verification/ProxyProps.thy ===== *)
theory ProxyProps
  imports ProxyLaws Steps
begin

text \<open>
  Properties of the proxy: retries, answers from the cache, the offline mode, and what a
  sequence of requests keeps of the cache.
\<close>

section \<open>A demonstration environment\<close>

text \<open>Hexadecimal text decoded from its digits, stores that are maps, files kept uncompressed.\<close>

definition char_digit :: "char \<Rightarrow> nat" where
  "char_digit c = (let n = of_char c in if n < 58 then n - 48 else n - 87)"

definition text_num :: "string \<Rightarrow> nat" where
  "text_num s = foldl (\<lambda>n c. n * 16 + char_digit c) 0 s"

text \<open>The upstream node refuses twice and then answers: a word of storage or a quantity.\<close>

definition demo_reply :: "(string \<times> json) list \<Rightarrow> string \<Rightarrow> json \<Rightarrow> reply" where
  "demo_reply calls url body =
     (if length calls < 2 then Reply 503 ''busy'' (Inr JNull)
      else Reply 200 [] (Inr (JObject [(''jsonrpc'', JString ''2.0''), (''id'', JNumber ''1''),
        (''result'', JString (if json_get ''method'' body = Some (JString ''eth_getStorageAt'') then data32 5 else quantity 5))])))"

definition demo_env :: "(bytes \<Rightarrow> bytes option) proxy_env" where
  "demo_env = \<lparr>
     hex_encode = (\<lambda>bs. hex_chars (2 * length bs) (be_nat bs)),
     hex_decode = (\<lambda>s. Some (to_be (length s div 2) (text_num s))),
     hex_decode_to_slice = (\<lambda>s out. (True, to_be (length out) (text_num s))),
     kv_open = (\<lambda>_. Some Map.empty), kv_lookup = (\<lambda>db k. Some (db k)),
     kv_insert = (\<lambda>db k v. Some (db(k \<mapsto> v))),
     gz = map (\<lambda>c. word_of_nat (of_char c)), gunzip = (\<lambda>bs. Some (map (\<lambda>b. char_of (unat b)) bs)), writable = (\<lambda>_ _. True),
     checked_arith = True, upstream = demo_reply, status_text = (\<lambda>_. ''Service Unavailable''),
     json_text = as_str, parse_json = (\<lambda>t. Some (JString t))\<rparr>"

definition demo_proxy :: "(bytes \<Rightarrow> bytes option) proxy" where
  "demo_proxy = \<lparr>px_url = ''http://node'', px_offline = False, px_empty = False,
     px_cache = \<lparr>c_balance = Map.empty, c_nonce = Map.empty, c_storage = Map.empty, c_code = Map.empty,
       c_blocks = Map.empty, c_txs = Map.empty\<rparr>, px_calls = [], px_sleeps = []\<rparr>"

lemma char_digit_hex: "d < 16 \<Longrightarrow> char_digit (hex_char d) = d"
proof -
  have "\<forall>d \<in> set [0..<16]. char_digit (hex_char d) = d" by code_simp
  then show "d < 16 \<Longrightarrow> char_digit (hex_char d) = d" by simp
qed

lemma text_num_hex_chars: "text_num (hex_chars k n) = n mod 16 ^ k"
proof (induction k arbitrary: n)
  case (Suc k)
  have "n mod 16 ^ Suc k = n div 16 mod 16 ^ k * 16 + n mod 16" by (simp add: mod_mult2_eq)
  then show ?case using Suc.IH [of "n div 16"] by (simp add: text_num_def char_digit_hex)
qed (simp add: text_num_def)

lemma to_be_mod: "to_be k (n mod 256 ^ k) = to_be k n"
  using be_nat_to_be [of k n] to_be_be_nat [of "to_be k n"] by simp

lemma demo_hex_ok: "hex_ok demo_env"
proof -
  have "to_be k (text_num (hex_chars (2 * k) n)) = to_be k n" for k n
    using to_be_mod [of k n] by (simp add: text_num_hex_chars power_mult)
  then show ?thesis by (simp add: hex_ok_def demo_env_def)
qed

lemma demo_kv_ok: "kv_ok demo_env"
  by (simp add: kv_ok_def demo_env_def)

lemma char_byte: "char_of (unat (word_of_nat (of_char c) :: byte)) = c"
  by (simp add: unat_of_nat take_bit_nat_def)

lemma demo_gz_ok: "gz_ok demo_env"
  by (simp add: gz_ok_def demo_env_def comp_def char_byte)

section \<open>Retries\<close>

text \<open>C26. A forwarded request is sent at most 30 times, to the URL that was configured when it
  started; every failed attempt but the last was one worth repeating, the last attempt decides
  the result, and the pauses between them are 1, 2, 4, 8, 16 and 32 seconds and 20 seconds from
  then on. It ends without a panic.\<close>

theorem forward_attempts:
  assumes "forward E body s = (r, t)"
  shows "\<exists>n < 30. px_calls t = px_calls s @ replicate (Suc n) (px_url s, body) \<and>
    px_sleeps t = px_sleeps s @ take n ([1000, 2000, 4000, 8000, 16000, 32000] @ replicate 23 20000) \<and>
    px_cache t = px_cache s \<and> r = outcome_of E (px_url s) body s n \<and>
    (\<forall>i < n. \<exists>e. outcome_of E (px_url s) body s i = Err e \<and> is_retryable e) \<and>
    (\<forall>e. r = Err e \<longrightarrow> is_retryable e \<longrightarrow> n = 29) \<and> r \<noteq> Panic \<and> r \<noteq> OutOfFuel"
proof -
  obtain n where n: "n < 30" "t = called (px_url s) body (Suc n) n s" "r = outcome_of E (px_url s) body s n"
    and again: "\<forall>i < n. try_again (outcome_of E (px_url s) body s i)" "try_again r \<longrightarrow> n = 29"
    using forward_runs [OF assms] by blast
  have all: "map pause_after [0..<29] = [1000, 2000, 4000, 8000, 16000, 32000] @ replicate 23 20000" by code_simp
  have "take n [0..<29] = [0..<n]" using n(1) by (simp add: take_upt)
  then have "map pause_after [0..<n] = take n (map pause_after [0..<29])" by (simp add: take_map)
  moreover have "\<exists>e. outcome_of E (px_url s) body s i = Err e \<and> is_retryable e" if "i < n" for i
    using again(1) that by (cases "outcome_of E (px_url s) body s i") auto
  moreover have "r \<noteq> Panic" "r \<noteq> OutOfFuel" using forward_effect(1) [OF assms] by auto
  ultimately show ?thesis
    using n again(2) unfolding all by (intro exI [of _ n]) (auto simp: called_def)
qed

theorem forward_attempts_witness:
  "\<exists>r t n. forward demo_env JNull demo_proxy = (r, t) \<and> n < 30 \<and>
    px_calls t = replicate (Suc n) (''http://node'', JNull) \<and> (\<forall>e. r = Err e \<longrightarrow> is_retryable e \<longrightarrow> n = 29)"
proof -
  obtain r t where run: "forward demo_env JNull demo_proxy = (r, t)" by fastforce
  from forward_attempts [OF this] run show ?thesis by (auto simp: demo_proxy_def)
qed

section \<open>Requests\<close>

definition rpc_request :: "json \<Rightarrow> string \<Rightarrow> json list \<Rightarrow> json" where
  "rpc_request rid method params = JObject [(''jsonrpc'', JString ''2.0''), (''id'', rid),
     (''method'', JString method), (''params'', JArray params)]"

lemma handle_request:
  "handle_jsonrpc E (rpc_request rid method params) s =
     (if px_empty s \<or> is_latest (JArray params) then forward_and_respond E (rpc_request rid method params) s
      else handle_method E (rpc_request rid method params) method (JArray params) rid s)"
  by (simp add: handle_jsonrpc_def rpc_request_def bindM_def getsM_def Let_def)

lemma str_param_simps [simp]:
  "str_param (JArray (JString a # vs)) 0 = Some a"
  "str_param (JArray (v # JString b # vs)) (Suc 0) = Some b"
  "str_param (JArray (v # w # JString c # vs)) 2 = Some c"
  by (simp_all add: str_param_def)

lemma is_latest_simp: "is_latest (JArray (JString a # vs)) \<longleftrightarrow> a = ''latest'' \<or> a = ''pending'' \<or> a = ''earliest''"
  by (simp add: is_latest_def)

lemmas dispatch = handle_request handle_method_def Let_def

lemma remember_shape: "\<exists>c. remember m s = (Ok (), s\<lparr>px_cache := c\<rparr>)"
  by (auto simp: remember_eq)

text \<open>The configuration stays as it is.\<close>

definition config_kept :: "'kv proxy \<Rightarrow> 'kv proxy \<Rightarrow> bool" where
  "config_kept s s' \<longleftrightarrow> px_empty s' = px_empty s \<and> px_offline s' = px_offline s"

interpretation config: step_relation config_kept
  by unfold_locales (simp_all add: config_kept_def)

lemma config_steps:
  "preserves config_kept (forward E body)" "preserves config_kept (on_cache m)" "preserves config_kept (remember c)"
  by (auto simp: preserves_def config_kept_def on_cache_def remember_eq dest: forward_effect split: prod.splits)

lemmas config_intros = config.preserves_bind config.preserves_seq config.preserves_catch config.preserves_pure
  config.preserves_branch config_steps

lemma config_cases:
  "(\<And>s. preserves config_kept (f s)) \<Longrightarrow> preserves config_kept k \<Longrightarrow>
    preserves config_kept (case x of None \<Rightarrow> k | Some None \<Rightarrow> k | Some (Some s) \<Rightarrow> f s)"
  by (auto split: option.split)

lemma handle_jsonrpc_config: "preserves config_kept (handle_jsonrpc E body)"
  unfolding handle_jsonrpc_def handle_method_def handle_storage_at_def handle_balance_def handle_tx_count_def
    handle_code_def handle_block_by_hash_def handle_block_by_number_def handle_tx_def handle_receipt_def
    forward_and_respond_def cached_text_def cached_json_def cache_miss_and_forward_def remember_block_def
  by (intro config_intros)

lemma handle_keeps_empty: "handle_jsonrpc E body s = (Ok resp, s') \<Longrightarrow> px_empty s' = px_empty s"
  using preservesD [OF handle_jsonrpc_config] by (fastforce simp: config_kept_def)

text \<open>The stores accept what they are given.\<close>

definition stores_work :: "('kv, 'a) cache_env_scheme \<Rightarrow> bool" where
  "stores_work E \<longleftrightarrow> (\<forall>p. kv_open E p \<noteq> None) \<and> (\<forall>db k v. kv_insert E db k v \<noteq> None)"

lemma puts_work:
  assumes "stores_work E"
  shows "fst (put_storage_at E a sl b v c) = Ok ()" "fst (put_balance E a b v c) = Ok ()"
    "fst (put_tx_count E a b v c) = Ok ()"
proof -
  obtain fresh where "kv_open E (normalize_hex a @ ''.yak'') = Some fresh"
    using assms unfolding stores_work_def by blast
  then have "\<exists>db. storage_of E c (normalize_hex a) = Ok db"
    by (cases "c_storage c (normalize_hex a)") (simp_all add: storage_of_def)
  then obtain db where db: "storage_of E c (normalize_hex a) = Ok db" by blast
  obtain db' where "kv_insert E db (storage_key E sl b) (pad32 E v) = Some db'"
    using assms unfolding stores_work_def by blast
  then show "fst (put_storage_at E a sl b v c) = Ok ()"
    by (simp add: put_storage_at_def bindM_def storage_db_eq db insert_kv_def liftM_def modifyM_def)
  show "fst (put_balance E a b v c) = Ok ()" "fst (put_tx_count E a b v c) = Ok ()"
    using assms by (auto simp: put_balance_def put_tx_count_def insert_kv_def monad_defs stores_work_def split: option.splits)
qed


lemma demo_stores_work: "stores_work demo_env"
  by (simp add: stores_work_def demo_env_def)




text \<open>A balance or a transaction count that was answered with a quantity is answered with it again,
  without a call upstream, whatever the block parameter names: also \<open>latest\<close>.\<close>

theorem repeated_account_request:
  assumes E: "kv_ok E" "hex_ok E" "stores_work E"
    and s: "\<not> px_empty s" "address \<notin> {''latest'', ''pending'', ''earliest''}"
    and m: "method = ''eth_getBalance'' \<or> method = ''eth_getTransactionCount''"
    and run: "handle_jsonrpc E (rpc_request i method [JString address, JString block]) s = (Ok resp, s1)"
    and ans: "answered resp (JString (quantity n))"
  shows "\<exists>s2. handle_jsonrpc E (rpc_request j method [JString address, JString block]) s1
      = (Ok (jsonrpc_ok j (JString (quantity n))), s2) \<and> px_calls s2 = px_calls s1"
proof -
  let ?k = "(address, block)" and ?t = "quantity n"
  let ?f = "\<lambda>put result. case as_str result of Some val \<Rightarrow> remember (put E address block val) | None \<Rightarrow> returnM ()"
  have env: "checked_kv E = E" using E(1) by simp
  have shape: "\<exists>c. ?f put v s = (Ok (), s\<lparr>px_cache := c\<rparr>)"
    for put :: "'a proxy_env \<Rightarrow> string \<Rightarrow> string \<Rightarrow> string \<Rightarrow> ('a, unit) cache_m" and v s
    using remember_shape by (auto simp: returnM_def split: option.split intro: exI [of _ "px_cache s"])
  have kept: "encode_quantity E (decode_hex_compact E ?t) = ?t" using E(2) by (rule quantity_roundtrip)
  have empty: "\<not> px_empty s1" using handle_keeps_empty [OF run] s(1) by simp
  show ?thesis
  proof (cases "method = ''eth_getBalance''")
    case True
    have handler: "handle_jsonrpc E (rpc_request i method [JString address, JString block]) s'
        = cached_text (get_balance E address block) i
            (cache_miss_and_forward E (rpc_request i method [JString address, JString block]) i (?f put_balance)) s'"
      if "\<not> px_empty s'" for i s'
      using that s(2) by (simp add: True dispatch is_latest_simp handle_balance_def)
    have entry: "fst (get_balance E address block (px_cache s1)) = Ok (Some ?t)"
      using balances_served.text_entry [where s = s and k = ?k and E = E and Ea = E and f = "?f put_balance" and t = ?t,
          OF _ _ ans shape [of put_balance]] run handler [OF s(1)] puts_work(2) [OF E(3)] kept
      by (simp add: env)
    from handler [OF empty] show ?thesis
      using balances_served.text_hit_calls [where E = E and k = ?k and s = s1 and t = ?t] entry by (simp add: env)
  next
    case False
    then have named: "method = ''eth_getTransactionCount''" using m by blast
    have handler: "handle_jsonrpc E (rpc_request i method [JString address, JString block]) s'
        = cached_text (get_tx_count E address block) i
            (cache_miss_and_forward E (rpc_request i method [JString address, JString block]) i (?f put_tx_count)) s'"
      if "\<not> px_empty s'" for i s'
      using that s(2) by (simp add: named dispatch is_latest_simp handle_tx_count_def)
    have entry: "fst (get_tx_count E address block (px_cache s1)) = Ok (Some ?t)"
      using nonces_served.text_entry [where s = s and k = ?k and E = E and Ea = E and f = "?f put_tx_count" and t = ?t,
          OF _ _ ans shape [of put_tx_count]] run handler [OF s(1)] puts_work(3) [OF E(3)] kept
      by (simp add: env)
    from handler [OF empty] show ?thesis
      using nonces_served.text_hit_calls [where E = E and k = ?k and s = s1 and t = ?t] entry by (simp add: env)
  qed
qed

definition demo_answer :: response where
  "demo_answer = json_response 200 (JObject [(''jsonrpc'', JString ''2.0''), (''id'', JNumber ''1''),
     (''result'', JString (quantity 5))])"

lemma demo_answered: "answered demo_answer (JString (quantity 5))"
  by (simp add: demo_answer_def answered_json_response)

lemma demo_answers:
  "fst (handle_jsonrpc demo_env (rpc_request JNull ''eth_getBalance'' [JString ''0x12'', JString ''latest'']) demo_proxy) = Ok demo_answer"
  "fst (handle_jsonrpc demo_env (rpc_request JNull ''eth_getCode'' [JString ''0x12'', JString ''0x1'']) demo_proxy) = Ok demo_answer"
  "fst (handle_jsonrpc demo_env (rpc_request JNull ''eth_getTransactionReceipt'' [JString ''0x12'']) demo_proxy) = Ok demo_answer"
  by code_simp+

lemma demo_not_empty: "\<not> px_empty demo_proxy" "address = ''0x12'' \<Longrightarrow> address \<notin> {''latest'', ''pending'', ''earliest''}"
  by (simp_all add: demo_proxy_def)

theorem repeated_account_request_witness:
  "\<exists>s1 s2. handle_jsonrpc demo_env (rpc_request JNull ''eth_getBalance'' [JString ''0x12'', JString ''latest'']) demo_proxy
      = (Ok demo_answer, s1) \<and>
     handle_jsonrpc demo_env (rpc_request JNull ''eth_getBalance'' [JString ''0x12'', JString ''latest'']) s1
      = (Ok (jsonrpc_ok JNull (JString (quantity 5))), s2) \<and> px_calls s2 = px_calls s1"
proof -
  obtain s1 where run: "handle_jsonrpc demo_env (rpc_request JNull ''eth_getBalance'' [JString ''0x12'', JString ''latest''])
      demo_proxy = (Ok demo_answer, s1)"
    using demo_answers(1) by (metis prod.collapse)
  from repeated_account_request [OF demo_kv_ok demo_hex_ok demo_stores_work demo_not_empty(1) _ _ run demo_answered, of JNull] run
  show ?thesis by auto
qed

text \<open>The file system lets the proxy write its files.\<close>

definition files_work :: "('kv, 'a) cache_env_scheme \<Rightarrow> bool" where
  "files_work E \<longleftrightarrow> gz_ok E \<and> (\<forall>p n. writable E p n)"

lemma file_puts_work:
  assumes "files_work E"
  shows "fst (put_code E a v c) = Ok ()" "fst (put_tx E a v c) = Ok ()" "fst (put_receipt E a v c) = Ok ()"
    "kept_file E v = Ok (Some v)"
  using assms kept_file_id
  by (auto simp: files_work_def put_code_def put_tx_def put_receipt_def on_dir_def write_gz_string_def split: prod.splits)

lemma demo_files_work: "files_work demo_env"
  using demo_gz_ok by (simp add: files_work_def demo_env_def)

text \<open>Code is cached by address alone: after a request for the code of an account at one block was
  answered, the request for its code at any other block is answered with the same code, without a
  call upstream.\<close>

theorem code_answer_ignores_block:
  assumes E: "files_work E" and s: "\<not> px_empty s" "address \<notin> {''latest'', ''pending'', ''earliest''}" "plain (c_code (px_cache s))"
    and run: "handle_jsonrpc E (rpc_request i ''eth_getCode'' [JString address, JString block]) s = (Ok resp, s1)"
    and ans: "answered resp (JString code)"
  shows "\<exists>s2. handle_jsonrpc E (rpc_request j ''eth_getCode'' [JString address, JString block']) s1
      = (Ok (jsonrpc_ok j (JString code)), s2) \<and> px_calls s2 = px_calls s1"
proof -
  let ?f = "\<lambda>result. case as_str result of Some code \<Rightarrow> remember (put_code E address code) | None \<Rightarrow> returnM ()"
  have shape: "\<exists>c. ?f v s = (Ok (), s\<lparr>px_cache := c\<rparr>)" for v s
    using remember_shape by (auto simp: returnM_def split: option.split intro: exI [of _ "px_cache s"])
  have handler: "handle_jsonrpc E (rpc_request i ''eth_getCode'' [JString address, JString block]) s'
      = cached_text (get_code E address) i
          (cache_miss_and_forward E (rpc_request i ''eth_getCode'' [JString address, JString block]) i ?f) s'"
    if "\<not> px_empty s'" for i s' block
    using that s(2) by (simp add: dispatch is_latest_simp handle_code_def)
  have entry: "fst (get_code E address (px_cache s1)) = Ok (Some code)"
    using codes_served.text_entry [where s = s and k = address and E = E and Ea = E and f = ?f and t = code, OF s(3) _ ans shape]
      run handler [OF s(1)] file_puts_work(1,4) [OF E] by simp
  have "\<not> px_empty s1" using handle_keeps_empty [OF run] s(1) by simp
  from handler [OF this] show ?thesis using codes_served.text_hit_calls [OF entry] by simp
qed

theorem code_answer_ignores_block_witness:
  "\<exists>s1 s2. handle_jsonrpc demo_env (rpc_request JNull ''eth_getCode'' [JString ''0x12'', JString ''0x1'']) demo_proxy
      = (Ok demo_answer, s1) \<and>
     handle_jsonrpc demo_env (rpc_request JNull ''eth_getCode'' [JString ''0x12'', JString ''0x2'']) s1
      = (Ok (jsonrpc_ok JNull (JString (quantity 5))), s2) \<and> px_calls s2 = px_calls s1"
proof -
  obtain s1 where run: "handle_jsonrpc demo_env (rpc_request JNull ''eth_getCode'' [JString ''0x12'', JString ''0x1''])
      demo_proxy = (Ok demo_answer, s1)"
    using demo_answers(2) by (metis prod.collapse)
  have "plain (c_code (px_cache demo_proxy))" by (simp add: plain_def demo_proxy_def)
  from code_answer_ignores_block [OF demo_files_work demo_not_empty(1) _ this run demo_answered, of JNull "''0x2''"] run
  show ?thesis by auto
qed

text \<open>A transaction or a receipt is asked for once: after the request for it was answered with a
  value that is not \<open>null\<close>, the same request is answered with that value again, without a call
  upstream, as long as the value survives being printed and parsed.\<close>

theorem repeated_transaction_request:
  assumes E: "files_work E" "parse_json E (text_of E v) = Some v"
    and s: "\<not> px_empty s" "hash \<notin> {''latest'', ''pending'', ''earliest''}" "plain (c_txs (px_cache s))"
    and m: "method = ''eth_getTransactionByHash'' \<or> method = ''eth_getTransactionReceipt''"
    and run: "handle_jsonrpc E (rpc_request i method [JString hash]) s = (Ok resp, s1)"
    and ans: "answered resp v" "v \<noteq> JNull"
  shows "\<exists>s2. handle_jsonrpc E (rpc_request j method [JString hash]) s1 = (Ok (jsonrpc_ok j v), s2) \<and> px_calls s2 = px_calls s1"
proof -
  let ?f = "\<lambda>put result. if result \<noteq> JNull then remember (put E hash (text_of E result)) else returnM ()"
  have shape: "\<exists>c. ?f put v s = (Ok (), s\<lparr>px_cache := c\<rparr>)"
    for put :: "'a proxy_env \<Rightarrow> string \<Rightarrow> string \<Rightarrow> ('a, unit) cache_m" and v s
    using remember_shape by (auto simp: returnM_def intro: exI [of _ "px_cache s"])
  have empty: "\<not> px_empty s1" using handle_keeps_empty [OF run] s(1) by simp
  show ?thesis
  proof (cases "method = ''eth_getTransactionByHash''")
    case True
    have handler: "handle_jsonrpc E (rpc_request i method [JString hash]) s' = cached_json E (get_tx E hash) i
          (cache_miss_and_forward E (rpc_request i method [JString hash]) i (?f put_tx)) s'" if "\<not> px_empty s'" for i s'
      using that s(2) by (simp add: True dispatch is_latest_simp handle_tx_def)
    have "\<exists>t. fst (get_tx E hash (px_cache s1)) = Ok (Some t) \<and> parse_json E t = Some v"
      using txs_served.json_entry [where s = s and k = hash and E = E and Ea = E and f = "?f put_tx", OF s(3) _ ans(1) shape [of _ put_tx]]
        run handler [OF s(1)] file_puts_work(2,4) [OF E(1)] E(2) ans(2) by simp
    then obtain t where t: "fst (get_tx E hash (px_cache s1)) = Ok (Some t)" "parse_json E t = Some v" by blast
    from handler [OF empty] show ?thesis using txs_served.json_hit_calls [OF t] by simp
  next
    case False
    then have named: "method = ''eth_getTransactionReceipt''" using m by blast
    have handler: "handle_jsonrpc E (rpc_request i method [JString hash]) s' = cached_json E (get_receipt E hash) i
          (cache_miss_and_forward E (rpc_request i method [JString hash]) i (?f put_receipt)) s'" if "\<not> px_empty s'" for i s'
      using that s(2) by (simp add: named dispatch is_latest_simp handle_receipt_def)
    have "\<exists>t. fst (get_receipt E hash (px_cache s1)) = Ok (Some t) \<and> parse_json E t = Some v"
      using receipts_served.json_entry [where s = s and k = hash and E = E and Ea = E and f = "?f put_receipt",
          OF s(3) _ ans(1) shape [of _ put_receipt]]
        run handler [OF s(1)] file_puts_work(3,4) [OF E(1)] E(2) ans(2) by simp
    then obtain t where t: "fst (get_receipt E hash (px_cache s1)) = Ok (Some t)" "parse_json E t = Some v" by blast
    from handler [OF empty] show ?thesis using receipts_served.json_hit_calls [OF t] by simp
  qed
qed

theorem repeated_transaction_request_witness:
  "\<exists>s1 s2. handle_jsonrpc demo_env (rpc_request JNull ''eth_getTransactionReceipt'' [JString ''0x12'']) demo_proxy
      = (Ok demo_answer, s1) \<and>
     handle_jsonrpc demo_env (rpc_request JNull ''eth_getTransactionReceipt'' [JString ''0x12'']) s1
      = (Ok (jsonrpc_ok JNull (JString (quantity 5))), s2) \<and> px_calls s2 = px_calls s1"
proof -
  obtain s1 where run: "handle_jsonrpc demo_env (rpc_request JNull ''eth_getTransactionReceipt'' [JString ''0x12''])
      demo_proxy = (Ok demo_answer, s1)"
    using demo_answers(3) by (metis prod.collapse)
  have "plain (c_txs (px_cache demo_proxy))" by (simp add: plain_def demo_proxy_def)
  moreover have "parse_json demo_env (text_of demo_env (JString (quantity 5))) = Some (JString (quantity 5))"
    by (simp add: text_of_def demo_env_def)
  ultimately show ?thesis
    using repeated_transaction_request [OF demo_files_work _ demo_not_empty(1) _ _ _ run demo_answered, of JNull] run by auto
qed

section \<open>Offline\<close>







section \<open>What requests leave in the cache\<close>

text \<open>Two caches that answer every lookup alike.\<close>

definition same_answers :: "'kv proxy_env \<Rightarrow> 'kv cache \<Rightarrow> 'kv cache \<Rightarrow> bool" where
  "same_answers E c c' \<longleftrightarrow>
     (\<forall>a sl b. fst (get_storage_at E a sl b c') = fst (get_storage_at E a sl b c)) \<and>
     (\<forall>a b. fst (get_balance E a b c') = fst (get_balance E a b c)) \<and>
     (\<forall>a b. fst (get_tx_count E a b c') = fst (get_tx_count E a b c)) \<and>
     (\<forall>a. fst (get_code E a c') = fst (get_code E a c)) \<and>
     (\<forall>h. fst (get_block_by_hash E h c') = fst (get_block_by_hash E h c)) \<and>
     (\<forall>n. fst (get_block_by_number E n c') = fst (get_block_by_number E n c)) \<and>
     (\<forall>h. fst (get_tx E h c') = fst (get_tx E h c)) \<and>
     (\<forall>h. fst (get_receipt E h c') = fst (get_receipt E h c))"

lemma same_answers_refl [simp]: "same_answers E c c"
  by (simp add: same_answers_def)

text \<open>Only the stores that are open may differ after a lookup.\<close>

lemma lookup_same:
  "snd (get_balance E a b c) = c" "snd (get_tx_count E a b c) = c" "snd (get_code E a c) = c"
  "snd (get_block_by_hash E h c) = c" "snd (get_block_by_number E n c) = c" "snd (get_tx E h c) = c"
  "snd (get_receipt E h c) = c"
  by (auto simp: get_balance_def get_tx_count_def get_code_def get_block_by_hash_def get_block_by_number_def
      get_tx_def get_receipt_def on_dir_def monad_defs split: res.splits)

lemma get_storage_state: "snd (get_storage_at E a sl b c) = snd (storage_db E a c)"
  by (cases "storage_db E a c"; cases "fst (storage_db E a c)")
    (auto simp: get_storage_at_def monad_defs split: res.splits)

lemma storage_db_fields:
  "c_balance (snd (storage_db E a c)) = c_balance c" "c_nonce (snd (storage_db E a c)) = c_nonce c"
  "c_code (snd (storage_db E a c)) = c_code c" "c_blocks (snd (storage_db E a c)) = c_blocks c"
  "c_txs (snd (storage_db E a c)) = c_txs c"
  by (simp_all add: storage_db_eq split: res.split)

lemma open_same_answers: "same_answers E c (snd (get_storage_at E a sl b c))"
proof -
  have "storage_of E (snd (storage_db E a c)) = storage_of E c"
    using storage_of_opened [of E a c "fst (storage_db E a c)"] by (simp add: fun_eq_iff)
  then show ?thesis
    by (simp add: get_storage_state same_answers_def fst_get_storage_at get_balance_def get_tx_count_def get_code_def
        get_block_by_hash_def get_block_by_number_def get_tx_def get_receipt_def on_dir_def monad_defs storage_db_fields split: res.split)
qed

lemma cached_unanswered:
  assumes f: "\<And>v s. \<exists>c. f v s = (Ok (), s\<lparr>px_cache := c\<rparr>)" and no: "\<And>v. \<not> answered resp v"
  shows "cached_text look rid (cache_miss_and_forward E body rid f) s = (Ok resp, t) \<Longrightarrow> px_cache t = snd (look (px_cache s))"
    and "cached_json E look rid (cache_miss_and_forward E body rid f) s = (Ok resp, t) \<Longrightarrow> px_cache t = snd (look (px_cache s))"
proof -
  obtain r c where l: "look (px_cache s) = (r, c)" by fastforce
  have miss: "px_cache t = c" if "cache_miss_and_forward E body rid f (s\<lparr>px_cache := c\<rparr>) = (Ok resp, t)"
    by (rule miss_outcome [OF f that]) (use no in auto)
  note simps = cached_text_def cached_json_def on_cache_def bindM_def l returnM_def
  show "cached_text look rid (cache_miss_and_forward E body rid f) s = (Ok resp, t) \<Longrightarrow> px_cache t = snd (look (px_cache s))"
    using no miss by (auto simp: simps split: option.splits res.splits)
  show "cached_json E look rid (cache_miss_and_forward E body rid f) s = (Ok resp, t) \<Longrightarrow> px_cache t = snd (look (px_cache s))"
    using no miss by (auto simp: simps split: option.splits res.splits)
qed

text \<open>What a handler does with the result of a miss.\<close>

lemma on_result_shapes:
  "\<exists>c. remember m s = (Ok (), s\<lparr>px_cache := c\<rparr>)"
  "\<exists>c. (case as_str v of Some t \<Rightarrow> remember (g t) | None \<Rightarrow> returnM ()) s = (Ok (), s\<lparr>px_cache := c\<rparr>)"
  "\<exists>c. (if b then remember m else returnM ()) s = (Ok (), s\<lparr>px_cache := c\<rparr>)"
  "\<exists>c. remember_block E v s = (Ok (), s\<lparr>px_cache := c\<rparr>)"
proof -
  show m: "\<exists>c. remember m s = (Ok (), s\<lparr>px_cache := c\<rparr>)" for m by (rule remember_shape)
  have r: "\<exists>c. returnM () s = (Ok () :: (unit, forward_error) res, s\<lparr>px_cache := c\<rparr>)"
    by (rule exI [of _ "px_cache s"]) (simp add: returnM_def)
  show "\<exists>c. (case as_str v of Some t \<Rightarrow> remember (g t) | None \<Rightarrow> returnM ()) s = (Ok (), s\<lparr>px_cache := c\<rparr>)"
    using m r by (cases "as_str v") simp_all
  show "\<exists>c. (if b then remember m else returnM ()) s = (Ok (), s\<lparr>px_cache := c\<rparr>)" using m r by simp
  show "\<exists>c. remember_block E v s = (Ok (), s\<lparr>px_cache := c\<rparr>)"
    using m r unfolding remember_block_def by (auto split: option.split)
qed

lemma forward_keeps_cache: "forward_and_respond E body s = (Ok resp, t) \<Longrightarrow> px_cache t = px_cache s"
  by (auto simp: forward_and_respond_def catchM_def returnM_def dest: forward_effect(2) split: prod.splits res.splits)

lemma handle_method_unanswered:
  assumes no: "\<And>v. \<not> answered resp v" and run: "handle_method E body method params rid s = (Ok resp, t)"
  shows "same_answers E (px_cache s) (px_cache t)"
proof -
  note texts = cached_unanswered(1) [OF _ no] and js = cached_unanswered(2) [OF _ no]
  have storage: "same_answers E (px_cache s) (px_cache t)" if "handle_storage_at E body rid a sl b s = (Ok resp, t)" for a sl b
    using texts [OF on_result_shapes(1) that [unfolded handle_storage_at_def]] open_same_answers [of E "px_cache s"] by simp
  have balance: "px_cache t = px_cache s" if "handle_balance E body rid a b s = (Ok resp, t)" for a b
    using texts [OF on_result_shapes(2) that [unfolded handle_balance_def]] by (simp add: lookup_same)
  have count: "px_cache t = px_cache s" if "handle_tx_count E body rid a b s = (Ok resp, t)" for a b
    using texts [OF on_result_shapes(2) that [unfolded handle_tx_count_def]] by (simp add: lookup_same)
  have code: "px_cache t = px_cache s" if "handle_code E body rid a s = (Ok resp, t)" for a
    using texts [OF on_result_shapes(2) that [unfolded handle_code_def]] by (simp add: lookup_same)
  have block: "px_cache t = px_cache s" if "handle_block_by_hash E body rid a s = (Ok resp, t)" for a
    using js [OF on_result_shapes(4) that [unfolded handle_block_by_hash_def]] by (simp add: lookup_same)
  have number: "px_cache t = px_cache s" if "handle_block_by_number E body rid a s = (Ok resp, t)" for a
    using js [OF on_result_shapes(4) that [unfolded handle_block_by_number_def]] by (simp add: lookup_same)
  have tx: "px_cache t = px_cache s" if "handle_tx E body rid a s = (Ok resp, t)" for a
    using js [OF on_result_shapes(3) that [unfolded handle_tx_def]] by (simp add: lookup_same)
  have receipt: "px_cache t = px_cache s" if "handle_receipt E body rid a s = (Ok resp, t)" for a
    using js [OF on_result_shapes(3) that [unfolded handle_receipt_def]] by (simp add: lookup_same)
  show ?thesis
    using run unfolding handle_method_def Let_def
    by (auto split: if_splits option.splits dest: storage balance count code block number tx receipt forward_keeps_cache)
qed

text \<open>Only answers are cached: when the response of the proxy carries an error or no result, every
  lookup in the cache, of whatever kind and key, gives what it gave before the request.\<close>

theorem unanswered_request_keeps_cache:
  assumes "handle_jsonrpc E body s = (Ok resp, t)" "\<And>v. \<not> answered resp v"
  shows "same_answers E (px_cache s) (px_cache t)"
proof -
  have "same_answers E (px_cache s) (px_cache t)" if "forward_and_respond E body s = (Ok resp, t)"
    using forward_keeps_cache [OF that] by simp
  with assms(1) show ?thesis
    by (auto simp: handle_jsonrpc_def Let_def bindM_def getsM_def returnM_def split: if_splits
        intro: handle_method_unanswered [OF assms(2)])
qed

theorem unanswered_request_keeps_cache_witness:
  "\<exists>resp t. handle_jsonrpc demo_env (rpc_request JNull ''eth_getCode'' [JString ''0x12'', JString ''0x1''])
      (demo_proxy\<lparr>px_offline := True\<rparr>) = (Ok resp, t) \<and>
     same_answers demo_env (px_cache demo_proxy) (px_cache t)"
proof -
  let ?resp = "jsonrpc_err JNull ''-32001'' ''Server running in offline mode''"
  have "fst (handle_jsonrpc demo_env (rpc_request JNull ''eth_getCode'' [JString ''0x12'', JString ''0x1''])
      (demo_proxy\<lparr>px_offline := True\<rparr>)) = Ok ?resp" by code_simp
  then obtain t where run: "handle_jsonrpc demo_env (rpc_request JNull ''eth_getCode'' [JString ''0x12'', JString ''0x1''])
      (demo_proxy\<lparr>px_offline := True\<rparr>) = (Ok ?resp, t)" by (metis prod.collapse)
  from unanswered_request_keeps_cache [OF this not_answered(1)] run show ?thesis by auto
qed

text \<open>The requests of a session, one after the other.\<close>

fun serve :: "'kv proxy_env \<Rightarrow> json list \<Rightarrow> 'kv proxy \<Rightarrow> 'kv proxy" where
  "serve E [] s = s"
| "serve E (body # bodies) s = serve E bodies (snd (handle_jsonrpc E body s))"

text \<open>The upstream node names block numbers without a dot, as hexadecimal numbers are.\<close>

definition plain_numbers :: "'kv proxy_env \<Rightarrow> bool" where
  "plain_numbers E \<longleftrightarrow> (\<forall>v n. from_upstream E v \<longrightarrow> json_get ''number'' v = Some (JString n) \<longrightarrow> CHR ''.'' \<notin> set n)"

definition block_links :: "'kv cache \<Rightarrow> bool" where
  "block_links c \<longleftrightarrow> linked (c_blocks c)"

lemma block_links_lookups:
  "block_links c \<Longrightarrow> block_links (snd (get_storage_at E a sl b c))"
  "block_links c \<Longrightarrow> block_links (snd (get_balance E a b c))"
  "block_links c \<Longrightarrow> block_links (snd (get_tx_count E a b c))"
  "block_links c \<Longrightarrow> block_links (snd (get_code E a c))"
  "block_links c \<Longrightarrow> block_links (snd (get_block_by_hash E a c))"
  "block_links c \<Longrightarrow> block_links (snd (get_block_by_number E a c))"
  "block_links c \<Longrightarrow> block_links (snd (get_tx E a c))"
  "block_links c \<Longrightarrow> block_links (snd (get_receipt E a c))"
  by (simp_all add: lookup_same get_storage_state block_links_def storage_db_fields)

lemma block_links_puts:
  "block_links c \<Longrightarrow> block_links (snd (put_storage_at E a sl b v c))"
  "block_links c \<Longrightarrow> block_links (snd (put_balance E a b v c))"
  "block_links c \<Longrightarrow> block_links (snd (put_tx_count E a b v c))"
  "block_links c \<Longrightarrow> block_links (snd (put_code E a v c))"
  "block_links c \<Longrightarrow> block_links (snd (put_tx E a v c))"
  "block_links c \<Longrightarrow> block_links (snd (put_receipt E a v c))"
  by (auto simp: block_links_def put_storage_at_def put_balance_def put_tx_count_def put_code_def put_tx_def
      put_receipt_def on_dir_def monad_defs storage_db_eq split: prod.splits res.splits)

lemma block_links_remember_block:
  assumes "plain_numbers E" "from_upstream E v" "block_links (px_cache s)"
  shows "block_links (px_cache (snd (remember_block E v s)))"
proof -
  have "block_links (snd (put_block E h n json c))" if "CHR ''.'' \<notin> set n" "block_links c" for h n json c
    using put_block_linked [of c n E h json] that by (simp add: block_links_def) (metis prod.collapse)
  moreover have "CHR ''.'' \<notin> set n" if "Option.bind (json_get ''number'' v) as_str = Some n" for n
  proof -
    from that obtain j where j: "json_get ''number'' v = Some j" "as_str j = Some n" by (auto simp: bind_eq_Some_conv)
    from j(2) have "j = JString n" by (cases j) auto
    with assms(1,2) j show ?thesis by (auto simp: plain_numbers_def)
  qed
  ultimately show ?thesis using assms(3)
    by (auto simp: remember_block_def remember_eq returnM_def split: option.split)
qed

lemma handle_method_links:
  assumes numbers: "plain_numbers E" and links: "block_links (px_cache s)"
    and run: "handle_method E body method params rid s = (r, t)"
  shows "block_links (px_cache t)"
proof -
  note texts = cached_keeps(1) [where P = block_links, OF _ links]
    and jsons = cached_keeps(2) [where P = block_links, OF _ links]
  have text_result: "block_links (px_cache (snd ((case as_str v of Some t \<Rightarrow> remember (g t) | None \<Rightarrow> returnM ()) s)))"
    if "\<And>t c. block_links c \<Longrightarrow> block_links (snd (g t c))" "block_links (px_cache s)" for v s and g :: "string \<Rightarrow> ('a, unit) cache_m"
    using that by (auto simp: remember_eq returnM_def split: option.split)
  have storage: "block_links (px_cache t)" if "handle_storage_at E body rid a sl b s = (r, t)" for a sl b
    by (rule texts [OF on_result_shapes(1) _ _ that [unfolded handle_storage_at_def]])
      (simp_all add: block_links_lookups block_links_puts remember_eq)
  have balance: "block_links (px_cache t)" if "handle_balance E body rid a b s = (r, t)" for a b
    by (rule texts [OF on_result_shapes(2) _ _ that [unfolded handle_balance_def]])
      (simp_all add: block_links_lookups block_links_puts text_result)
  have count: "block_links (px_cache t)" if "handle_tx_count E body rid a b s = (r, t)" for a b
    by (rule texts [OF on_result_shapes(2) _ _ that [unfolded handle_tx_count_def]])
      (simp_all add: block_links_lookups block_links_puts text_result)
  have code: "block_links (px_cache t)" if "handle_code E body rid a s = (r, t)" for a
    by (rule texts [OF on_result_shapes(2) _ _ that [unfolded handle_code_def]])
      (simp_all add: block_links_lookups block_links_puts text_result)
  have block: "block_links (px_cache t)" if "handle_block_by_hash E body rid a s = (r, t)" for a
    by (rule jsons [OF on_result_shapes(4) _ _ that [unfolded handle_block_by_hash_def]])
      (simp_all add: block_links_lookups block_links_remember_block [OF numbers])
  have number: "block_links (px_cache t)" if "handle_block_by_number E body rid a s = (r, t)" for a
    by (rule jsons [OF on_result_shapes(4) _ _ that [unfolded handle_block_by_number_def]])
      (simp_all add: block_links_lookups block_links_remember_block [OF numbers])
  have tx: "block_links (px_cache t)" if "handle_tx E body rid a s = (r, t)" for a
    by (rule jsons [OF on_result_shapes(3) _ _ that [unfolded handle_tx_def]])
      (simp_all add: block_links_lookups block_links_puts remember_eq returnM_def)
  have receipt: "block_links (px_cache t)" if "handle_receipt E body rid a s = (r, t)" for a
    by (rule jsons [OF on_result_shapes(3) _ _ that [unfolded handle_receipt_def]])
      (simp_all add: block_links_lookups block_links_puts remember_eq returnM_def)
  have other: "block_links (px_cache t)" if "forward_and_respond E body s = (r, t)"
    using that links
    by (auto simp: forward_and_respond_def catchM_def returnM_def dest: forward_effect(2) split: prod.splits res.splits)
  show ?thesis
    using run unfolding handle_method_def Let_def
    by (auto split: if_splits option.splits dest: storage balance count code block number tx receipt other)
qed

lemma serve_links:
  assumes "plain_numbers E" "block_links (px_cache s)"
  shows "block_links (px_cache (serve E bodies s))"
  using assms(2)
proof (induction bodies arbitrary: s)
  case (Cons body bodies)
  obtain r t where run: "handle_jsonrpc E body s = (r, t)" by fastforce
  have "block_links (px_cache t)" if "forward_and_respond E body s = (r, t)"
    using that Cons.prems
    by (auto simp: forward_and_respond_def catchM_def returnM_def dest: forward_effect(2) split: prod.splits res.splits)
  with run Cons.prems have "block_links (px_cache t)"
    by (auto simp: handle_jsonrpc_def Let_def bindM_def getsM_def returnM_def split: if_splits
        intro: handle_method_links [OF assms(1)])
  then show ?case using Cons.IH run by simp
qed simp

text \<open>C28. Whatever requests the proxy serves, a block number that is a link in the cache always leads to the
  file of a block: no link dangles.\<close>

theorem block_links_resolve:
  assumes "plain_numbers E" "linked (c_blocks (px_cache s))"
    and "c_blocks (px_cache (serve E bodies s)) n = Some (Link target)"
  shows "\<exists>bs. read_file 41 (c_blocks (px_cache (serve E bodies s))) n = Ok (Some bs)"
proof -
  have "block_links (px_cache (serve E bodies s))"
    by (rule serve_links [OF assms(1)]) (simp add: block_links_def assms(2))
  with assms(3) obtain bs where "c_blocks (px_cache (serve E bodies s)) target = Some (Content bs)"
    by (auto simp: block_links_def linked_def)
  from read_link [OF assms(3) this, of 41] show ?thesis by simp
qed

section \<open>Requests do not interfere\<close>

lemma text_num_hex_num: "text_num (hex_num n) = n"
  using text_num_hex_chars [of "length (hex_num n)" n] hex_num_bound [of n] by (simp flip: hex_num_as_chars)

lemma quantity_not_latest: "quantity n \<notin> {''latest'', ''pending'', ''earliest''}"
  by (simp add: quantity_def)

text \<open>A request for the storage of an account only touches the entry it names: for numbers written
  as quantities, the lookup of any other slot, block or account gives what it gave before.\<close>

theorem distinct_slots_do_not_interfere:
  assumes E: "kv_ok E" "hex_ok E" and bounds: "k < 2 ^ 256" "b < 2 ^ 64" "k' < 2 ^ 256" "b' < 2 ^ 64"
    and other: "(a, k, b) \<noteq> (a', k', b')"
    and run: "handle_jsonrpc E (rpc_request i ''eth_getStorageAt''
      [JString (quantity a), JString (quantity k), JString (quantity b)]) s = (r, t)"
  shows "fst (get_storage_at E (quantity a') (quantity k') (quantity b') (px_cache t)) =
    fst (get_storage_at E (quantity a') (quantity k') (quantity b') (px_cache s))"
proof -
  let ?P = "\<lambda>c. fst (get_storage_at E (quantity a') (quantity k') (quantity b') c) =
    fst (get_storage_at E (quantity a') (quantity k') (quantity b') (px_cache s))"
  let ?body = "rpc_request i ''eth_getStorageAt'' [JString (quantity a), JString (quantity k), JString (quantity b)]"
  have env: "checked_kv E = E" using E(1) by simp
  have names: "hex_num x = hex_num y \<longleftrightarrow> x = y" for x y
    using text_num_hex_num by metis
  have apart: "\<not> same_slot E (quantity a, quantity k, quantity b) (quantity a', quantity k', quantity b')"
    using other storage_key_inject [OF E(2) bounds(3,4,1,2)] by (auto simp: same_slot_def names)
  have put: "?P (snd (put_storage_at E (quantity a) (quantity k) (quantity b) v c))" if "?P c" for v c
  proof -
    obtain u c' where p: "put_storage_at E (quantity a) (quantity k) (quantity b) v c = (u, c')" by fastforce
    show ?thesis
    proof (cases "u = Ok ()")
      case True
      then show ?thesis
        using slots_cached.put_elsewhere [where E = E and k = "(quantity a, quantity k, quantity b)"
            and j = "(quantity a', quantity k', quantity b')"] p apart that by (simp add: env)
    next
      case False
      then have "c' = snd (storage_db E (quantity a) c)" using p by (auto simp: put_storage_at_def monad_defs split: prod.splits res.splits)
      then show ?thesis using p that open_same_answers [of E c "quantity a"] by (simp add: get_storage_state same_answers_def)
    qed
  qed
  show ?thesis
  proof (cases "px_empty s")
    case True
    then show ?thesis
      using run by (auto simp: handle_request forward_and_respond_def catchM_def returnM_def
          dest: forward_effect(2) split: prod.splits res.splits)
  next
    case False
    then have run: "handle_storage_at E ?body i (quantity a) (quantity k) (quantity b) s = (r, t)"
      using run quantity_not_latest [of a] by (simp add: dispatch is_latest_simp)
    show ?thesis
      by (rule cached_keeps(1) [where P = ?P, OF on_result_shapes(1) _ _ _ run [unfolded handle_storage_at_def]])
        (use put open_same_answers [of E] in \<open>auto simp: remember_eq same_answers_def\<close>)
  qed
qed

theorem block_links_resolve_witness:
  "\<exists>bs. read_file 41 (c_blocks (px_cache (serve demo_env [JNull]
     (demo_proxy\<lparr>px_cache := (px_cache demo_proxy)\<lparr>c_blocks := [''100'' \<mapsto> Link ''ab.tgz'', ''ab.tgz'' \<mapsto> Content [1]]\<rparr>\<rparr>))))
     ''100'' = Ok (Some bs)"
proof (rule block_links_resolve)
  show "plain_numbers demo_env"
    by (auto simp: plain_numbers_def from_upstream_def demo_env_def demo_reply_def split: if_splits)
  show "linked (c_blocks (px_cache (demo_proxy\<lparr>px_cache := (px_cache demo_proxy)\<lparr>c_blocks :=
      [''100'' \<mapsto> Link ''ab.tgz'', ''ab.tgz'' \<mapsto> Content [1]]\<rparr>\<rparr>)))"
    by (auto simp: linked_def tgz_def intro: exI [of _ "''ab''"] dest: arg_cong [of _ _ length] split: if_splits)
  show "c_blocks (px_cache (serve demo_env [JNull] (demo_proxy\<lparr>px_cache := (px_cache demo_proxy)\<lparr>c_blocks :=
      [''100'' \<mapsto> Link ''ab.tgz'', ''ab.tgz'' \<mapsto> Content [1]]\<rparr>\<rparr>))) ''100'' = Some (Link ''ab.tgz'')"
    by (simp add: handle_jsonrpc_def returnM_def)
qed

theorem distinct_slots_do_not_interfere_witness:
  "\<exists>r t. handle_jsonrpc demo_env (rpc_request JNull ''eth_getStorageAt'' [JString (quantity 18), JString (quantity 0), JString (quantity 256)])
      demo_proxy = (r, t) \<and>
     fst (get_storage_at demo_env (quantity 18) (quantity 1) (quantity 256) (px_cache t)) = Ok None"
proof -
  obtain r t where run: "handle_jsonrpc demo_env (rpc_request JNull ''eth_getStorageAt''
      [JString (quantity 18), JString (quantity 0), JString (quantity 256)]) demo_proxy = (r, t)" by fastforce
  have "fst (get_storage_at demo_env (quantity 18) (quantity 1) (quantity 256) (px_cache demo_proxy)) = Ok None"
    by code_simp
  with distinct_slots_do_not_interfere [OF demo_kv_ok demo_hex_ok _ _ _ _ _ run, of 1 256 18] run show ?thesis by simp
qed

end
