(* ===== verification/EthClientProps.thy ===== *)
theory EthClientProps
  imports EthClient ProxyProps
begin

text \<open>
  Properties of the JSON-RPC client: what it reads from a node that serves a state, alone and
  through the proxy, and which of its requests the proxy keeps.
\<close>

section \<open>The client and a node\<close>

text \<open>What the crates document: \<open>hex\<close>, radix 16 of \<open>U256\<close>, and the format of a key.\<close>

definition denotes :: "string \<Rightarrow> u256 \<Rightarrow> bool" where
  "denotes t w \<longleftrightarrow> (\<exists>k > 0. k \<le> 64 \<and> unat w < 16 ^ k \<and> t = hex_chars k (unat w))"

definition client_ok :: "('s, 'h, 'b) eth_env \<Rightarrow> bool" where
  "client_ok E \<longleftrightarrow> (\<forall>bs. ec_hex_encode E bs = hex_chars (2 * length bs) (be_nat bs)) \<and>
     (\<forall>k n. ec_hex_decode E (hex_chars (2 * k) n) = Some (to_be k n)) \<and>
     (\<forall>t w. denotes t w \<longrightarrow> ec_radix16 E t = Some w) \<and>
     (\<forall>w. \<exists>t. denotes t w \<and> ec_key_text E w = ''0x'' @ t)"

text \<open>The state a node serves at a block, and what it means that it serves it.\<close>

record node_state =
  n_balance :: "addr160 \<Rightarrow> u256"
  n_nonce :: "addr160 \<Rightarrow> u256"
  n_code :: "addr160 \<Rightarrow> bytes"
  n_slot :: "addr160 \<Rightarrow> u256 \<Rightarrow> u256"

definition address_text :: "addr160 \<Rightarrow> string" where
  "address_text a = ''0x'' @ hex_chars 40 (unat a)"

definition code_text :: "bytes \<Rightarrow> string" where
  "code_text bs = ''0x'' @ hex_chars (2 * length bs) (be_nat bs)"

definition serves :: "(json \<Rightarrow> string \<Rightarrow> bool) \<Rightarrow> string \<Rightarrow> node_state \<Rightarrow> bool" where
  "serves answers block_hash W \<longleftrightarrow> (\<forall>a.
     answers (balance_request block_hash (address_text a)) (quantity (unat (n_balance W a))) \<and>
     answers (nonce_request block_hash (address_text a)) (quantity (unat (n_nonce W a))) \<and>
     answers (code_request block_hash (address_text a)) (code_text (n_code W a)) \<and>
     (\<forall>key t. denotes t key \<longrightarrow>
        answers (storage_request block_hash (address_text a) (''0x'' @ t)) (data32 (unat (n_slot W a key)))))"

definition result_of :: "json \<Rightarrow> string \<Rightarrow> bool" where
  "result_of response v \<longleftrightarrow> json_get ''error'' response = None \<and> json_get ''result'' response = Some (JString v)"

definition node_answers :: "('s, 'h, 'b) eth_env \<Rightarrow> eth_client \<Rightarrow> 's \<Rightarrow> json \<Rightarrow> string \<Rightarrow> bool" where
  "node_answers E C s body v \<longleftrightarrow> (\<exists>response s'. ec_post E (eth_url C) body s = (Some (200, Some response), s') \<and>
     result_of response v)"

lemma rpc_answer: "node_answers E C s body v \<Longrightarrow> fst (rpc E C body s) = Ok (JString v)"
  by (auto simp: node_answers_def result_of_def rpc_def json_index_def Let_def)


lemma denotes_plain: "denotes t w \<Longrightarrow> strip_0x t = t"
  by (auto simp: denotes_def trim_plain hex_text_plain)

lemma denotes_hex_num: "denotes (hex_num (unat w)) w"
proof -
  let ?l = "length (hex_num (unat w))"
  have "unat w < 16 ^ 64" using unat_u256_lt [of w] by simp
  then have "?l \<le> 64" using hex_chars_pad [of "unat w" 64] by simp
  then show ?thesis
    using hex_num_bound [of "unat w"] hex_num_as_chars [of "unat w"] by (auto simp: denotes_def intro!: exI [of _ ?l])
qed

lemma denotes_word: "denotes (hex_chars 64 (unat w)) w"
  using unat_u256_lt [of w] by (auto simp: denotes_def intro!: exI [of _ 64])

lemma addr_text_eq: "client_ok E \<Longrightarrow> addr_text E a = address_text a"
  by (simp add: client_ok_def addr_text_def address_text_def)

lemma word_answers:
  assumes "client_ok E"
  shows "hex_to_word E (JString (quantity (unat w))) = Ok w" "hex_to_word E (JString (data32 (unat w))) = Ok w"
proof -
  have "hex_to_word E (JString (''0x'' @ t)) = Ok w" if "denotes t w" for t
    using that assms denotes_plain [OF that] by (simp add: client_ok_def hex_to_word_def hex_str_def word_from_hex_def)
  then show "hex_to_word E (JString (quantity (unat w))) = Ok w" "hex_to_word E (JString (data32 (unat w))) = Ok w"
    using denotes_hex_num denotes_word by (simp_all add: quantity_def data32_def)
qed

lemma code_answer: "client_ok E \<Longrightarrow> hex_to_vec E (JString (code_text bs)) = Ok bs"
  by (simp add: client_ok_def hex_to_vec_def hex_str_def code_text_def to_be_be_nat)

text \<open>A client reads what a node serves.\<close>

lemma client_reads:
  assumes E: "client_ok E" and node: "serves (node_answers E C s) block_hash W"
  shows "rm_balance (client_remote E C block_hash s) a = Some (n_balance W a)"
    and "rm_nonce (client_remote E C block_hash s) a = Some (n_nonce W a)"
    and "rm_code (client_remote E C block_hash s) a = Some (n_code W a)"
    and "rm_storage (client_remote E C block_hash s) a key = Some (n_slot W a key)"
proof -
  have run: "fst (bindM (rpc E C body) (\<lambda>value. liftM (f value)) s) = f (JString v)"
    if "node_answers E C s body v" for body v and f :: "json \<Rightarrow> ('d, client_error) res"
    using rpc_answer [OF that] by (auto simp: bindM_def liftM_def split: prod.splits res.splits)
  obtain t where key: "denotes t key" "ec_key_text E key = ''0x'' @ t" using E unfolding client_ok_def by blast
  have balance: "node_answers E C s (balance_request block_hash (address_text a)) (quantity (unat (n_balance W a)))"
    and nonce: "node_answers E C s (nonce_request block_hash (address_text a)) (quantity (unat (n_nonce W a)))"
    and code: "node_answers E C s (code_request block_hash (address_text a)) (code_text (n_code W a))"
    and slot: "node_answers E C s (storage_request block_hash (address_text a) (''0x'' @ t)) (data32 (unat (n_slot W a key)))"
    using node key(1) unfolding serves_def by blast+
  note simps = client_remote_def ok_value_def addr_text_eq [OF E] word_answers [OF E] code_answer [OF E]
  show "rm_balance (client_remote E C block_hash s) a = Some (n_balance W a)"
    by (simp add: simps eth_get_balance_def run [OF balance])
  show "rm_nonce (client_remote E C block_hash s) a = Some (n_nonce W a)"
    by (simp add: simps eth_get_nonce_def run [OF nonce])
  show "rm_code (client_remote E C block_hash s) a = Some (n_code W a)"
    by (simp add: simps eth_get_code_def run [OF code])
  show "rm_storage (client_remote E C block_hash s) a key = Some (n_slot W a key)"
    using run [OF slot, of "hex_to_word E"] key(2) by (simp add: simps eth_get_storage_at_def)
qed

lemma pinned_state_reads:
  assumes "client_ok E" "serves (node_answers E C s) block_hash W"
  shows "fst (ext_balance H a (ext_at_hash E block_hash C s)) = Ok (n_balance W a) \<and>
    fst (ext_nonce H a (ext_at_hash E block_hash C s)) = Ok (n_nonce W a) \<and>
    fst (ext_code H a (ext_at_hash E block_hash C s)) = Ok (n_code W a, from_bytes (keccak256 H (n_code W a))) \<and>
    fst (ext_get H a key (ext_at_hash E block_hash C s)) = Ok (n_slot W a key)"
  by (simp add: ext_balance_def ext_nonce_def ext_code_def ext_get_def ext_pull_def query_def monad_defs Let_def
      ext_at_hash_def ext_local_def cached_slot_def client_reads [OF assms])

text \<open>C23. A state pinned to a block of a node gives, for every account and slot, what the node serves:
  balance, nonce, code with its hash, and storage survive the way through JSON and hexadecimal text.\<close>

theorem pinned_state_reads_node:
  assumes "client_ok E" "serves (node_answers E C s) block_hash W"
  shows "fst (ext_balance H a (ext_at_hash E block_hash C s)) = Ok (n_balance W a) \<and>
    fst (ext_nonce H a (ext_at_hash E block_hash C s)) = Ok (n_nonce W a) \<and>
    fst (ext_code H a (ext_at_hash E block_hash C s)) = Ok (n_code W a, from_bytes (keccak256 H (n_code W a))) \<and>
    fst (ext_get H a key (ext_at_hash E block_hash C s)) = Ok (n_slot W a key)"
  by (rule pinned_state_reads [OF assms])

text \<open>A node that holds the same account everywhere, and a client that talks to it.\<close>

definition demo_node_state :: node_state where
  "demo_node_state = \<lparr>n_balance = (\<lambda>_. 5), n_nonce = (\<lambda>_. 5), n_code = (\<lambda>_. [0x60]), n_slot = (\<lambda>_ _. 7)\<rparr>"

definition demo_node :: "json \<Rightarrow> json" where
  "demo_node body = JObject [(''jsonrpc'', JString ''2.0''), (''id'', JNumber ''0''),
     (''result'', JString (if json_get ''method'' body = Some (JString ''eth_getStorageAt'') then data32 7
        else if json_get ''method'' body = Some (JString ''eth_getCode'') then code_text [0x60] else quantity 5))]"

definition demo_client :: "('s, u256, unit) eth_env" where
  "demo_client = \<lparr>ec_post = (\<lambda>url body s. (Some (200, Some (demo_node body)), s)),
     ec_hex_encode = (\<lambda>bs. hex_chars (2 * length bs) (be_nat bs)),
     ec_hex_decode = (\<lambda>s. Some (to_be (length s div 2) (text_num s))),
     ec_radix16 = (\<lambda>s. Some (word_of_nat (text_num s))), ec_key_text = (\<lambda>w. ''0x'' @ hex_chars 64 (unat w)),
     ec_header = (\<lambda>_. None), ec_header_hash = id, ec_block = (\<lambda>_. None)\<rparr>"

lemma demo_client_ok: "client_ok (demo_client\<lparr>ec_post := post\<rparr>)"
proof -
  have "to_be k (text_num (hex_chars (2 * k) n)) = to_be k n" for k n
    using to_be_mod [of k n] by (simp add: text_num_hex_chars power_mult)
  moreover have "word_of_nat (text_num t) = w" if "denotes t w" for t and w :: u256
    using that by (auto simp: denotes_def text_num_hex_chars)
  ultimately show ?thesis using denotes_word by (auto simp: client_ok_def demo_client_def)
qed

lemma demo_node_serves:
  assumes "\<And>body v. result_of (demo_node body) v \<Longrightarrow> answers body v"
  shows "serves answers block_hash demo_node_state"
  unfolding serves_def
  by (intro allI impI conjI assms)
    (simp_all add: result_of_def demo_node_def demo_node_state_def balance_request_def nonce_request_def code_request_def
      storage_request_def request_body_def)

theorem pinned_state_reads_node_witness:
  "fst (ext_balance demo_host 18 (ext_at_hash demo_client ''0xab'' \<lparr>eth_url = ''http://node''\<rparr> ())) = Ok 5 \<and>
   fst (ext_get demo_host 18 0 (ext_at_hash demo_client ''0xab'' \<lparr>eth_url = ''http://node''\<rparr> ())) = Ok 7"
proof -
  have ok: "client_ok demo_client" using demo_client_ok [of "ec_post demo_client"] by simp
  have "serves (node_answers demo_client \<lparr>eth_url = ''http://node''\<rparr> ()) ''0xab'' demo_node_state"
    by (rule demo_node_serves) (simp add: node_answers_def demo_client_def)
  from pinned_state_reads_node [OF ok this, of demo_host 18 0] show ?thesis by (simp add: demo_node_state_def)
qed

section \<open>The client and the proxy\<close>

definition state_request :: "json \<Rightarrow> bool" where
  "state_request body \<longleftrightarrow> (\<exists>block_hash address key. body \<in> {balance_request block_hash address,
     nonce_request block_hash address, code_request block_hash address, storage_request block_hash address key})"

text \<open>The block parameter of these requests is an object, which no handler takes as a key.\<close>

lemma state_request_forwarded: "state_request body \<Longrightarrow> handle_jsonrpc E body s = forward_and_respond E body s"
  by (auto simp: state_request_def balance_request_def nonce_request_def code_request_def storage_request_def
      request_body_def at_block_def handle_jsonrpc_def handle_method_def str_param_def Let_def bindM_def getsM_def)

lemma forward_and_respond_run:
  assumes "forward_and_respond E body s = (r, t)"
  obtains q where "forward E body s = (q, t)" "r = Ok (case q of Ok v \<Rightarrow> json_response 200 v | Err e \<Rightarrow> error_response E e
    | _ \<Rightarrow> invalid_request)"
proof -
  obtain q u where q: "forward E body s = (q, u)" by fastforce
  from forward_effect(1) [OF q] consider v where "q = Ok v" | e where "q = Err e" by blast
  then show ?thesis using assms q that [of q]
    by cases (auto simp: forward_and_respond_def catchM_def returnM_def)
qed

text \<open>C27. The proxy keeps nothing of what the client asks about accounts and slots: each of these requests
  is sent upstream, in every mode of the proxy, and leaves the cache as it is.\<close>

theorem state_requests_bypass_cache:
  assumes "state_request body" "handle_jsonrpc E body s = (r, t)"
  shows "px_cache t = px_cache s \<and> (\<exists>n < 30. px_calls t = px_calls s @ replicate (Suc n) (px_url s, body))"
proof -
  have "forward_and_respond E body s = (r, t)" using assms state_request_forwarded by metis
  then obtain q where q: "forward E body s = (q, t)" by (rule forward_and_respond_run)
  then obtain n where "n < 30" "t = called (px_url s) body (Suc n) n s" using forward_runs by blast
  then show ?thesis by (auto simp: called_def)
qed

theorem state_requests_bypass_cache_witness:
  "\<exists>r t. handle_jsonrpc demo_env (balance_request ''0xab'' ''0x12'') (demo_proxy\<lparr>px_offline := True\<rparr>) = (r, t) \<and>
     px_calls t \<noteq> []"
proof -
  obtain r t where run: "handle_jsonrpc demo_env (balance_request ''0xab'' ''0x12'') (demo_proxy\<lparr>px_offline := True\<rparr>) = (r, t)"
    by fastforce
  have "state_request (balance_request ''0xab'' ''0x12'')" unfolding state_request_def by blast
  from state_requests_bypass_cache [OF this run] run show ?thesis by auto
qed

text \<open>The route \<open>/rpc\<close> of the proxy as the other side of a client.\<close>

definition proxy_post :: "'kv proxy_env \<Rightarrow> string \<Rightarrow> json \<Rightarrow> 'kv proxy \<Rightarrow> (nat \<times> json option) option \<times> 'kv proxy" where
  "proxy_post P url body s = (case handle_jsonrpc P body s of
     (Ok resp, t) \<Rightarrow> (Some (rs_status resp, case rs_body resp of JsonBody v \<Rightarrow> Some v | TextBody _ \<Rightarrow> None), t)
   | (_, t) \<Rightarrow> (None, t))"

text \<open>The upstream node answers, at the latest at the 30th attempt.\<close>

definition upstream_answers :: "'kv proxy_env \<Rightarrow> 'kv proxy \<Rightarrow> json \<Rightarrow> string \<Rightarrow> bool" where
  "upstream_answers P s body v \<longleftrightarrow> (\<exists>n < 30. \<exists>obj. outcome_of P (px_url s) body s n = Ok obj \<and> result_of obj v \<and>
     (\<forall>i < n. \<exists>e. outcome_of P (px_url s) body s i = Err e \<and> is_retryable e))"

lemma forward_answers:
  assumes "upstream_answers P s body v"
  shows "\<exists>obj t. forward P body s = (Ok obj, t) \<and> result_of obj v"
proof -
  obtain n obj where n: "n < 30" "outcome_of P (px_url s) body s n = Ok obj" "result_of obj v"
    and before: "\<forall>i < n. \<exists>e. outcome_of P (px_url s) body s i = Err e \<and> is_retryable e"
    using assms unfolding upstream_answers_def by blast
  obtain r t where run: "forward P body s = (r, t)" by fastforce
  then obtain k where k: "k < 30" "r = outcome_of P (px_url s) body s k"
      "\<forall>i < k. try_again (outcome_of P (px_url s) body s i)" "try_again r \<longrightarrow> k = 29"
    using forward_runs by blast
  have "\<not> n < k" using k(3) n(2) by auto
  moreover have "\<not> k < n" using before k n(1) by fastforce
  ultimately have "k = n" by simp
  with run k(2) n show ?thesis by auto
qed

lemma proxy_node_answers:
  assumes "upstream_answers P s body v" "state_request body"
  shows "node_answers (E\<lparr>ec_post := proxy_post P\<rparr>) C s body v"
proof -
  obtain obj t where "forward P body s = (Ok obj, t)" "result_of obj v" using forward_answers [OF assms(1)] by blast
  then show ?thesis
    by (auto simp: node_answers_def proxy_post_def forward_and_respond_def catchM_def returnM_def json_response_def
        state_request_forwarded [OF assms(2)])
qed

text \<open>Through the proxy, whatever its cache holds, a pinned state gives what the upstream node serves, even
  when the node refuses attempts in a way worth repeating.\<close>

theorem pinned_state_through_proxy:
  assumes "client_ok E" "serves (upstream_answers P s) block_hash W"
  shows "fst (ext_balance H a (ext_at_hash (E\<lparr>ec_post := proxy_post P\<rparr>) block_hash C s)) = Ok (n_balance W a) \<and>
    fst (ext_code H a (ext_at_hash (E\<lparr>ec_post := proxy_post P\<rparr>) block_hash C s))
      = Ok (n_code W a, from_bytes (keccak256 H (n_code W a))) \<and>
    fst (ext_get H a key (ext_at_hash (E\<lparr>ec_post := proxy_post P\<rparr>) block_hash C s)) = Ok (n_slot W a key)"
proof -
  let ?E = "E\<lparr>ec_post := proxy_post P\<rparr>"
  have ok: "client_ok ?E" using assms(1) by (simp add: client_ok_def)
  have "serves (node_answers ?E C s) block_hash W"
    unfolding serves_def
  proof (intro allI conjI impI)
    fix a key t
    note up = assms(2) [unfolded serves_def, rule_format, of a]
    show "node_answers ?E C s (balance_request block_hash (address_text a)) (quantity (unat (n_balance W a)))"
      using up by (intro proxy_node_answers) (auto simp: state_request_def)
    show "node_answers ?E C s (nonce_request block_hash (address_text a)) (quantity (unat (n_nonce W a)))"
      using up by (intro proxy_node_answers) (auto simp: state_request_def)
    show "node_answers ?E C s (code_request block_hash (address_text a)) (code_text (n_code W a))"
      using up by (intro proxy_node_answers) (auto simp: state_request_def)
    show "denotes t key \<Longrightarrow> node_answers ?E C s (storage_request block_hash (address_text a) (''0x'' @ t))
        (data32 (unat (n_slot W a key)))"
      using assms(2) unfolding serves_def by (intro proxy_node_answers) (blast, auto simp: state_request_def)
  qed
  from pinned_state_reads [OF ok this] show ?thesis by blast
qed

text \<open>The node refuses twice before it answers.\<close>

definition demo_upstream :: "(bytes \<Rightarrow> bytes option) proxy_env" where
  "demo_upstream = demo_env\<lparr>upstream := (\<lambda>calls url body.
     if length calls < 2 then Reply 503 ''busy'' (Inr JNull) else Reply 200 [] (Inr (demo_node body)))\<rparr>"

lemma demo_upstream_answers:
  assumes "result_of (demo_node body) v"
  shows "upstream_answers demo_upstream demo_proxy body v"
proof -
  have "outcome_of demo_upstream url body demo_proxy i
      = (if i < 2 then Err (FE_Http 503 ''busy'') else Ok (demo_node body))" for url i
    by (simp add: outcome_of_def send_once_def called_def demo_upstream_def demo_proxy_def)
  with assms show ?thesis by (auto simp: upstream_answers_def intro!: exI [of _ 2])
qed

theorem pinned_state_through_proxy_witness:
  "fst (ext_balance demo_host 18 (ext_at_hash (demo_client\<lparr>ec_post := proxy_post demo_upstream\<rparr>) ''0xab''
     \<lparr>eth_url = ''http://proxy''\<rparr> demo_proxy)) = Ok 5"
proof -
  have ok: "client_ok demo_client" using demo_client_ok [of "ec_post demo_client"] by simp
  have "serves (upstream_answers demo_upstream demo_proxy) ''0xab'' demo_node_state"
    by (rule demo_node_serves) (rule demo_upstream_answers)
  from pinned_state_through_proxy [OF ok this, of demo_host 18] show ?thesis by (simp add: demo_node_state_def)
qed

end
