(* ===== verification/EvmTracer.thy ===== *)
theory EvmTracer
  imports Machine ProxyCacheLaws
begin

text \<open>
  \<open>evm-tracer/src/lib.rs\<close> and \<open>aux.rs\<close>: the inspector that records the execution of \<open>revm\<close> as
  the events of \<open>evm-event\<close>, to be compared with those of the interpreter; the names it gives
  to opcodes; hexadecimal payloads.

  \<open>revm\<close> is not part of the repository: what a hook reads of its interpreter is the record
  \<open>revm_view\<close>. The \<open>debug\<close> JSON of an event is left out, as in \<open>EvmEvent\<close>, but the fields
  the inspector keeps for it are there. Dumping entries to a file is in \<open>TraceCompare\<close>; driving
  \<open>revm\<close> (\<open>trace_all\<close>, \<open>trace_one\<close>, \<open>run.rs\<close>) is not modelled.
\<close>

section \<open>Names of opcodes\<close>

definition tracer_names :: "(nat \<times> string) list" where
  "tracer_names = [
     (0x00, ''STOP''), (0x01, ''ADD''), (0x02, ''MUL''), (0x03, ''SUB''), (0x04, ''DIV''), (0x05, ''SDIV''),
     (0x06, ''MOD''), (0x07, ''SMOD''), (0x08, ''ADDMOD''), (0x09, ''MULMOD''), (0x0a, ''EXP''), (0x0b, ''SIGNEXTEND''),
     (0x10, ''LT''), (0x11, ''GT''), (0x12, ''SLT''), (0x13, ''SGT''), (0x14, ''EQ''), (0x15, ''ISZERO''),
     (0x16, ''AND''), (0x17, ''OR''), (0x18, ''XOR''), (0x19, ''NOT''), (0x1a, ''BYTE''), (0x1b, ''SHL''),
     (0x1c, ''SHR''), (0x1d, ''SAR''), (0x1e, ''CLZ''), (0x20, ''SHA3''),
     (0x30, ''ADDRESS''), (0x31, ''BALANCE''), (0x32, ''ORIGIN''), (0x33, ''CALLER''), (0x34, ''CALLVALUE''),
     (0x35, ''CALLDATALOAD''), (0x36, ''CALLDATASIZE''), (0x37, ''CALLDATACOPY''), (0x38, ''CODESIZE''),
     (0x39, ''CODECOPY''), (0x3a, ''GASPRICE''), (0x3b, ''EXTCODESIZE''), (0x3c, ''EXTCODECOPY''),
     (0x3d, ''RETURNDATASIZE''), (0x3e, ''RETURNDATACOPY''), (0x3f, ''EXTCODEHASH''), (0x40, ''BLOCKHASH''),
     (0x41, ''COINBASE''), (0x42, ''TIMESTAMP''), (0x43, ''NUMBER''), (0x44, ''PREVRANDAO''), (0x45, ''GASLIMIT''),
     (0x46, ''CHAINID''), (0x47, ''SELFBALANCE''), (0x48, ''BASEFEE''), (0x49, ''BLOBHASH''),
     (0x50, ''POP''), (0x51, ''MLOAD''), (0x52, ''MSTORE''), (0x53, ''MSTORE8''), (0x54, ''SLOAD''), (0x55, ''SSTORE''),
     (0x56, ''JUMP''), (0x57, ''JUMPI''), (0x58, ''PC''), (0x59, ''MSIZE''), (0x5a, ''GAS''), (0x5b, ''JUMPDEST''),
     (0x5c, ''TLOAD''), (0x5d, ''TSTORE''), (0x5e, ''MCOPY''), (0x5f, ''PUSH0''),
     (0x60, ''PUSH1''), (0x61, ''PUSH2''), (0x62, ''PUSH3''), (0x63, ''PUSH4''), (0x64, ''PUSH5''), (0x65, ''PUSH6''),
     (0x66, ''PUSH7''), (0x67, ''PUSH8''), (0x68, ''PUSH9''), (0x69, ''PUSH10''), (0x6a, ''PUSH11''), (0x6b, ''PUSH12''),
     (0x6c, ''PUSH13''), (0x6d, ''PUSH14''), (0x6e, ''PUSH15''), (0x6f, ''PUSH16''), (0x70, ''PUSH17''), (0x71, ''PUSH18''),
     (0x72, ''PUSH19''), (0x73, ''PUSH20''), (0x74, ''PUSH21''), (0x75, ''PUSH22''), (0x76, ''PUSH23''), (0x77, ''PUSH24''),
     (0x78, ''PUSH25''), (0x79, ''PUSH26''), (0x7a, ''PUSH27''), (0x7b, ''PUSH28''), (0x7c, ''PUSH29''), (0x7d, ''PUSH30''),
     (0x7e, ''PUSH31''), (0x7f, ''PUSH32''),
     (0x80, ''DUP1''), (0x81, ''DUP2''), (0x82, ''DUP3''), (0x83, ''DUP4''), (0x84, ''DUP5''), (0x85, ''DUP6''),
     (0x86, ''DUP7''), (0x87, ''DUP8''), (0x88, ''DUP9''), (0x89, ''DUP10''), (0x8a, ''DUP11''), (0x8b, ''DUP12''),
     (0x8c, ''DUP13''), (0x8d, ''DUP14''), (0x8e, ''DUP15''), (0x8f, ''DUP16''),
     (0x90, ''SWAP1''), (0x91, ''SWAP2''), (0x92, ''SWAP3''), (0x93, ''SWAP4''), (0x94, ''SWAP5''), (0x95, ''SWAP6''),
     (0x96, ''SWAP7''), (0x97, ''SWAP8''), (0x98, ''SWAP9''), (0x99, ''SWAP10''), (0x9a, ''SWAP11''), (0x9b, ''SWAP12''),
     (0x9c, ''SWAP13''), (0x9d, ''SWAP14''), (0x9e, ''SWAP15''), (0x9f, ''SWAP16''),
     (0xa0, ''LOG0''), (0xa1, ''LOG1''), (0xa2, ''LOG2''), (0xa3, ''LOG3''), (0xa4, ''LOG4''),
     (0xf0, ''CREATE''), (0xf1, ''CALL''), (0xf2, ''CALLCODE''), (0xf3, ''RETURN''), (0xf4, ''DELEGATECALL''),
     (0xf5, ''CREATE2''), (0xfa, ''STATICCALL''), (0xfd, ''REVERT''), (0xfe, ''INVALID''), (0xff, ''SELFDESTRUCT'')]"

definition tracer_opcode_name :: "byte \<Rightarrow> string" where
  "tracer_opcode_name opcode = (case map_of tracer_names (unat opcode) of Some name \<Rightarrow> name | None \<Rightarrow> ''UNKNOWN'')"

section \<open>Hexadecimal payloads\<close>

text \<open>The crate \<open>hex\<close> is the record \<open>cache_env\<close>, as for the proxy; \<open>None\<close> is an invalid value.\<close>

definition hex_serialize :: "('kv, 'a) cache_env_scheme \<Rightarrow> bytes \<Rightarrow> string" where
  "hex_serialize E bin = ''0x'' @ hex_encode E bin"

definition hex_deserialize :: "('kv, 'a) cache_env_scheme \<Rightarrow> string \<Rightarrow> bytes option" where
  "hex_deserialize E hex = hex_decode E (strip_0x hex)"

lemma hex_serde: "hex_ok E \<Longrightarrow> hex_deserialize E (hex_serialize E bin) = Some bin"
  using strip_0x_prefix [OF hex_text_plain(2)]
  by (simp add: hex_ok_def hex_serialize_def hex_deserialize_def to_be_be_nat)

section \<open>The inspector\<close>

text \<open>What the hooks read of the interpreter of \<open>revm\<close>; the gas counters are unsigned.\<close>

record revm_view =
  rv_pc :: nat
  rv_opcode :: byte
  rv_remaining :: nat
  rv_spent :: nat
  rv_refunded :: int
  rv_stack :: "u256 list"
  rv_memory :: bytes

record aux =
  aux_pc :: nat
  aux_opcode :: byte
  aux_gas :: int
  aux_refund :: int
  aux_depth :: nat

definition aux_default :: aux where
  "aux_default = \<lparr>aux_pc = 0, aux_opcode = 0, aux_gas = 0, aux_refund = 0, aux_depth = 0\<rparr>"

record sstore_aux =
  sa_key :: u256
  sa_val :: u256

record tx_trace =
  tt_hash :: bytes
  tt_traces :: "event list"
  tt_aux :: aux
  tt_sstore :: sstore_aux

definition trace_setup :: "bytes \<Rightarrow> tx_trace \<Rightarrow> tx_trace" where
  "trace_setup hash t = \<lparr>tt_hash = hash, tt_traces = [], tt_aux = aux_default, tt_sstore = \<lparr>sa_key = 0, sa_val = 0\<rparr>\<rparr>"

definition trace_reset :: "tx_trace \<Rightarrow> (bytes \<times> event list) \<times> tx_trace" where
  "trace_reset t = ((tt_hash t, tt_traces t), t\<lparr>tt_traces := []\<rparr>)"

definition hook_step :: "revm_view \<Rightarrow> tx_trace \<Rightarrow> tx_trace" where
  "hook_step v t =
     (let stack = rv_stack v;
          t = t\<lparr>tt_aux := (tt_aux t)\<lparr>aux_pc := rv_pc v, aux_opcode := rv_opcode v,
                aux_gas := i64_of_u64 (rv_remaining v), aux_refund := rv_refunded v\<rparr>\<rparr>
      in if rv_opcode v = 0x55 \<and> length stack \<ge> 2 then
           t\<lparr>tt_sstore := \<lparr>sa_key = stack ! (length stack - 1), sa_val = stack ! (length stack - 2)\<rparr>\<rparr>
         else t)"

text \<open>The differences of \<open>i64\<close> panic or wrap like all arithmetic of the build.\<close>

definition hook_step_end :: "host \<Rightarrow> revm_view \<Rightarrow> tx_trace \<Rightarrow> (tx_trace, unit) res" where
  "hook_step_end H v t =
     (let a = tt_aux t; left = i64_of_u64 (rv_remaining v) in
      res_bind (i64_arith H (rv_refunded v - aux_refund a)) (\<lambda>refund.
      res_bind (i64_arith H (aux_gas a - left)) (\<lambda>gas_cost.
        Ok (t\<lparr>tt_aux := a\<lparr>aux_refund := rv_refunded v, aux_gas := left\<rparr>,
              tt_traces := tt_traces t @
                [\<lparr>ev_data = ED_OpCode \<lparr>oe_pc = aux_pc a, oe_op = aux_opcode a,
                    oe_name = tracer_opcode_name (aux_opcode a), oe_data = None, oe_gas_cost = gas_cost,
                    oe_gas_used = i64_of_u64 (rv_spent v), oe_gas_left = left, oe_gas_back = refund,
                    oe_stack = rev (rv_stack v), oe_memory = chunks32 (rv_memory v)\<rparr>,
                  ev_depth = aux_depth a, ev_reverted = False\<rparr>]\<rparr>))))"

definition hook_enter :: "tx_trace \<Rightarrow> tx_trace" where
  "hook_enter t = t\<lparr>tt_aux := (tt_aux t)\<lparr>aux_depth := aux_depth (tt_aux t) + 1\<rparr>\<rparr>"

definition hook_leave :: "tx_trace \<Rightarrow> tx_trace" where
  "hook_leave t =
     (if aux_depth (tt_aux t) > 0 then t\<lparr>tt_aux := (tt_aux t)\<lparr>aux_depth := aux_depth (tt_aux t) - 1\<rparr>\<rparr> else t)"

text \<open>The calls of the trait \<open>Inspector\<close>; \<open>selfdestruct\<close> is ignored.\<close>

datatype hook = Step revm_view | StepEnd revm_view | Call | CallEnd | Create | CreateEnd | Selfdestruct

fun run_hook :: "host \<Rightarrow> hook \<Rightarrow> tx_trace \<Rightarrow> (tx_trace, unit) res" where
  "run_hook H (Step v) t = Ok (hook_step v t)"
| "run_hook H (StepEnd v) t = hook_step_end H v t"
| "run_hook H Call t = Ok (hook_enter t)"
| "run_hook H CallEnd t = Ok (hook_leave t)"
| "run_hook H Create t = Ok (hook_enter t)"
| "run_hook H CreateEnd t = Ok (hook_leave t)"
| "run_hook H Selfdestruct t = Ok t"

fun run_hooks :: "host \<Rightarrow> hook list \<Rightarrow> tx_trace \<Rightarrow> (tx_trace, unit) res" where
  "run_hooks H [] t = Ok t"
| "run_hooks H (h # hs) t = res_bind (run_hook H h t) (run_hooks H hs)"

end
