(* ===== verification/TracerProps.thy ===== *)
theory TracerProps
  imports EvmTracer
begin

text \<open>
  Properties of the inspector: it names opcodes as the interpreter does, and the events it records
  are those of the execution, call by call.
\<close>

section \<open>Names\<close>

lemma map_of_range: "map_of (map (\<lambda>i. (a + i, f i)) [0..<k]) n = (if a \<le> n \<and> n < a + k then Some (f (n - a)) else None)"
  for a :: nat
proof (induction k)
  case (Suc k)
  then show ?case by (cases "n = a + k") (auto simp: map_add_def)
qed simp

lemma map_of_keys: "map_of (filter (\<lambda>(n, _). P n) xs) n = (if P n then map_of xs n else None)"
  by (induction xs) auto

text \<open>The table of the inspector, by its ranges.\<close>

lemma tracer_names_ranges:
  "tracer_names = filter (\<lambda>(n, _). n < 0x60 \<and> n \<noteq> 0x4a) named_opcodes @
     map (\<lambda>i. (0x60 + i, ''PUSH'' @ dec_digits (i + 1))) [0..<32] @
     map (\<lambda>i. (0x80 + i, ''DUP'' @ dec_digits (i + 1))) [0..<16] @
     map (\<lambda>i. (0x90 + i, ''SWAP'' @ dec_digits (i + 1))) [0..<16] @
     map (\<lambda>i. (0xa0 + i, ''LOG'' @ dec_digits i)) [0..<5] @
     filter (\<lambda>(n, _). 0xf0 \<le> n) named_opcodes"
  by code_simp

lemma named_opcodes_plain:
  "list_all (\<lambda>(n, name). (n < 0x60 \<or> 0xf0 \<le> n) \<and> CHR ''_'' \<notin> set name \<and> name \<noteq> ''undefined'') named_opcodes"
  by code_simp

lemma plain_name: "CHR ''_'' \<notin> set name \<Longrightarrow> opcode_name \<lparr>op_code = c, op_name = name, op_n = n\<rparr> = name"
proof -
  assume plain: "CHR ''_'' \<notin> set name"
  have "concat (map (\<lambda>c. if c = CHR ''_'' then d else [c]) name) = name" for d
    using plain by (induction name) auto
  then show ?thesis by (simp add: opcode_name_def)
qed

lemma named_opcode:
  assumes "map_of named_opcodes n = Some name"
  shows "n < 0x60 \<or> 0xf0 \<le> n" "opcode_name \<lparr>op_code = c, op_name = name, op_n = k\<rparr> = name" "name \<noteq> ''undefined''"
  using named_opcodes_plain map_of_SomeD [OF assms] plain_name by (auto simp: list_all_iff)

text \<open>The names of the inspector are those of the opcode table for every byte, except that
  \<open>BLOBBASEFEE\<close> is missing and bytes without an opcode have another name.\<close>

theorem opcode_names_agree:
  "tracer_opcode_name v =
     (if v = 0x4a \<or> op_name (get_opcode v) = ''undefined'' then ''UNKNOWN'' else opcode_name (get_opcode v))"
proof -
  have "v = 0x4a \<longleftrightarrow> unat v = 0x4a" by (simp add: word_unat_eq_iff)
  moreover have "map_of tracer_names (unat v) =
      (if unat v < 0x60 then (if unat v = 0x4a then None else map_of named_opcodes (unat v))
       else if unat v < 0x80 then Some (''PUSH'' @ dec_digits (unat v - 0x60 + 1))
       else if unat v < 0x90 then Some (''DUP'' @ dec_digits (unat v - 0x80 + 1))
       else if unat v < 0xa0 then Some (''SWAP'' @ dec_digits (unat v - 0x90 + 1))
       else if unat v < 0xa5 then Some (''LOG'' @ dec_digits (unat v - 0xa0))
       else map_of named_opcodes (unat v))"
    using named_opcode(1) [of "unat v"]
    by (auto simp: tracer_names_ranges map_of_range map_of_keys map_add_def split: option.split)
  ultimately show ?thesis
    using named_opcode [of "unat v"]
    by (auto simp: tracer_opcode_name_def get_opcode_def opcode_name_def [of "\<lparr>op_code = c, op_name = ''PUSH_'', op_n = n\<rparr>" for c n]
        opcode_name_def [of "\<lparr>op_code = c, op_name = ''DUP_'', op_n = n\<rparr>" for c n]
        opcode_name_def [of "\<lparr>op_code = c, op_name = ''SWAP_'', op_n = n\<rparr>" for c n]
        opcode_name_def [of "\<lparr>op_code = c, op_name = ''LOG_'', op_n = n\<rparr>" for c n] split: option.split)
qed

section \<open>Executions\<close>

text \<open>
  What \<open>revm\<close> does, as a tree: an instruction with the interpreter before and after it, and a
  frame, of a call or of a creation, with what happens inside.
\<close>

datatype activity = Instr revm_view revm_view | Frame bool "activity list"

fun hooks_of :: "activity \<Rightarrow> hook list" where
  "hooks_of (Instr v w) = [Step v, StepEnd w]"
| "hooks_of (Frame creation acts) =
     (if creation then Create else Call) # concat (map hooks_of acts) @ [if creation then CreateEnd else CallEnd]"

text \<open>The events an execution has to leave, by recursion on the tree.\<close>

definition instr_event :: "nat \<Rightarrow> revm_view \<Rightarrow> revm_view \<Rightarrow> event" where
  "instr_event d v w = \<lparr>ev_data = ED_OpCode \<lparr>oe_pc = rv_pc v, oe_op = rv_opcode v,
      oe_name = tracer_opcode_name (rv_opcode v), oe_data = None,
      oe_gas_cost = int (rv_remaining v) - int (rv_remaining w), oe_gas_used = i64_of_u64 (rv_spent w),
      oe_gas_left = int (rv_remaining w), oe_gas_back = rv_refunded w - rv_refunded v,
      oe_stack = rev (rv_stack w), oe_memory = chunks32 (rv_memory w)\<rparr>,
    ev_depth = d, ev_reverted = False\<rparr>"

fun recorded :: "nat \<Rightarrow> activity \<Rightarrow> event list" where
  "recorded d (Instr v w) = [instr_event d v w]"
| "recorded d (Frame creation acts) = concat (map (recorded (Suc d)) acts)"

definition view_ok :: "revm_view \<Rightarrow> bool" where
  "view_ok v \<longleftrightarrow> rv_remaining v < 2 ^ 63 \<and> \<bar>rv_refunded v\<bar> < 2 ^ 62"

fun views_ok :: "activity \<Rightarrow> bool" where
  "views_ok (Instr v w) \<longleftrightarrow> view_ok v \<and> view_ok w"
| "views_ok (Frame creation acts) \<longleftrightarrow> list_all views_ok acts"

lemma run_hooks_append: "run_hooks H (hs @ hs') t = res_bind (run_hooks H hs t) (run_hooks H hs')"
proof (induction hs arbitrary: t)
  case (Cons h hs)
  then show ?case by (cases "run_hook H h t") simp_all
qed simp

text \<open>A run from one state of the inspector to another that adds the given events.\<close>

definition adds :: "host \<Rightarrow> hook list \<Rightarrow> tx_trace \<Rightarrow> event list \<Rightarrow> tx_trace \<Rightarrow> bool" where
  "adds H hs t es t' \<longleftrightarrow> run_hooks H hs t = Ok t' \<and> tt_traces t' = tt_traces t @ es \<and> tt_hash t' = tt_hash t \<and>
     aux_depth (tt_aux t') = aux_depth (tt_aux t)"

lemma adds_append: "adds H hs t es u \<Longrightarrow> adds H hs' u es' v \<Longrightarrow> adds H (hs @ hs') t (es @ es') v"
  by (simp add: adds_def run_hooks_append)

lemma adds_instr:
  assumes "view_ok v" "view_ok w"
  shows "\<exists>t'. adds H [Step v, StepEnd w] t [instr_event (aux_depth (tt_aux t)) v w] t'"
  using assms
  by (auto simp: adds_def hook_step_def hook_step_end_def instr_event_def view_ok_def i64_of_u64_def i64_arith_def Let_def)

lemma adds_frame:
  assumes "adds H hs (hook_enter t) es t'"
  shows "\<exists>t''. adds H ((if creation then Create else Call) # hs @ [if creation then CreateEnd else CallEnd]) t es t''"
  using assms by (auto simp: adds_def run_hooks_append hook_enter_def hook_leave_def)

lemma adds_all:
  assumes "\<And>a t. a \<in> set acts \<Longrightarrow> \<exists>t'. adds H (hooks_of a) t (recorded (aux_depth (tt_aux t)) a) t'"
  shows "\<exists>t'. adds H (concat (map hooks_of acts)) t (concat (map (recorded (aux_depth (tt_aux t))) acts)) t'"
  using assms
proof (induction acts arbitrary: t)
  case Nil
  then show ?case by (simp add: adds_def)
next
  case (Cons a acts)
  obtain u where u: "adds H (hooks_of a) t (recorded (aux_depth (tt_aux t)) a) u" using Cons.prems by auto
  moreover obtain v where "adds H (concat (map hooks_of acts)) u (concat (map (recorded (aux_depth (tt_aux u))) acts)) v"
    using Cons.IH [of u] Cons.prems by auto
  moreover have "aux_depth (tt_aux u) = aux_depth (tt_aux t)" using u by (simp add: adds_def)
  ultimately have "adds H (concat (map hooks_of (a # acts))) t (concat (map (recorded (aux_depth (tt_aux t))) (a # acts))) v"
    using adds_append by simp
  then show ?case by blast
qed

lemma adds_activity:
  assumes "views_ok a"
  shows "\<exists>t'. adds H (hooks_of a) t (recorded (aux_depth (tt_aux t)) a) t'"
  using assms
proof (induction a arbitrary: t)
  case (Instr v w)
  then show ?case using adds_instr [of v w H t] by simp
next
  case (Frame creation acts)
  have depth: "aux_depth (tt_aux (hook_enter t)) = Suc (aux_depth (tt_aux t))" by (simp add: hook_enter_def)
  obtain u where "adds H (concat (map hooks_of acts)) (hook_enter t) (concat (map (recorded (Suc (aux_depth (tt_aux t)))) acts)) u"
    using adds_all [of acts H "hook_enter t"] Frame by (auto simp: list_all_iff depth)
  from adds_frame [OF this, of creation] show ?case by simp
qed

text \<open>C24. The inspector records an execution as it happened: one event for every instruction, in order, with the
  gas it cost, the refund it earned, the stack and memory it left, at the depth of its frame; a transaction
  starts from nothing, whatever was recorded before.\<close>

theorem trace_records_execution:
  assumes "list_all views_ok acts"
  shows "\<exists>t'. run_hooks H (concat (map hooks_of acts)) (trace_setup hash t) = Ok t' \<and>
    fst (trace_reset t') = (hash, concat (map (recorded 0) acts)) \<and> tt_traces (snd (trace_reset t')) = []"
proof -
  have "aux_depth (tt_aux (trace_setup hash t)) = 0" by (simp add: trace_setup_def aux_default_def)
  then obtain t' where "adds H (concat (map hooks_of acts)) (trace_setup hash t) (concat (map (recorded 0) acts)) t'"
    using adds_all [of acts H "trace_setup hash t"] adds_activity [of _ H] assms by (auto simp: list_all_iff)
  then show ?thesis by (auto simp: adds_def trace_reset_def trace_setup_def)
qed

definition earlier_trace :: tx_trace where
  "earlier_trace = \<lparr>tt_hash = [1], tt_traces = [], tt_aux = aux_default\<lparr>aux_depth := 3\<rparr>, tt_sstore = \<lparr>sa_key = 1, sa_val = 2\<rparr>\<rparr>"

theorem trace_records_execution_witness:
  "\<exists>t'. run_hooks demo_host [Call, Step \<lparr>rv_pc = 0, rv_opcode = 0x5f, rv_remaining = 10, rv_spent = 0, rv_refunded = 0,
        rv_stack = [], rv_memory = []\<rparr>,
      StepEnd \<lparr>rv_pc = 1, rv_opcode = 0, rv_remaining = 8, rv_spent = 2, rv_refunded = 0, rv_stack = [0], rv_memory = []\<rparr>,
      CallEnd] (trace_setup [] earlier_trace) = Ok t' \<and>
    map (\<lambda>e. (ev_depth e, ev_reverted e)) (snd (fst (trace_reset t'))) = [(1, False)]"
  (is "\<exists>t'. run_hooks _ [_, Step ?v, StepEnd ?w, _] _ = _ \<and> _")
proof -
  have "list_all views_ok [Frame False [Instr ?v ?w]]" by (simp add: view_ok_def)
  from trace_records_execution [OF this, of demo_host "[]" earlier_trace] show ?thesis by (auto simp: instr_event_def)
qed

end
