(* ===== verification/AddressText.thy ===== *)
theory AddressText
  imports DataProps
begin

text \<open>
  The textual form of addresses (\<open>evm-common/src/address.rs\<close>): writing, reading and parsing. Text
  is its bytes; the crate \<open>hex\<close> is the arguments \<open>hex_encode\<close> and \<open>decode_to_slice\<close>.
\<close>

text \<open>\<open>Display\<close>, \<open>Debug\<close>, \<open>LowerHex\<close> and \<open>Serialize\<close> all write this.\<close>

definition addr_serialize :: "(bytes \<Rightarrow> bytes) \<Rightarrow> addr160 \<Rightarrow> bytes" where
  "addr_serialize hex_encode a = [48, 120] @ hex_encode (addr_bytes a)"

datatype serde_error = InvalidHexLength bytes

definition addr_deserialize :: "bytes \<Rightarrow> (addr160, serde_error) res" where
  "addr_deserialize hex =
     (let hex = trim_0x hex in
      if length hex \<noteq> 40 then Err (InvalidHexLength hex) else addr_of_str hex)"

text \<open>\<open>decode_to_slice\<close> fills a slice of 20 bytes, or fails.\<close>

definition addr_parse :: "(bytes \<Rightarrow> bytes option) \<Rightarrow> bytes \<Rightarrow> (addr160, addr_error) res" where
  "addr_parse decode_to_slice s =
     (if length s \<noteq> 40 \<and> length s \<noteq> 42 then Err InvalidAddress
      else (case decode_to_slice (trim_0x s) of Some bs \<Rightarrow> Ok (addr_of_bytes bs) | None \<Rightarrow> Err InvalidAddress))"

lemma addr_digits:
  assumes "hex_encode_ok enc"
  shows "list_all is_hex (enc (addr_bytes a))" "length (enc (addr_bytes a)) = 40" "hex_val (enc (addr_bytes a)) = unat a"
    "trim_0x (addr_serialize enc a) = enc (addr_bytes a)"
proof -
  have e: "enc (addr_bytes a) = concat (map (\<lambda>b. [lower_hex (unat b div 16), lower_hex (unat b mod 16)]) (addr_bytes a))"
    using assms by (simp only: hex_encode_ok_def)
  show digits: "list_all is_hex (enc (addr_bytes a))" unfolding e by (rule hex_of_bytes)
  show "length (enc (addr_bytes a)) = 40" "hex_val (enc (addr_bytes a)) = unat a"
    unfolding e using hex_of_bytes [of "addr_bytes a"] by simp_all
  show "trim_0x (addr_serialize enc a) = enc (addr_bytes a)"
    using trim_0x_digits [OF digits] by (simp add: addr_serialize_def)
qed

text \<open>C40. An address survives its text: reading what was written, and parsing it with or without prefix, gives the
  address back.\<close>

theorem address_text_roundtrip:
  assumes "hex_encode_ok enc" "\<And>bs. length bs = 20 \<Longrightarrow> decode_to_slice (enc bs) = Some bs"
  shows "addr_deserialize (addr_serialize enc a) = Ok a \<and>
    addr_parse decode_to_slice (addr_serialize enc a) = Ok a \<and> addr_parse decode_to_slice (enc (addr_bytes a)) = Ok a"
proof -
  note d = addr_digits [OF assms(1), of a]
  have "decode 20 (enc (addr_bytes a)) = (Ok (addr_bytes a) :: (bytes, serde_error) res)"
    using decode_digits [of "enc (addr_bytes a)" 20] d(1-3) hex_skip_digits [OF d(1)] by (simp add: addr_bytes_def)
  then have "addr_deserialize (addr_serialize enc a) = Ok a"
    using d(2,4) by (simp add: addr_deserialize_def addr_of_str_def)
  moreover have "length (addr_serialize enc a) = 42" using d(2) by (simp add: addr_serialize_def)
  ultimately show ?thesis
    using d(2,4) trim_0x_digits [OF d(1)] assms(2) [of "addr_bytes a"] by (simp add: addr_parse_def)
qed

theorem address_text_roundtrip_witness:
  "\<exists>enc. addr_deserialize (addr_serialize enc 0x1234) = Ok 0x1234"
proof -
  let ?enc = "\<lambda>bs :: bytes. concat (map (\<lambda>b. [lower_hex (unat b div 16), lower_hex (unat b mod 16)]) bs)"
  let ?dec = "\<lambda>s :: bytes. Some (to_be 20 (hex_val s))"
  have enc: "hex_encode_ok ?enc" by (simp add: hex_encode_ok_def)
  have dec: "?dec (?enc bs) = Some bs" if "length bs = 20" for bs :: bytes
    using hex_of_bytes(1) [of bs] to_be_be_nat [of bs] that by simp
  from address_text_roundtrip [of ?enc ?dec, OF enc dec] show ?thesis by blast
qed

text \<open>Reading is partial: 40 characters that are not all digits make the program panic.\<close>

lemma addr_deserialize_panics:
  assumes "length s = 40" "trim_0x s = s" "hex_skip s = 0" "\<not> list_all is_hex s"
  shows "addr_deserialize s = Panic"
proof -
  have "decode 20 s = (Panic :: (bytes, serde_error) res)"
    using decode_spec [of 20 s] assms by simp
  then show ?thesis using assms(1,2) by (simp add: addr_deserialize_def addr_of_str_def)
qed

end
