(* ===== verification/Allocator.thy ===== *)
theory Allocator
  imports Host "HOL-Library.Multiset"
begin

text \<open>
  \<open>src/allocator.rs\<close>: the wrapper of a global allocator that counts the bytes allocated and freed,
  and \<open>stats\<close>, which reports the difference and what it changed by since the last report.
  The counters are atomic: every access is a step of its own, and \<open>stats\<close> is split where other
  threads may run between its two loads. The wrapped allocator is the arguments \<open>ok\<close>: whether it
  returned a block.
\<close>

record counters =
  k_alloc :: u64
  k_freed :: u64
  k_used :: u64

definition counters_start :: counters where
  "counters_start = \<lparr>k_alloc = 0, k_freed = 0, k_used = 0\<rparr>"

definition on_alloc :: "bool \<Rightarrow> nat \<Rightarrow> counters \<Rightarrow> counters" where
  "on_alloc ok n c = (if ok then c\<lparr>k_alloc := k_alloc c + word_of_nat n\<rparr> else c)"

definition on_dealloc :: "nat \<Rightarrow> counters \<Rightarrow> counters" where
  "on_dealloc n c = c\<lparr>k_freed := k_freed c + word_of_nat n\<rparr>"

definition on_realloc :: "bool \<Rightarrow> nat \<Rightarrow> nat \<Rightarrow> counters \<Rightarrow> counters" where
  "on_realloc ok old new c =
     (if ok then c\<lparr>k_alloc := k_alloc c + word_of_nat new, k_freed := k_freed c + word_of_nat old\<rparr> else c)"

text \<open>The rest of \<open>stats\<close> after \<open>alloc\<close> was loaded; the subtraction of \<open>u64\<close> is checked or wraps.\<close>

definition stats_after :: "host \<Rightarrow> u64 \<Rightarrow> counters \<Rightarrow> (u64 \<times> int, unit) res \<times> counters" where
  "stats_after H alloc c =
     (let freed = k_freed c in
      if alloc < freed \<and> overflow_checks H then (Panic, c)
      else let bytes = alloc - freed in
        (res_bind (i64_arith H (sint bytes - sint (k_used c))) (\<lambda>diff. Ok (bytes, diff)), c\<lparr>k_used := bytes\<rparr>))"

definition stats :: "host \<Rightarrow> counters \<Rightarrow> (u64 \<times> int, unit) res \<times> counters" where
  "stats H c = stats_after H (k_alloc c) c"

section \<open>Runs\<close>

text \<open>
  The runs of a program, with the sizes of its live blocks and the bytes it ever allocated: only a
  live block is freed or reallocated, with the size it has.
\<close>

inductive alloc_run :: "host \<Rightarrow> counters \<Rightarrow> nat multiset \<Rightarrow> nat \<Rightarrow> bool" for H where
  start: "alloc_run H counters_start {#} 0"
| alloc: "alloc_run H c L T \<Longrightarrow> alloc_run H (on_alloc True n c) (add_mset n L) (T + n)"
| alloc_null: "alloc_run H c L T \<Longrightarrow> alloc_run H (on_alloc False n c) L T"
| dealloc: "alloc_run H c (add_mset n L) T \<Longrightarrow> alloc_run H (on_dealloc n c) L T"
| realloc: "alloc_run H c (add_mset n L) T \<Longrightarrow> alloc_run H (on_realloc True n m c) (add_mset m L) (T + m)"
| realloc_null: "alloc_run H c (add_mset n L) T \<Longrightarrow> alloc_run H (on_realloc False n m c) (add_mset n L) T"
| stats: "alloc_run H c L T \<Longrightarrow> stats H c = (r, c') \<Longrightarrow> alloc_run H c' L T"

inductive_cases alloc_runE: "alloc_run H c L T"

lemma stats_counters: "stats H c = (r, c') \<Longrightarrow> k_alloc c' = k_alloc c \<and> k_freed c' = k_freed c"
  by (auto simp: stats_def stats_after_def Let_def split: if_splits)

declare of_nat_sum_mset [simp del]

lemma alloc_run_counters:
  assumes "alloc_run H c L T"
  shows "\<exists>F. k_alloc c = word_of_nat T \<and> k_freed c = word_of_nat F \<and> T = F + sum_mset L"
  using assms
proof induction
  case (dealloc c n L T)
  then obtain F where "k_alloc c = word_of_nat T" "k_freed c = word_of_nat F" "T = F + n + sum_mset L" by auto
  then show ?case by (intro exI [of _ "F + n"]) (simp add: on_dealloc_def)
next
  case (realloc c n L T m)
  then obtain F where "k_alloc c = word_of_nat T" "k_freed c = word_of_nat F" "T = F + n + sum_mset L" by auto
  then show ?case by (intro exI [of _ "F + n"]) (simp add: on_realloc_def)
next
  case (stats c L T r c')
  then show ?case using stats_counters by simp
qed (auto simp: counters_start_def on_alloc_def on_realloc_def)

text \<open>C39. As long as fewer than 2^64 bytes were allocated in all, a report that no other thread interrupts gives
  the number of bytes in live blocks, in every build, and how much it differs from the last report.\<close>

theorem stats_reports_live:
  assumes "alloc_run H c L T" "T < 2 ^ 64" "sum_mset L < 2 ^ 63" "0 \<le> sint (k_used c)"
  shows "\<exists>c'. stats H c = (Ok (word_of_nat (sum_mset L), int (sum_mset L) - sint (k_used c)), c') \<and>
    k_used c' = word_of_nat (sum_mset L)"
proof -
  obtain F where inv: "k_alloc c = word_of_nat T" "k_freed c = word_of_nat F" "T = F + sum_mset L"
    using alloc_run_counters [OF assms(1)] by blast
  then have "unat (k_alloc c) = T" "unat (k_freed c) = F"
    using assms(2) by (simp_all add: unat_of_nat take_bit_nat_eq_self del: of_nat_add)
  then have below: "\<not> k_alloc c < k_freed c" using inv(3) by (simp add: word_less_nat_alt)
  have diff: "k_alloc c - k_freed c = word_of_nat (sum_mset L)"
    using inv by simp
  have live: "sint (word_of_nat (sum_mset L) :: u64) = int (sum_mset L)"
    using assms(3) by (simp add: signed_of_nat signed_take_bit_int_eq_self)
  have "sint (k_used c) < 2 ^ 63" using sint_less [of "k_used c"] by simp
  then have "i64_arith H (int (sum_mset L) - sint (k_used c)) = (Ok (int (sum_mset L) - sint (k_used c)) :: (int, unit) res)"
    using assms(3,4) by (simp add: i64_arith_def)
  then show ?thesis using below by (simp add: stats_def stats_after_def Let_def diff live)
qed

theorem stats_reports_live_witness:
  "\<exists>c'. stats demo_host (on_realloc True 100 300 (on_alloc True 100 counters_start)) = (Ok (300, 300), c')"
proof -
  have run: "alloc_run demo_host (on_realloc True 100 300 (on_alloc True 100 counters_start)) {#300#} 400"
    using alloc_run.realloc [OF alloc_run.alloc [OF alloc_run.start], where n = 100 and m = 300] by simp
  from stats_reports_live [OF run] show ?thesis by (auto simp: on_realloc_def on_alloc_def counters_start_def)
qed

text \<open>
  A thread that allocates and frees between the two loads of \<open>stats\<close> makes the subtraction
  underflow: it panics with checks, and reports almost 2^64 bytes without.
\<close>

lemma stats_race:
  assumes "0 < n" "n < 2 ^ 64"
  shows "fst (stats_after H (k_alloc counters_start) (on_dealloc n (on_alloc True n counters_start))) =
    (if overflow_checks H then Panic
     else res_bind (i64_arith H (sint (- word_of_nat n :: u64))) (\<lambda>diff. Ok (- word_of_nat n, diff)))"
proof -
  have "unat (word_of_nat n :: u64) = n" using assms(2) by (simp add: unat_of_nat take_bit_nat_eq_self)
  then have "(0 :: u64) < word_of_nat n" using assms(1) by (simp add: word_less_nat_alt)
  then show ?thesis
    by (simp add: stats_after_def counters_start_def on_alloc_def on_dealloc_def Let_def)
qed

end
