(* ===== verification/TraceCompare.thy ===== *)
theory TraceCompare
  imports EvmTracer
begin

text \<open>
  Comparing the traces of the two machines: equality of events (\<open>evm-event/src/lib.rs\<close>), dumping
  them line by line (\<open>dump_filtered\<close> in \<open>evm-tracer/src/aux.rs\<close>) and the check of two dumps
  (\<open>examples/check.rs\<close>, in its non-interactive mode).
\<close>

section \<open>Equality of events\<close>

text \<open>Two opcodes are equal when all but their data and debug payload is; two events whatever their
  reverted flags are.\<close>

definition same_opcode :: "opcode_event \<Rightarrow> opcode_event \<Rightarrow> bool" where
  "same_opcode a b \<longleftrightarrow> oe_pc a = oe_pc b \<and> oe_op a = oe_op b \<and> oe_name a = oe_name b \<and>
     oe_gas_cost a = oe_gas_cost b \<and> oe_gas_used a = oe_gas_used b \<and> oe_gas_left a = oe_gas_left b \<and>
     oe_gas_back a = oe_gas_back b \<and> oe_stack a = oe_stack b \<and> oe_memory a = oe_memory b"

definition same_data :: "event_data \<Rightarrow> event_data \<Rightarrow> bool" where
  "same_data x y = (case x of
     ED_OpCode a \<Rightarrow> (case y of ED_OpCode b \<Rightarrow> same_opcode a b | _ \<Rightarrow> False)
   | _ \<Rightarrow> x = y)"

definition same_event :: "event \<Rightarrow> event \<Rightarrow> bool" where
  "same_event e f \<longleftrightarrow> same_data (ev_data e) (ev_data f) \<and> ev_depth e = ev_depth f"

text \<open>\<open>PartialEq\<close> of vectors.\<close>

fun same_trace :: "event list \<Rightarrow> event list \<Rightarrow> bool" where
  "same_trace [] [] = True"
| "same_trace (e # es) (f # fs) = (same_event e f \<and> same_trace es fs)"
| "same_trace _ _ = False"

text \<open>The filter of the block runner.\<close>

fun is_opcode :: "event \<Rightarrow> bool" where
  "is_opcode e = (case ev_data e of ED_OpCode _ \<Rightarrow> True | _ \<Rightarrow> False)"

section \<open>Dumping\<close>

text \<open>
  \<open>to_vec\<close> is \<open>serde_json::to_vec\<close>, which may fail; \<open>removable\<close> and \<open>openable\<close> tell what the
  operating system allows. A buffer that is dropped writes what it holds, so the lines before a
  failure are in the file. A disk that fills up is not modelled.
\<close>

type_synonym disk = "string \<Rightarrow> bytes option"

datatype dump_error = Dump_Io | Dump_Json

record 'e dump_env =
  to_vec :: "'e \<Rightarrow> bytes option"
  removable :: "string \<Rightarrow> bool"
  openable :: "string \<Rightarrow> bool"

fun dump_lines :: "('e \<Rightarrow> bytes option) \<Rightarrow> ('e \<Rightarrow> bool) \<Rightarrow> 'e list \<Rightarrow> bytes \<Rightarrow> nat \<Rightarrow> (nat, dump_error) res \<times> bytes" where
  "dump_lines vec f [] out n = (Ok n, out)"
| "dump_lines vec f (e # es) out n =
     (if \<not> f e then dump_lines vec f es out n
      else (case vec e of
          None \<Rightarrow> (Err Dump_Json, out)
        | Some json \<Rightarrow> dump_lines vec f es (out @ json @ [10]) (n + 1)))"

definition dump_filtered :: "'e dump_env \<Rightarrow> string \<Rightarrow> 'e list \<Rightarrow> ('e \<Rightarrow> bool) \<Rightarrow> (disk, dump_error, nat) monad" where
  "dump_filtered E path entries f = (\<lambda>d.
     if d path \<noteq> None \<and> \<not> removable E path then (Err Dump_Io, d)
     else let d = d(path := None) in
       if \<not> openable E path then (Err Dump_Io, d)
       else (case dump_lines (to_vec E) f entries [] 0 of (r, out) \<Rightarrow> (r, d(path \<mapsto> out))))"

definition dump_all :: "'e dump_env \<Rightarrow> string \<Rightarrow> 'e list \<Rightarrow> (disk, dump_error, unit) monad" where
  "dump_all E path entries = bindM (dump_filtered E path entries (\<lambda>_. True)) (\<lambda>_. returnM ())"

section \<open>Checking two dumps\<close>

text \<open>\<open>BufRead::lines\<close>: the pieces between line feeds, a carriage return before one removed; nothing
  after the last line feed is no line. Dumps are UTF-8, so reading their lines does not fail.\<close>

fun read_lines :: "bytes \<Rightarrow> bytes \<Rightarrow> bytes list" where
  "read_lines line [] = (if line = [] then [] else [line])"
| "read_lines line (c # cs) =
     (if c = 10 then (if line \<noteq> [] \<and> last line = 13 then butlast line else line) # read_lines [] cs
      else read_lines (line @ [c]) cs)"

datatype verdict = V_Match | V_Line nat

datatype check_error = Expected_OpCode | Expected_Key

text \<open>
  One pair of opcodes: in compact mode equal memories and equal stacks are cleared; then the data
  goes, the stack of \<open>revm\<close> is reversed, and the two are compared.
\<close>

definition compact_pair :: "bool \<Rightarrow> opcode_event \<times> opcode_event \<Rightarrow> opcode_event \<times> opcode_event" where
  "compact_pair compact = (\<lambda>(a, b).
     if compact then
       (let (a, b) = (if oe_memory a = oe_memory b then (a\<lparr>oe_memory := []\<rparr>, b\<lparr>oe_memory := []\<rparr>) else (a, b))
        in if oe_stack a = oe_stack b then (a\<lparr>oe_stack := []\<rparr>, b\<lparr>oe_stack := []\<rparr>) else (a, b))
     else (a, b))"

definition prepare_pair :: "bool \<Rightarrow> opcode_event \<Rightarrow> opcode_event \<Rightarrow> opcode_event \<times> opcode_event" where
  "prepare_pair compact a b =
     (case compact_pair compact (a, b) of (a, b) \<Rightarrow>
        (a\<lparr>oe_data := None, oe_stack := rev (oe_stack a)\<rparr>, b\<lparr>oe_data := None\<rparr>))"

text \<open>What a mismatch prints reads the top of both stacks for \<open>BALANCE\<close>.\<close>

definition report_line :: "nat \<Rightarrow> opcode_event \<Rightarrow> opcode_event \<Rightarrow> (verdict, check_error) res" where
  "report_line i a b =
     (if \<not> (oe_gas_left a \<le> 0 \<or> oe_gas_left b \<le> 0) \<and> oe_name b = ''BALANCE'' \<and> (oe_stack a = [] \<or> oe_stack b = [])
      then Panic else Ok (V_Line i))"

fun check_lines ::
    "(bytes \<Rightarrow> event option) \<Rightarrow> bool \<Rightarrow> nat \<Rightarrow> (bytes \<times> bytes) list \<Rightarrow> (verdict, check_error) res" where
  "check_lines parse compact i [] = Ok V_Match"
| "check_lines parse compact i ((a, b) # rest) =
     (if (a = []) \<noteq> (b = []) then Ok V_Match
      else (case (parse a, parse b) of
          (Some e, Some f) \<Rightarrow>
            (case ev_data e of
              ED_OpCode a \<Rightarrow>
                (case ev_data f of
                  ED_OpCode b \<Rightarrow>
                    (case prepare_pair compact a b of (a, b) \<Rightarrow>
                       if same_opcode b a then check_lines parse compact (i + 1) rest else report_line i a b)
                | _ \<Rightarrow> Err Expected_OpCode)
            | _ \<Rightarrow> Err Expected_OpCode)
        | _ \<Rightarrow> Panic))"

definition check_dumps :: "(bytes \<Rightarrow> event option) \<Rightarrow> bool \<Rightarrow> bytes \<Rightarrow> bytes \<Rightarrow> (verdict, check_error) res" where
  "check_dumps parse compact revm sole =
     check_lines parse compact 0 (zip (read_lines [] revm) (read_lines [] sole))"

end
