(* ===== verification/CompareProps.thy ===== *)
theory CompareProps
  imports TraceCompare
begin

text \<open>
  Properties of the comparison of traces: equality of events, dumps that are read back line by
  line, and what it takes for two dumps to match.
\<close>

section \<open>Equality\<close>

definition plain_data :: "event_data \<Rightarrow> event_data" where
  "plain_data x = (case x of ED_OpCode a \<Rightarrow> ED_OpCode (a\<lparr>oe_data := None\<rparr>) | _ \<Rightarrow> x)"

lemma same_opcode_plain: "same_opcode a b \<longleftrightarrow> a\<lparr>oe_data := None\<rparr> = b\<lparr>oe_data := None\<rparr>"
  by (cases a; cases b) (auto simp: same_opcode_def)

lemma same_data_plain: "same_data x y \<longleftrightarrow> plain_data x = plain_data y"
proof (cases "\<exists>a. x = ED_OpCode a")
  case True
  then show ?thesis by (cases y) (auto simp: same_data_def plain_data_def same_opcode_plain)
next
  case False
  then have "plain_data x = x" "same_data x y \<longleftrightarrow> x = y" by (cases x; simp add: plain_data_def same_data_def)+
  moreover have "plain_data y = y \<or> (\<exists>a. plain_data y = ED_OpCode a \<and> (\<exists>b. y = ED_OpCode b))"
    by (cases y) (simp_all add: plain_data_def)
  ultimately show ?thesis using False by metis
qed

lemma same_event_equivalence:
  "same_event e e" "same_event e f \<Longrightarrow> same_event f e" "same_event e f \<Longrightarrow> same_event f g \<Longrightarrow> same_event e g"
  by (simp_all add: same_event_def same_data_plain)

lemma same_trace_all: "same_trace es fs \<longleftrightarrow> list_all2 same_event es fs"
  by (induction es fs rule: same_trace.induct) auto

text \<open>The outcome that \<open>join\<close> writes into the events of a frame is never compared.\<close>

lemma same_trace_mark: "same_trace (map (mark_event r) es) es"
  by (induction es) (simp_all add: mark_event_def same_event_def same_data_plain)

section \<open>Dumps\<close>

text \<open>The lines of a dump, and what JSON text does not contain.\<close>

definition dump_text :: "('e \<Rightarrow> bytes option) \<Rightarrow> 'e list \<Rightarrow> bytes" where
  "dump_text vec es = concat (map (\<lambda>e. the (vec e) @ [10]) es)"

definition one_line :: "bytes option \<Rightarrow> bool" where
  "one_line v \<longleftrightarrow> (\<exists>json. v = Some json \<and> 10 \<notin> set json \<and> 13 \<notin> set json)"

lemma dump_lines_text:
  assumes "list_all (\<lambda>e. f e \<longrightarrow> vec e \<noteq> None) es"
  shows "dump_lines vec f es out n = (Ok (n + length (filter f es)), out @ dump_text vec (filter f es))"
  using assms by (induction es arbitrary: out n) (auto simp: dump_text_def)

lemma read_line:
  assumes "10 \<notin> set json" "13 \<notin> set (line @ json)"
  shows "read_lines line (json @ 10 # rest) = (line @ json) # read_lines [] rest"
  using assms
proof (induction json arbitrary: line)
  case Nil
  then have "\<not> (line \<noteq> [] \<and> last line = 13)" using last_in_set [of line] by fastforce
  then show ?case by auto
qed simp

lemma read_dump:
  assumes "list_all (\<lambda>e. one_line (vec e)) es"
  shows "read_lines [] (dump_text vec es) = map (the \<circ> vec) es"
  using assms
proof (induction es)
  case (Cons e es)
  then obtain json where "vec e = Some json" "10 \<notin> set json" "13 \<notin> set json" by (auto simp: one_line_def)
  with Cons read_line [of json "[]" "dump_text vec es"] show ?case by (simp add: dump_text_def)
qed (simp add: dump_text_def)

lemma dump_filtered_run:
  assumes "list_all (\<lambda>e. f e \<longrightarrow> one_line (to_vec E e)) entries" "d path = None \<or> removable E path" "openable E path"
  shows "dump_filtered E path entries f d =
    (Ok (length (filter f entries)), d(path \<mapsto> dump_text (to_vec E) (filter f entries)))"
proof -
  have "list_all (\<lambda>e. f e \<longrightarrow> to_vec E e \<noteq> None) entries" using assms(1) by (auto simp: list_all_iff one_line_def)
  then show ?thesis using assms(2,3) by (auto simp: dump_filtered_def dump_lines_text)
qed

text \<open>A dump replaces what the file held by one line for every entry that passes the filter, counts them,
  touches no other file, and is read back line by line.\<close>

theorem dump_read_back:
  assumes "list_all (\<lambda>e. f e \<longrightarrow> one_line (to_vec E e)) entries" "d path = None \<or> removable E path" "openable E path"
  shows "\<exists>d' content. dump_filtered E path entries f d = (Ok (length (filter f entries)), d') \<and>
    d' path = Some content \<and> map Some (read_lines [] content) = map (to_vec E) (filter f entries) \<and>
    (\<forall>p. p \<noteq> path \<longrightarrow> d' p = d p)"
proof -
  have lines: "list_all (\<lambda>e. one_line (to_vec E e)) (filter f entries)" using assms(1) by (auto simp: list_all_iff)
  then have "map Some (map (the \<circ> to_vec E) (filter f entries)) = map (to_vec E) (filter f entries)"
    by (auto simp: list_all_iff one_line_def)
  with read_dump [OF lines] dump_filtered_run [where E = E and f = f and d = d, OF assms] show ?thesis by auto
qed

theorem dump_read_back_witness:
  "\<exists>d' content. dump_filtered \<lparr>to_vec = (\<lambda>n :: nat. if n < 9 then Some [48 + word_of_nat n] else None), removable = (\<lambda>_. True), openable = (\<lambda>_. True)\<rparr>
      ''log'' [1, 2, 3, 9] (\<lambda>n. n < 3) [''log'' \<mapsto> [7]] = (Ok 2, d') \<and>
    d' ''log'' = Some content \<and> map Some (read_lines [] content) = [Some [49], Some [50]]"
  (is "\<exists>_ _. dump_filtered ?E _ _ _ _ = _ \<and> _")
proof -
  have "list_all (\<lambda>n. n < 3 \<longrightarrow> one_line (to_vec ?E n)) [1, 2, 3, 9]" by (simp add: one_line_def)
  from dump_read_back [of "\<lambda>n. n < 3" ?E "[1, 2, 3, 9]" "[''log'' \<mapsto> [7]]" "''log''", OF this]
  obtain d' content where run: "dump_filtered ?E ''log'' [1, 2, 3, 9] (\<lambda>n. n < 3) [''log'' \<mapsto> [7]]
      = (Ok (length (filter (\<lambda>n :: nat. n < 3) [1, 2, 3, 9])), d')"
    and content: "d' ''log'' = Some content"
    and lines: "map Some (read_lines [] content) = map (to_vec ?E) (filter (\<lambda>n. n < 3) [1, 2, 3, 9])"
    by (simp del: filter.simps list.map fun_upd_apply) blast
  have "length (filter (\<lambda>n :: nat. n < 3) [1, 2, 3, 9]) = 2" by simp
  note run' = run [unfolded this]
  have "map (to_vec ?E) (filter (\<lambda>n. n < 3) [1, 2, 3, 9]) = [Some [49], Some [50]]" by simp
  note lines' = trans [OF lines this]
  show ?thesis by (rule exI [of _ d'], rule exI [of _ content], intro conjI, rule run', rule content, rule lines')
qed

section \<open>Checks\<close>

text \<open>What a check without \<open>--compact\<close> asks of a pair of events: equal opcodes, once the stack of the first
  is reversed.\<close>

fun opcodes_agree :: "event_data \<Rightarrow> event_data \<Rightarrow> bool" where
  "opcodes_agree (ED_OpCode a) (ED_OpCode b) = same_opcode b (a\<lparr>oe_stack := rev (oe_stack a)\<rparr>)"
| "opcodes_agree _ _ = False"




text \<open>The traces of the block runner have both stacks from the top: a pair of events that are equal there does
  not match in the check, unless its stack reads the same in both directions.\<close>

lemma equal_events_mismatch:
  assumes "ev_data e = ED_OpCode a" "ev_data f = ED_OpCode b" "same_event e f" "rev (oe_stack a) \<noteq> oe_stack a"
  shows "\<not> opcodes_agree (ev_data e) (ev_data f)"
  using assms by (auto simp: same_event_def same_data_def same_opcode_def)



end
