(* ===== verification/CheckStepping.thy ===== *)
theory CheckStepping
  imports CompareProps "HOL-Library.Sublist"
begin

text \<open>
  The interactive mode of \<open>examples/check.rs\<close>: at a mismatch, at an event the predicate holds of, and
  while exploring, it asks for a key. The keys are a list; \<open>None\<close> in it is an event that is no key press.
\<close>

section \<open>Stepping\<close>

datatype predicate = P_Depth nat | P_IsCall | P_None

text \<open>\<open>call_flag\<close> is what the debug payload of the opcode says under \<open>is_call\<close>.\<close>

fun predicate_check :: "predicate \<Rightarrow> nat \<Rightarrow> bool option \<Rightarrow> bool" where
  "predicate_check (P_Depth d) depth call_flag = (depth = d)"
| "predicate_check P_IsCall depth call_flag = (case call_flag of Some b \<Rightarrow> b | None \<Rightarrow> False)"
| "predicate_check P_None depth call_flag = False"

datatype key = Key_N bool | Key_P bool | Key_D bool | Key_C bool | Key_G bool | Key_Other

record checker =
  ck_p :: predicate
  ck_failed :: bool
  ck_explore :: bool
  ck_index :: int
  ck_step :: int
  ck_shown :: "opcode_event list"

definition checker_start :: checker where
  "checker_start = \<lparr>ck_p = P_None, ck_failed = False, ck_explore = False, ck_index = 0, ck_step = 1, ck_shown = []\<rparr>"

text \<open>What a key does; \<open>None\<close> leaves the loop.\<close>

fun press :: "nat \<Rightarrow> key \<Rightarrow> checker \<Rightarrow> checker option" where
  "press d (Key_N shift) s = Some (s\<lparr>ck_step := 1, ck_explore := \<not> shift, ck_p := P_None\<rparr>)"
| "press d (Key_P shift) s = Some (s\<lparr>ck_step := -1, ck_explore := \<not> shift, ck_p := P_None\<rparr>)"
| "press d (Key_D shift) s = Some (s\<lparr>ck_p := P_Depth (d + 1), ck_explore := False, ck_step := (if \<not> shift then 1 else -1)\<rparr>)"
| "press d (Key_C shift) s = Some (s\<lparr>ck_p := P_IsCall, ck_explore := False, ck_step := (if \<not> shift then 1 else -1)\<rparr>)"
| "press d (Key_G shift) s = Some (s\<lparr>ck_explore := True, ck_index := (if shift then ck_index s else 0), ck_step := 0, ck_p := P_None\<rparr>)"
| "press d Key_Other s = None"

text \<open>A pair of opcodes before a key is asked for; the debug payloads were taken out of the events by then.\<close>

definition show_pair :: "nat \<Rightarrow> opcode_event \<Rightarrow> opcode_event \<Rightarrow> checker \<Rightarrow> checker" where
  "show_pair d a b s =
     (if \<not> same_opcode b a \<and> ck_p s = P_None then s\<lparr>ck_failed := True\<rparr>
      else if ck_explore s \<or> predicate_check (ck_p s) d None then s\<lparr>ck_shown := ck_shown s @ [a]\<rparr>
      else s)"

definition asks_key :: "nat \<Rightarrow> opcode_event \<Rightarrow> opcode_event \<Rightarrow> checker \<Rightarrow> bool" where
  "asks_key d a b s \<longleftrightarrow> \<not> same_opcode b a \<or> ck_explore s \<or> predicate_check (ck_p s) d None"

fun step_lines ::
    "(bytes \<Rightarrow> event option) \<Rightarrow> bool \<Rightarrow> (bytes \<times> bytes) list \<Rightarrow> key option list \<Rightarrow> checker \<Rightarrow> (checker, check_error) res" where
  "step_lines parse compact [] keys s = Ok s"
| "step_lines parse compact ((a, b) # rest) keys s =
     (if (a = []) \<noteq> (b = []) then Ok s
      else (case (parse a, parse b) of
          (Some e, Some f) \<Rightarrow>
            (case ev_data e of
              ED_OpCode a \<Rightarrow>
                (case ev_data f of
                  ED_OpCode b \<Rightarrow>
                    (case prepare_pair compact a b of (a, b) \<Rightarrow>
                       let d = ev_depth f; s1 = show_pair d a b s in
                       if asks_key d a b s then
                         (let s2 = s1\<lparr>ck_explore := False\<rparr> in
                          case keys of
                            [] \<Rightarrow> Err Expected_Key
                          | k # ks \<Rightarrow>
                              (case (case k of None \<Rightarrow> Some s2 | Some k \<Rightarrow> press d k s2) of
                                None \<Rightarrow> Ok s2
                              | Some s3 \<Rightarrow>
                                  if ck_index s3 = 0 \<and> ck_step s3 < 0 then Ok s3
                                  else step_lines parse compact rest ks (s3\<lparr>ck_index := ck_index s3 + ck_step s3\<rparr>)))
                       else if ck_index s1 = 0 \<and> ck_step s1 < 0 then Ok s1
                       else step_lines parse compact rest keys (s1\<lparr>ck_index := ck_index s1 + ck_step s1\<rparr>))
                | _ \<Rightarrow> Err Expected_OpCode)
            | _ \<Rightarrow> Err Expected_OpCode)
        | _ \<Rightarrow> Panic))"

definition check_interactively ::
    "(bytes \<Rightarrow> event option) \<Rightarrow> bool \<Rightarrow> bytes \<Rightarrow> bytes \<Rightarrow> key option list \<Rightarrow> (checker, check_error) res" where
  "check_interactively parse compact revm sole keys =
     step_lines parse compact (zip (read_lines [] revm) (read_lines [] sole)) keys checker_start"

section \<open>Properties\<close>

text \<open>The opcode the first dump has on a line.\<close>

definition line_opcode :: "(bytes \<Rightarrow> event option) \<Rightarrow> bytes \<Rightarrow> opcode_event option" where
  "line_opcode parse line = (case parse line of
     Some e \<Rightarrow> (case ev_data e of ED_OpCode a \<Rightarrow> Some a | _ \<Rightarrow> None) | None \<Rightarrow> None)"

definition line_pcs :: "(bytes \<Rightarrow> event option) \<Rightarrow> bytes list \<Rightarrow> nat list" where
  "line_pcs parse ls = map oe_pc (List.map_filter (line_opcode parse) ls)"

lemma press_shown: "press d k s = Some s' \<Longrightarrow> ck_shown s' = ck_shown s"
  by (cases k) auto

lemma prepare_pair_pc: "prepare_pair compact a b = (a', b') \<Longrightarrow> oe_pc a' = oe_pc a"
  by (auto simp: prepare_pair_def compact_pair_def Let_def split: if_splits prod.splits)

lemma show_pair_shown: "ck_shown (show_pair d a b s) = ck_shown s \<or> ck_shown (show_pair d a b s) = ck_shown s @ [a]"
  by (simp add: show_pair_def)

text \<open>
  Whatever keys are pressed, the events shown come from the first dump in its order, each at most once: a step
  back counts the index down, but the lines only go forward.
\<close>

lemma step_line:
  assumes "step_lines parse compact ((la, lb) # rest) keys s = Ok s'"
  shows "s' = s \<or> (\<exists>a0 b a' b' d s1. line_opcode parse la = Some a0 \<and> prepare_pair compact a0 b = (a', b') \<and>
    ck_shown s1 = ck_shown (show_pair d a' b' s) \<and> (s' = s1 \<or> (\<exists>ks. step_lines parse compact rest ks s1 = Ok s')))"
proof (cases "(la = []) \<noteq> (lb = [])")
  case True
  then show ?thesis using assms by simp
next
  case False
  with assms obtain e f a0 b where ev: "parse la = Some e" "parse lb = Some f" "ev_data e = ED_OpCode a0" "ev_data f = ED_OpCode b"
    by (auto split: option.splits event_data.splits)
  obtain a' b' where pair: "prepare_pair compact a0 b = (a', b')" by fastforce
  let ?s = "show_pair (ev_depth f) a' b' s"
  have moved: "\<exists>s1. ck_shown s1 = ck_shown ?s \<and> (s' = s1 \<or> (\<exists>ks. step_lines parse compact rest ks s1 = Ok s'))"
    if "s' = s2 \<or> step_lines parse compact rest ks (s2\<lparr>ck_index := i\<rparr>) = Ok s'" "ck_shown s2 = ck_shown ?s" for s2 ks i
    using that(1)
  proof
    assume "step_lines parse compact rest ks (s2\<lparr>ck_index := i\<rparr>) = Ok s'"
    moreover have "ck_shown (s2\<lparr>ck_index := i\<rparr>) = ck_shown ?s" using that(2) by simp
    ultimately show ?thesis by blast
  qed (use that(2) in blast)
  have "\<exists>s1. ck_shown s1 = ck_shown ?s \<and> (s' = s1 \<or> (\<exists>ks. step_lines parse compact rest ks s1 = Ok s'))"
  proof (cases "asks_key (ev_depth f) a' b' s")
    case True
    let ?s2 = "?s\<lparr>ck_explore := False\<rparr>"
    have keep: "ck_shown s3 = ck_shown ?s" if "(case k of None \<Rightarrow> Some ?s2 | Some k \<Rightarrow> press (ev_depth f) k ?s2) = Some s3" for k s3
      using that press_shown [of "ev_depth f" _ ?s2 s3] by (auto split: option.splits)
    show ?thesis
    proof (cases keys)
      case Nil
      with assms False ev pair True show ?thesis by (simp add: Let_def)
    next
      case (Cons k ks)
      show ?thesis
      proof (cases "case k of None \<Rightarrow> Some ?s2 | Some k \<Rightarrow> press (ev_depth f) k ?s2")
        case None
        with assms False ev pair True Cons have "s' = ?s2" by (simp add: Let_def)
        then have "ck_shown s' = ck_shown ?s" by simp
        then show ?thesis by blast
      next
        case (Some s3)
        with assms False ev pair True Cons have "s' = s3 \<or> step_lines parse compact rest ks (s3\<lparr>ck_index := ck_index s3 + ck_step s3\<rparr>) = Ok s'"
          by (simp add: Let_def split: if_splits)
        then show ?thesis by (rule moved) (rule keep [OF Some])
      qed
    qed
  next
    case asks: False
    with assms False ev pair have "s' = ?s \<or> step_lines parse compact rest keys (?s\<lparr>ck_index := ck_index ?s + ck_step ?s\<rparr>) = Ok s'"
      by (simp add: Let_def split: if_splits)
    then show ?thesis by (rule moved) (rule refl)
  qed
  with ev pair show ?thesis by (fastforce simp: line_opcode_def)
qed

lemma step_lines_forward:
  assumes "step_lines parse compact ls keys s = Ok s'"
  shows "\<exists>shown. ck_shown s' = ck_shown s @ shown \<and> subseq (map oe_pc shown) (line_pcs parse (map fst ls))"
  using assms
proof (induction ls arbitrary: keys s)
  case (Cons l ls)
  obtain la lb where l: "l = (la, lb)" by (cases l)
  show ?case
  proof (cases "s' = s")
    case False
    with step_line [OF Cons.prems [unfolded l]] obtain a0 b a' b' d s1
      where op: "line_opcode parse la = Some a0" and pair: "prepare_pair compact a0 b = (a', b')"
      and s1: "ck_shown s1 = ck_shown (show_pair d a' b' s)"
      and rest: "s' = s1 \<or> (\<exists>ks. step_lines parse compact ls ks s1 = Ok s')" by blast
    have pcs: "line_pcs parse (map fst (l # ls)) = oe_pc a' # line_pcs parse (map fst ls)"
      using op prepare_pair_pc [OF pair] by (simp add: l line_pcs_def List.map_filter_simps)
    obtain shown where later: "ck_shown s' = ck_shown s1 @ shown" "subseq (map oe_pc shown) (line_pcs parse (map fst ls))"
      using rest Cons.IH by (elim disjE exE) (force, blast)
    from show_pair_shown [of d a' b' s] show ?thesis
    proof
      assume "ck_shown (show_pair d a' b' s) = ck_shown s"
      then show ?thesis using later s1 pcs by (auto intro: list_emb_Cons)
    next
      assume "ck_shown (show_pair d a' b' s) = ck_shown s @ [a']"
      then show ?thesis using later s1 pcs by (intro exI [of _ "a' # shown"]) simp
    qed
  qed (auto intro: exI [of _ "[]"])
qed (simp add: line_pcs_def)

lemma check_goes_forward:
  assumes "check_interactively parse compact revm sole keys = Ok s"
  shows "subseq (map oe_pc (ck_shown s)) (line_pcs parse (map fst (zip (read_lines [] revm) (read_lines [] sole))))"
  using step_lines_forward [OF assms [unfolded check_interactively_def]] by (auto simp: checker_start_def)

text \<open>The predicate on calls never holds: it reads the debug payload that was taken out before.\<close>

lemma is_call_never_stops: "\<not> predicate_check P_IsCall d None"
  by simp

end
