(* ===== verification/Replay.thy ===== *)
theory Replay
  imports Solenoid EthClient TraceCompare "HOL-Library.Char_ord" "HOL-Library.List_Lexorder"
begin

text \<open>
  Replaying a block (\<open>examples/runner.rs\<close>): every transaction runs through the builders on one
  world state, its gas, result, state changes and trace are compared with those of \<open>revm\<close>, and what
  differs is dumped. \<open>revm\<close> is a list of its answers; reports on the terminal are left out.
\<close>

section \<open>One transaction\<close>

text \<open>The context of a transaction, as the block runner and the browser demo set it up.\<close>

definition replay_context :: "tx \<Rightarrow> u256 \<Rightarrow> (tx_context, 'e) res" where
  "replay_context t base_fee =
     res_bind (effective_gas_price t base_fee) (\<lambda>price. Ok \<lparr>
       t_gas_price = price,
       t_gas_max_fee = (case tg_max_fee (tx_gas_info t) of Some v \<Rightarrow> v | None \<Rightarrow> 0),
       t_blob_max_fee = (case tg_max_fee_per_blob (tx_gas_info t) of Some v \<Rightarrow> v | None \<Rightarrow> 0),
       t_gas_max_priority_fee = (case tg_max_priority_fee (tx_gas_info t) of Some v \<Rightarrow> v | None \<Rightarrow> 0),
       t_blob_gas_used = blob_count t * 131072,
       t_access_list = tx_access_list t\<rparr>)"

definition replay_runner :: "host \<Rightarrow> header \<Rightarrow> tx \<Rightarrow> runner" where
  "replay_runner H hdr t =
     execute_ready (execute_with_value (tx_value t) (execute_with_gas (tx_gas_limit t)
       (execute_with_sender (tx_from t) (execute_with_header hdr
         (solenoid_execute H (case tx_to t of Some a \<Rightarrow> a | None \<Rightarrow> addr_zero) [] (tx_input t))))))"

definition replay_data_cost :: "bytes \<Rightarrow> int" where
  "replay_data_cost calldata =
     (let total_calldata_len = length calldata;
          nonzero_bytes_count = length (filter (\<lambda>b. b \<noteq> 0) calldata)
      in int (nonzero_bytes_count * 16 + (total_calldata_len - nonzero_bytes_count) * 4))"

definition replay_gas_floor :: "bytes \<Rightarrow> int" where
  "replay_gas_floor calldata =
     (let zero_bytes = int (length (filter (\<lambda>b. b = 0) calldata));
          nonzero_bytes = int (length calldata) - zero_bytes;
          calldata_tokens = zero_bytes + nonzero_bytes * 4
      in 21000 + 10 * calldata_tokens)"

definition replay_gas_costs :: "tx \<Rightarrow> int \<Rightarrow> nat \<Rightarrow> int" where
  "replay_gas_costs t alc ret_len =
     (let call_cost = 21000;
          data_cost = replay_data_cost (tx_input t);
          create_cost = 32000;
          init_code_cost = 2 * int (div_ceil (length (tx_input t)) 32)
      in case tx_to t of
           Some _ \<Rightarrow> call_cost + data_cost + alc
         | None \<Rightarrow> (let deployed_code_cost = 200 * int ret_len in
             call_cost + data_cost + create_cost + init_code_cost + deployed_code_cost + alc))"

text \<open>The opcodes of a trace, with their stacks from the top.\<close>

definition replay_event :: "event \<Rightarrow> event" where
  "replay_event e = (case ev_data e of
     ED_OpCode opcode \<Rightarrow> e\<lparr>ev_data := ED_OpCode (opcode\<lparr>oe_stack := rev (oe_stack opcode)\<rparr>)\<rparr>
   | _ \<Rightarrow> e)"

definition replay_traces :: "event list \<Rightarrow> event list" where
  "replay_traces events = map replay_event (filter is_opcode events)"

section \<open>The state it touched\<close>

fun touched_account :: "account_touch \<Rightarrow> addr160 option" where
  "touched_account (T_GetState a _ _ _) = Some a"
| "touched_account (T_GetCode a _ _) = Some a"
| "touched_account (T_FeePay a _ _) = Some a"
| "touched_account (T_SetState a _ _ _ _) = Some a"
| "touched_account (T_SetNonce a _ _) = Some a"
| "touched_account (T_SetValue a _ _) = Some a"
| "touched_account (T_Create a _ _ _ _) = Some a"
| "touched_account _ = None"

fun touched_slot :: "account_touch \<Rightarrow> (addr160 \<times> u256) option" where
  "touched_slot (T_GetState a k _ _) = Some (a, k)"
| "touched_slot (T_SetState a k _ _ _) = Some (a, k)"
| "touched_slot _ = None"

text \<open>A \<open>BTreeSet\<close> is its elements in order.\<close>

definition btree_set :: "'a :: linorder list \<Rightarrow> 'a list" where
  "btree_set xs = sort (remdups xs)"

definition touched_accounts :: "account_touch list \<Rightarrow> addr160 list" where
  "touched_accounts touches = btree_set (List.map_filter touched_account touches)"

definition touched_keys :: "account_touch list \<Rightarrow> addr160 \<Rightarrow> u256 list" where
  "touched_keys touches a =
     btree_set (map snd (filter (\<lambda>ak. fst ak = a) (List.map_filter touched_slot touches)))"

record account_entry =
  en_balance :: u256
  en_nonce :: u64
  en_code_hash :: u256
  en_state :: "(u256 \<times> u256) list"

fun replay_slots :: "host \<Rightarrow> addr160 \<Rightarrow> u256 list \<Rightarrow> (u256 \<times> u256) list ext_m" where
  "replay_slots H a [] = returnM []"
| "replay_slots H a (key # keys) =
     bindM (ext_get H a key) (\<lambda>val. bindM (replay_slots H a keys) (\<lambda>rest. returnM ((key, val) # rest)))"

definition replay_entry :: "host \<Rightarrow> account_touch list \<Rightarrow> addr160 \<Rightarrow> account_entry ext_m" where
  "replay_entry H touches a =
     bindM (ext_pull H a) (\<lambda>account.
     bindM (liftM (as_u64 (a_nonce account))) (\<lambda>nonce.
     bindM (replay_slots H a (touched_keys touches a)) (\<lambda>state.
       returnM \<lparr>en_balance = a_value account, en_nonce = nonce, en_code_hash = snd (a_code account),
         en_state = state\<rparr>)))"

fun replay_entries :: "host \<Rightarrow> account_touch list \<Rightarrow> addr160 list \<Rightarrow> (addr160 \<times> account_entry) list ext_m" where
  "replay_entries H touches [] = returnM []"
| "replay_entries H touches (a # as) =
     bindM (replay_entry H touches a) (\<lambda>entry.
     bindM (replay_entries H touches as) (\<lambda>rest. returnM ((a, entry) # rest)))"

text \<open>Display of an unsigned integer.\<close>

fun decimal :: "nat \<Rightarrow> string" where
  "decimal n = (if n < 10 then [char_of (48 + n)] else decimal (n div 10) @ [char_of (48 + n mod 10)])"

text \<open>A JSON object keeps its members in order.\<close>

definition json_object :: "(string \<times> json) list \<Rightarrow> json" where
  "json_object kvs = JObject (map (\<lambda>k. (k, the (map_of (rev kvs) k))) (btree_set (map fst kvs)))"

definition word_text :: "('s, 'h, 'b) eth_env \<Rightarrow> u256 \<Rightarrow> string" where
  "word_text E w = (case word_json E w of JString s \<Rightarrow> s | _ \<Rightarrow> [])"

definition entry_json :: "('s, 'h, 'b) eth_env \<Rightarrow> account_entry \<Rightarrow> json" where
  "entry_json E e = json_object
     ([(''balance'', word_json E (en_balance e)),
       (''nonce'', JNumber (decimal (unat (en_nonce e)))),
       (''code'', JString (''0x'' @ ec_hex_encode E (into_bytes (en_code_hash e))))] @
      (if en_state e = [] then []
       else [(''state'', json_object (map (\<lambda>(k, v). (word_text E k, word_json E v)) (en_state e)))]))"

definition as_state :: "host \<Rightarrow> ('s, 'h, 'b) eth_env \<Rightarrow> account_touch list \<Rightarrow> (string \<rightharpoonup> json) ext_m" where
  "as_state H E touches =
     bindM (replay_entries H touches (touched_accounts touches)) (\<lambda>entries.
       returnM (map_of (rev (map (\<lambda>(a, e). (addr_text E a, entry_json E e)) entries))))"

record tx_result =
  tr_gas :: int
  tr_ret :: bytes
  tr_rev :: bool
  tr_state :: "string \<rightharpoonup> json"

definition as_tx_result ::
    "host \<Rightarrow> ('s, 'h, 'b) eth_env \<Rightarrow> int \<Rightarrow> int \<Rightarrow> call_result \<Rightarrow> tx_result ext_m" where
  "as_tx_result H E gas_costs gas_floor result =
     (let gas = max (gas_finalized (e_gas (cr_evm result)) gas_costs (e_reverted (cr_evm result))) gas_floor in
      bindM (as_state H E (e_touches (cr_evm result))) (\<lambda>state.
        returnM \<lparr>tr_gas = gas, tr_ret = cr_ret result, tr_rev = e_reverted (cr_evm result), tr_state = state\<rparr>))"

section \<open>The runner\<close>

text \<open>A panic inside the spawned task is the error of joining it; the state it locked stays as it was left.\<close>

datatype replay_error = RE_Executor exec_error | RE_Join

definition spawned :: "('s, exec_error, 'a) monad \<Rightarrow> ('s, replay_error, 'a) monad" where
  "spawned c = (\<lambda>s. case c s of
     (Ok a, s') \<Rightarrow> (Ok a, s')
   | (Err e, s') \<Rightarrow> (Err (RE_Executor e), s')
   | (Panic, s') \<Rightarrow> (Err RE_Join, s')
   | (OutOfFuel, s') \<Rightarrow> (OutOfFuel, s'))"

definition replay_task ::
    "nat \<Rightarrow> host \<Rightarrow> ('s, 'h, 'b) eth_env \<Rightarrow> header \<Rightarrow> tx_context \<Rightarrow> tx \<Rightarrow> (tx_result \<times> event list) ext_m" where
  "replay_task fuel H E hdr ctx t =
     seqM (modifyM (ext_reset ctx))
       (bindM (runner_apply fuel H (replay_runner H hdr t)) (\<lambda>result.
        let gas_costs = replay_gas_costs t (access_list_cost ctx) (length (cr_ret result));
            traces = replay_traces (fst (log_take (cr_tracer result)))
        in bindM (as_tx_result H E gas_costs (replay_gas_floor (tx_input t)) result) (\<lambda>tx_result.
             returnM (tx_result, traces))))"

definition replay_tx ::
    "nat \<Rightarrow> host \<Rightarrow> ('s, 'h, 'b) eth_env \<Rightarrow> header \<Rightarrow> tx \<Rightarrow> (ext, replay_error, tx_result \<times> event list) monad" where
  "replay_tx fuel H E hdr t =
     bindM (liftM (replay_context t (h_base_fee hdr))) (\<lambda>ctx. spawned (replay_task fuel H E hdr ctx t))"

section \<open>The block\<close>

text \<open>\<open>pretty\<close> is \<open>serde_json::to_string_pretty\<close>, whose failure writes an empty file.\<close>

record ('s, 'h, 'b) bench_env =
  be_eth :: "('s, 'h, 'b) eth_env"
  be_dump :: "event dump_env"
  be_pretty :: "(string \<rightharpoonup> json) \<Rightarrow> bytes option"

record bench =
  bn_ext :: ext
  bn_disk :: disk
  bn_matched :: nat

definition trace_file :: "string \<Rightarrow> nat \<Rightarrow> nat \<Rightarrow> string" where
  "trace_file machine block_number idx = machine @ ''.'' @ decimal block_number @ ''.'' @ decimal idx @ ''.log''"

definition state_file :: "string \<Rightarrow> nat \<Rightarrow> nat \<Rightarrow> string" where
  "state_file machine block_number idx = machine @ ''.'' @ decimal block_number @ ''.'' @ decimal idx @ ''.state.json''"

definition write_file :: "'e dump_env \<Rightarrow> string \<Rightarrow> bytes \<Rightarrow> disk \<Rightarrow> disk" where
  "write_file E path content d = (if openable E path then d(path \<mapsto> content) else d)"

definition dump_difference ::
    "('s, 'h, 'b) bench_env \<Rightarrow> nat \<Rightarrow> nat \<Rightarrow> tx_result \<times> event list \<Rightarrow> tx_result \<times> event list \<Rightarrow> disk \<Rightarrow> disk" where
  "dump_difference B block_number idx revm sole d =
     (let d = snd (dump_all (be_dump B) (trace_file ''revm'' block_number idx) (snd revm) d);
          d = snd (dump_filtered (be_dump B) (trace_file ''sole'' block_number idx) (snd sole) is_opcode d);
          d = write_file (be_dump B) (state_file ''revm'' block_number idx)
                (case be_pretty B (tr_state (fst revm)) of Some s \<Rightarrow> s | None \<Rightarrow> []) d
      in write_file (be_dump B) (state_file ''sole'' block_number idx)
           (case be_pretty B (tr_state (fst sole)) of Some s \<Rightarrow> s | None \<Rightarrow> []) d)"

definition replay_matches :: "tx_result \<times> event list \<Rightarrow> tx_result \<times> event list \<Rightarrow> bool" where
  "replay_matches revm sole \<longleftrightarrow>
     tr_rev (fst revm) = tr_rev (fst sole) \<and> tr_ret (fst revm) = tr_ret (fst sole) \<and>
     tr_gas (fst revm) = tr_gas (fst sole) \<and> same_trace (snd revm) (snd sole) \<and>
     tr_state (fst revm) = tr_state (fst sole)"

text \<open>
  The body of the loop. An error of \<open>revm\<close> (\<open>None\<close>) ends the program, as does a panic outside
  the task; an error of the task is reported and the loop goes on.
\<close>

definition replay_compare ::
    "nat \<Rightarrow> host \<Rightarrow> ('s, 'h, 'b) bench_env \<Rightarrow> header \<Rightarrow> nat \<Rightarrow> nat \<Rightarrow> (tx_result \<times> event list) option \<Rightarrow> tx \<Rightarrow>
      (bench, unit, unit) monad" where
  "replay_compare fuel H B hdr block_number idx revm t = (\<lambda>s. case revm of
     None \<Rightarrow> (Err (), s)
   | Some revm \<Rightarrow>
       (case replay_tx fuel H (be_eth B) hdr t (bn_ext s) of
          (Ok sole, x) \<Rightarrow> (Ok (),
            if replay_matches revm sole then s\<lparr>bn_ext := x, bn_matched := bn_matched s + 1\<rparr>
            else s\<lparr>bn_ext := x, bn_disk := dump_difference B block_number idx revm sole (bn_disk s)\<rparr>)
        | (Err e, x) \<Rightarrow> (Ok (), s\<lparr>bn_ext := x\<rparr>)
        | (Panic, x) \<Rightarrow> (Panic, s\<lparr>bn_ext := x\<rparr>)
        | (OutOfFuel, x) \<Rightarrow> (OutOfFuel, s\<lparr>bn_ext := x\<rparr>)))"

fun replay_loop ::
    "nat \<Rightarrow> host \<Rightarrow> ('s, 'h, 'b) bench_env \<Rightarrow> header \<Rightarrow> nat \<Rightarrow> nat \<Rightarrow>
      ((tx_result \<times> event list) option \<times> tx) list \<Rightarrow> (bench, unit, unit) monad" where
  "replay_loop fuel H B hdr block_number idx [] = returnM ()"
| "replay_loop fuel H B hdr block_number idx ((revm, t) # rest) =
     seqM (replay_compare fuel H B hdr block_number idx revm t)
       (replay_loop fuel H B hdr block_number (idx + 1) rest)"

definition replay_block ::
    "nat \<Rightarrow> host \<Rightarrow> ('s, 'h, 'b) bench_env \<Rightarrow> header \<Rightarrow> nat \<Rightarrow> (tx_result \<times> event list) option list \<Rightarrow> tx list \<Rightarrow>
      ext \<Rightarrow> disk \<Rightarrow> (unit, unit) res \<times> bench" where
  "replay_block fuel H B hdr block_number revm txs x d =
     (let s = \<lparr>bn_ext = x, bn_disk = d, bn_matched = 0\<rparr>
      in if length revm \<noteq> length txs then (Panic, s)
         else replay_loop fuel H B hdr block_number 0 (zip revm txs) s)"

end
