(* ===== verification/ReplayDemo.thy ===== *)
theory ReplayDemo
  imports Replay RunnerDemo
begin

text \<open>
  Two transactions replayed on concrete input, from which the witnesses about replays are taken: a
  call of an account without code, and a creation.
\<close>

definition demo_eth :: "(unit, unit, unit) eth_env" where
  "demo_eth = \<lparr>ec_post = (\<lambda>_ _ s. (None, s)), ec_hex_encode = map (\<lambda>b. char_of (unat b)), ec_hex_decode = (\<lambda>_. None),
     ec_radix16 = (\<lambda>_. None), ec_key_text = (\<lambda>_. []), ec_header = (\<lambda>_. None), ec_header_hash = (\<lambda>_. 0),
     ec_block = (\<lambda>_. None)\<rparr>"

definition demo_tx :: "addr160 option \<Rightarrow> tx" where
  "demo_tx to_addr = \<lparr>tx_hash = 0, tx_index = 0, tx_from = 0x11, tx_gas_limit = 100000, tx_input = [], tx_to = to_addr,
     tx_value = 0, tx_gas_info = \<lparr>tg_price = None, tg_max_fee = None, tg_max_priority_fee = None, tg_max_fee_per_blob = None\<rparr>,
     tx_blob_versioned_hashes = None, tx_access_list = []\<rparr>"

definition demo_ctx :: tx_context where
  "demo_ctx = \<lparr>t_gas_price = 0, t_gas_max_fee = 0, t_blob_max_fee = 0, t_gas_max_priority_fee = 0, t_blob_gas_used = 0,
     t_access_list = []\<rparr>"

text \<open>Which accounts and slots are listed.\<close>

lemma set_map_filter: "set (List.map_filter f xs) = {y. \<exists>x \<in> set xs. f x = Some y}"
  by (induction xs) (auto simp: List.map_filter_simps split: option.splits)

lemma touched_listed:
  "set (touched_accounts touches) = {a. \<exists>t \<in> set touches. touched_account t = Some a}"
  "set (touched_keys touches a) = {k. \<exists>t \<in> set touches. touched_slot t = Some (a, k)}"
  "sorted (touched_accounts touches)" "distinct (touched_accounts touches)"
  "sorted (touched_keys touches a)" "distinct (touched_keys touches a)"
  by (auto simp: touched_accounts_def touched_keys_def btree_set_def set_map_filter image_iff)

lemma demo_tx_context: "replay_context (demo_tx to_addr) base_fee = Ok demo_ctx"
  by (simp add: replay_context_def demo_tx_def effective_gas_price_def blob_count_def demo_ctx_def)

lemma demo_tx_runner: "replay_runner demo_host demo_quiet_header (demo_tx to_addr) =
  \<lparr>r_header = demo_quiet_header, r_call = \<lparr>c_data = [], c_value = 0, c_from = 0x11,
     c_to = (case to_addr of Some a \<Rightarrow> a | None \<Rightarrow> 0), c_gas = 100000\<rparr>, r_code = []\<rparr>"
  by (simp add: replay_runner_def execute_ready_def execute_with_value_def execute_with_gas_def execute_with_sender_def
      execute_with_header_def solenoid_execute_def demo_tx_def addr_zero_eq Let_def cong: option.case_cong)

text \<open>Accounts of a state that are known, with nonces of 64 bits, and touches that read no slot.\<close>

definition reportable :: "evm \<Rightarrow> ext \<Rightarrow> bool" where
  "reportable e y \<longleftrightarrow>
     (\<forall>t \<in> set (e_touches e). touched_slot t = None \<and>
        (\<forall>a. touched_account t = Some a \<longrightarrow> (\<exists>acc. x_state y a = Some acc \<and> unat (a_nonce acc) < 2 ^ 64)))"

lemma replay_entries_present:
  assumes "\<forall>a \<in> set as. \<exists>acc. x_state x a = Some acc \<and> unat (a_nonce acc) < 2 ^ 64"
    and "\<forall>a. touched_keys touches a = []"
  shows "\<exists>entries. replay_entries H touches as x = (Ok entries, x)"
  using assms(1)
proof (induction as)
  case (Cons a as)
  then obtain acc where "x_state x a = Some acc" "unat (a_nonce acc) < 2 ^ 64" by auto
  with Cons assms(2) show ?case by (auto simp: replay_entry_def ext_pull_def as_u64_def monad_defs)
qed (simp add: returnM_def)

lemma reportable_entries:
  assumes "reportable e y"
  shows "\<exists>entries. replay_entries H (e_touches e) (touched_accounts (e_touches e)) y = (Ok entries, y)"
proof (rule replay_entries_present)
  show "\<forall>a \<in> set (touched_accounts (e_touches e)). \<exists>acc. x_state y a = Some acc \<and> unat (a_nonce acc) < 2 ^ 64"
    using assms touched_listed(1) [of "e_touches e"] by (auto simp: reportable_def)
  have "set (touched_keys (e_touches e) a) = {}" for a
    using assms touched_listed(2) [of "e_touches e" a] by (auto simp: reportable_def)
  then show "\<forall>a. touched_keys (e_touches e) a = []" by simp
qed

lemma replay_tx_run:
  assumes "runner_apply fuel demo_host (replay_runner demo_host demo_quiet_header (demo_tx to_addr)) (ext_reset demo_ctx x)
      = (Ok res, y)" "reportable (cr_evm res) y"
  shows "\<exists>r traces. replay_tx fuel demo_host demo_eth demo_quiet_header (demo_tx to_addr) x = (Ok (r, traces), y) \<and>
    tr_rev r = e_reverted (cr_evm res)"
proof -
  obtain entries where "replay_entries demo_host (e_touches (cr_evm res)) (touched_accounts (e_touches (cr_evm res))) y
      = (Ok entries, y)" using reportable_entries [OF assms(2)] by blast
  with assms(1) show ?thesis
    by (simp add: replay_tx_def demo_tx_context spawned_def replay_task_def as_tx_result_def as_state_def log_take_def
        bindM_def seqM_def liftM_def modifyM_def returnM_def Let_def)
qed

section \<open>A call\<close>

definition demo_base :: ext where
  "demo_base = ext_reset demo_ctx demo_world"

lemma demo_base_simps:
  "x_state demo_base = x_state demo_world" "x_remote demo_base = None" "x_accessed_addresses demo_base = {}"
  "x_tx_ctx demo_base = demo_ctx" "x_created_accounts demo_base = []"
  by (simp_all add: demo_base_def ext_reset_def demo_world_def demo_ext_def)

lemma empty_code: "decode_bytecode [] = \<lparr>bc_bytecode = [], bc_instructions = [], bc_jumptable = []\<rparr>"
  by code_simp

text \<open>The machine that \<open>Executor::execute\<close> gets.\<close>

definition demo_called :: machine where
  "demo_called = \<lparr>m_evm = evm_default\<lparr>e_gas := gas_new 79000, e_touches := [T_GetCode 0x42 0 [], T_WarmUp 4480]\<rparr>,
     m_ext = demo_base\<lparr>x_created_accounts := [4480], x_accessed_addresses := {4480},
       x_state := (x_state demo_world)(4480 \<mapsto> account_default)\<rparr>, m_ret = [], m_trace = []\<rparr>"

lemma demo_call_start:
  fixes k :: "bytecode \<Rightarrow> int \<Rightarrow> (bytes \<times> gas_result) exec"
  defines "call \<equiv> \<lparr>c_data = [], c_value = 0, c_from = 0x11, c_to = 0x42, c_gas = 100000\<rparr>"
  shows "bindM (runner_code demo_host \<lparr>r_header = demo_quiet_header, r_call = call, r_code = []\<rparr>) (\<lambda>code.
      bindM (runner_gas demo_host call) (\<lambda>upfront. bindM (runner_created demo_host call) (\<lambda>created.
      seqM (runner_endow demo_host call created) (k (decode_bytecode code) upfront)))) (fresh demo_base) =
    k (decode_bytecode []) 21000 demo_called"
  using demo_created
  by (simp add: call_def runner_code_def runner_gas_def runner_created_def runner_endow_def upfront_gas_def demo_defs
      demo_base_simps register_created_def demo_ctx_def entry_or_default_def ext_pull_def account_get_def div_ceil_def
      demo_called_def Let_def)

lemma empty_frame_run:
  assumes "0 < fuel"
  shows "execute_with_context fuel H hdr \<lparr>bc_bytecode = [], bc_instructions = [], bc_jumptable = []\<rparr> call ctx =
    seqM (announce_call call ctx) (if k_depth ctx > call_depth_limit then seqM stop_reverted (returnM []) else getsM m_ret)"
proof -
  have "run_loop fuel H hdr \<lparr>bc_bytecode = [], bc_instructions = [], bc_jumptable = []\<rparr> call ctx = getsM m_ret"
    using assms by (cases fuel) (simp_all add: end_frame_def fun_eq_iff monad_defs)
  then show ?thesis by (simp add: execute_with_context_def enter_frame_def)
qed

lemma demo_call_executed:
  "\<exists>m. execute 80000 demo_host demo_quiet_header (decode_bytecode []) \<lparr>c_data = [], c_value = 0, c_from = 0x11, c_to = 0x42, c_gas = 100000\<rparr>
     demo_called = (Ok [], m) \<and> \<not> e_reverted (m_evm m) \<and> m_gas m = gas_new 79000 \<and>
     reportable (m_evm m) (m_ext m) \<and> x_tx_ctx (m_ext m) = demo_ctx"
  by (simp add: execute_def empty_code demo_called_def tx_warm_def tx_prepay_def tx_intrinsic_def tx_transfer_def bump_nonce_def
     demo_base_simps demo_ctx_def demo_defs tx_run_def empty_frame_run announce_call_def context_default_def
     tx_effective_price_def tx_gas_final_def tx_gas_costs_def tx_gas_floor_def gas_finalized_def gas_new_def trunc_div_def
     word_of_i64_def word_sub_def overflowing_sub_def tx_refund_sender_def tx_pay_coinbase_def tx_blob_fee_def log_fork_def
     reportable_def Let_def)

lemma demo_replayed_call:
  "\<exists>r traces y. replay_tx 80000 demo_host demo_eth demo_quiet_header (demo_tx (Some 0x42)) demo_world = (Ok (r, traces), y)"
proof -
  let ?call = "\<lparr>c_data = [], c_value = 0, c_from = 0x11, c_to = 0x42, c_gas = 100000\<rparr> :: call"
  let ?R = "\<lparr>r_header = demo_quiet_header, r_call = ?call, r_code = []\<rparr> :: runner"
  have R: "replay_runner demo_host demo_quiet_header (demo_tx (Some 0x42)) = ?R" by (simp add: demo_tx_runner)
  have miner: "h_miner demo_quiet_header = 0" by (simp add: demo_quiet_header_def)
  obtain m where m: "execute 80000 demo_host demo_quiet_header (decode_bytecode []) ?call demo_called = (Ok [], m)"
      "\<not> e_reverted (m_evm m)" "m_gas m = gas_new 79000" "reportable (m_evm m) (m_ext m)" "x_tx_ctx (m_ext m) = demo_ctx"
    using demo_call_executed by blast
  have "runner_body 80000 demo_host ?R (fresh demo_base) =
      runner_call 80000 demo_host ?R (decode_bytecode []) 21000 demo_called"
    using demo_call_start [of "runner_call 80000 demo_host ?R"]
    by (simp add: runner_body_def miner addr_is_zero_iff seqM_def returnM_def bindM_def)
  also have "\<exists>rep. runner_call 80000 demo_host ?R (decode_bytecode []) 21000 demo_called = (Ok ([], rep), m)"
    using m by (simp add: runner_call_def gas_report_def seqM_def bindM_def returnM_def getsM_def liftM_def demo_ctx_def
        as_i64_def as_u64_def gas_finalized_def gas_new_def trunc_div_def word_of_i64_def word_mul_def overflowing_mul_def)
  finally obtain rep where "runner_body 80000 demo_host ?R (fresh demo_base) = (Ok ([], rep), m)" by blast
  then have "runner_apply 80000 demo_host ?R demo_base =
      (Ok \<lparr>cr_evm = m_evm m, cr_ret = [], cr_tracer = m_trace m, cr_gas = rep\<rparr>, m_ext m)"
    by (simp add: runner_apply_def)
  from replay_tx_run [OF this [folded R, unfolded demo_base_def]] m show ?thesis by auto
qed

section \<open>A creation\<close>

lemma demo_creation_run:
  "\<exists>res y. runner_apply 80000 demo_host (replay_runner demo_host demo_quiet_header (demo_tx None)) demo_base = (Ok res, y) \<and>
     \<not> e_reverted (cr_evm res) \<and> reportable (cr_evm res) y"
  unfolding demo_tx_runner using demo_created
  by (simp add: runner_apply_def runner_body_def runner_code_def runner_gas_def runner_created_def runner_endow_def
      upfront_gas_def demo_defs demo_base_simps register_created_def demo_ctx_def entry_or_default_def ext_pull_def
      account_get_def div_ceil_def runner_create_def empty_code empty_frame_run announce_call_def context_default_def
      code_deposit_def runner_coinbase_def install_code_def nonce_recorded_def nonce_plus_one_def set_code_def
      charge_sender_def set_value_def gas_report_def gas_finalized_def gas_new_def gas_remaining_def trunc_div_def
      word_of_i64_def word_sub_def overflowing_sub_def reportable_def Let_def)

lemma demo_replayed_creation:
  "\<exists>r traces y. replay_tx 80000 demo_host demo_eth demo_quiet_header (demo_tx None) demo_world = (Ok (r, traces), y) \<and>
     \<not> tr_rev r"
  using demo_creation_run replay_tx_run [where to_addr = None and x = demo_world, folded demo_base_def] by blast

end
