(* ===== verification/ReplayProps.thy ===== *)
theory ReplayProps
  imports ReplayDemo SolenoidProps CompareProps
begin

text \<open>
  Properties of replays: what a transaction reports of the state and of its gas, what becomes of
  creations, and what the loop over a block does to the state and to the disk.
\<close>

section \<open>Snapshots\<close>

definition same_views :: "host \<Rightarrow> ext \<Rightarrow> ext \<Rightarrow> bool" where
  "same_views H x x' \<longleftrightarrow> storage_view x' = storage_view x \<and> balance_view x' = balance_view x \<and>
     nonce_view x' = nonce_view x \<and> code_view H x' = code_view H x"

interpretation views: step_relation "same_views H" for H
  by unfold_locales (simp_all add: same_views_def)

lemma same_views_pull: "preserves (same_views H) (ext_pull H a)"
  by (auto simp: preserves_def same_views_def dest: ext_pull_views)

lemma account_view_loaded:
  assumes "x_state x a = Some acc" "\<And>acc v. sel (acc\<lparr>a_state := v\<rparr>) = sel acc"
  shows "account_view sel ask (note_original a k v (set_slot a k v x)) = account_view sel ask x"
    "account_view sel ask (note_original a k v x) = account_view sel ask x"
  using assms by (auto simp: account_view_def note_original_def set_slot_def fun_eq_iff split: option.splits)

lemma same_views_get: "preserves (same_views H) (ext_get H a k)"
  unfolding preserves_def
proof (intro allI impI)
  fix x r x' assume get: "ext_get H a k x = (r, x')" and r: "settled r"
  have present: "same_views H y x'" if "x_state y a = Some acc" "ext_get H a k y = (r, x')" for y acc
    using that ext_get_view(1) [OF that(2)]
    by (auto simp: same_views_def ext_get_present balance_view_def nonce_view_def code_view_def account_view_loaded
        split: option.splits)
  show "same_views H x x'"
  proof (cases "x_state x a")
    case (Some acc)
    then show ?thesis using present get by blast
  next
    case None
    obtain r0 y where pull: "ext_pull H a x = (r0, y)" by fastforce
    have keep: "same_views H x y" using pull by (auto simp: same_views_def dest: ext_pull_views)
    show ?thesis
    proof (cases r0)
      case (Ok acc)
      then have "x_state y a = Some acc" "ext_get H a k y = (r, x')"
        using pull get None ext_pull_Ok_present by (auto simp: ext_get_absent)
      from present [OF this] keep show ?thesis by (rule views.R_trans [rotated])
    qed (use keep pull get None in \<open>simp_all add: ext_get_absent\<close>)
  qed
qed

text \<open>An entry shows what the state holds of an account.\<close>

definition entry_shows :: "host \<Rightarrow> account_touch list \<Rightarrow> ext \<Rightarrow> addr160 \<Rightarrow> account_entry \<Rightarrow> bool" where
  "entry_shows H touches x a e \<longleftrightarrow> balance_view x a = Some (en_balance e) \<and>
     nonce_view x a = Some (ucast (en_nonce e)) \<and> (\<exists>code. code_view H x a = Some (code, en_code_hash e)) \<and>
     map fst (en_state e) = touched_keys touches a \<and> (\<forall>(k, v) \<in> set (en_state e). storage_view x (a, k) = Some v)"

lemma entry_shows_views: "same_views H x x' \<Longrightarrow> entry_shows H touches x' a e = entry_shows H touches x a e"
  by (simp add: entry_shows_def same_views_def)

lemma replay_slots_shown:
  assumes "replay_slots H a keys x = (Ok kvs, x')"
  shows "same_views H x x' \<and> map fst kvs = keys \<and> (\<forall>(k, v) \<in> set kvs. storage_view x (a, k) = Some v)"
  using assms
proof (induction keys arbitrary: x kvs)
  case Nil
  then show ?case by (simp add: returnM_def views.R_refl)
next
  case (Cons key keys)
  then obtain val y rest where get: "ext_get H a key x = (Ok val, y)" and tl: "replay_slots H a keys y = (Ok rest, x')"
    and kvs: "kvs = (key, val) # rest" by (auto simp: bindM_Ok_iff returnM_def)
  have keep: "same_views H x y" using preservesD [OF same_views_get get] by simp
  then have "storage_view y = storage_view x" by (simp add: same_views_def)
  with Cons.IH [OF tl] keep ext_get_view(2) [OF get] views.R_trans [of H x y x'] show ?case by (auto simp: kvs)
qed

lemma as_u64_back:
  assumes "as_u64 w = (Ok n :: (u64, 'e) res)"
  shows "ucast n = (w :: u256)"
proof -
  have "unat w < 2 ^ 64" "n = ucast w" using assms by (auto simp: as_u64_def split: if_splits)
  then have "unat (ucast n :: u256) = unat w" by (simp add: unsigned_ucast_eq unsigned_take_bit_eq take_bit_nat_eq_self)
  then show ?thesis by (simp only: word_eq_iff_unsigned [where 'a = nat])
qed

lemma replay_entry_shown:
  assumes "replay_entry H touches a x = (Ok e, x')"
  shows "same_views H x x' \<and> entry_shows H touches x a e"
proof -
  obtain acc y nonce kvs where pull: "ext_pull H a x = (Ok acc, y)"
    and nonce: "as_u64 (a_nonce acc) = (Ok nonce :: (u64, exec_error) res)"
    and kvs: "replay_slots H a (touched_keys touches a) y = (Ok kvs, x')"
    and e: "e = \<lparr>en_balance = a_value acc, en_nonce = nonce, en_code_hash = snd (a_code acc), en_state = kvs\<rparr>"
    using assms by (auto simp: replay_entry_def bindM_Ok_iff liftM_def returnM_def)
  have keep: "same_views H x y" using preservesD [OF same_views_pull pull] by simp
  have "entry_shows H touches y a e"
    using ext_pull_Ok_present [OF pull] replay_slots_shown [OF kvs] as_u64_back [OF nonce]
    by (simp add: entry_shows_def e balance_view_def nonce_view_def code_view_def account_view_def)
      (metis prod.collapse)
  then show ?thesis
    using keep replay_slots_shown [OF kvs] entry_shows_views [OF keep] views.R_trans [of H x y x'] by blast
qed

lemma replay_entries_shown:
  assumes "replay_entries H touches as x = (Ok entries, x')"
  shows "same_views H x x' \<and> map fst entries = as \<and> (\<forall>(a, e) \<in> set entries. entry_shows H touches x a e)"
  using assms
proof (induction as arbitrary: x entries)
  case Nil
  then show ?case by (simp add: returnM_def views.R_refl)
next
  case (Cons a as)
  then obtain e y rest where one: "replay_entry H touches a x = (Ok e, y)"
    and tl: "replay_entries H touches as y = (Ok rest, x')" and es: "entries = (a, e) # rest"
    by (auto simp: bindM_Ok_iff returnM_def)
  note one = replay_entry_shown [OF one]
  with Cons.IH [OF tl] entry_shows_views [of H x y touches] views.R_trans [of H x y x'] show ?case
    by (auto simp: es)
qed

section \<open>A transaction\<close>

lemma spawned_Ok: "spawned c s = (Ok a, s') \<longleftrightarrow> c s = (Ok a, s')"
  by (auto simp: spawned_def split: prod.splits res.splits)

lemma replay_tx_Ok:
  assumes "replay_tx fuel H E hdr t x = (Ok (r, traces), x')"
  obtains ctx res y entries where "replay_context t (h_base_fee hdr) = (Ok ctx :: (tx_context, replay_error) res)"
    "runner_apply fuel H (replay_runner H hdr t) (ext_reset ctx x) = (Ok res, y)"
    "replay_entries H (e_touches (cr_evm res)) (touched_accounts (e_touches (cr_evm res))) y = (Ok entries, x')"
    "tr_gas r = max (gas_finalized (e_gas (cr_evm res)) (replay_gas_costs t (access_list_cost ctx) (length (cr_ret res)))
       (e_reverted (cr_evm res))) (replay_gas_floor (tx_input t))"
    "tr_ret r = cr_ret res" "tr_rev r = e_reverted (cr_evm res)"
    "tr_state r = map_of (rev (map (\<lambda>(a, e). (addr_text E a, entry_json E e)) entries))"
    "traces = replay_traces (cr_tracer res)"
proof -
  obtain ctx where ctx: "replay_context t (h_base_fee hdr) = (Ok ctx :: (tx_context, replay_error) res)"
    and "replay_task fuel H E hdr ctx t x = (Ok (r, traces), x')"
    using assms by (auto simp: replay_tx_def bindM_Ok_iff liftM_def spawned_Ok)
  then obtain res y where run: "runner_apply fuel H (replay_runner H hdr t) (ext_reset ctx x) = (Ok res, y)"
    and rest: "as_tx_result H E (replay_gas_costs t (access_list_cost ctx) (length (cr_ret res)))
      (replay_gas_floor (tx_input t)) res y = (Ok r, x')" "traces = replay_traces (cr_tracer res)"
    by (auto simp: replay_task_def seqM_def bindM_Ok_iff modifyM_def returnM_def Let_def log_take_def)
  then obtain entries where
    "replay_entries H (e_touches (cr_evm res)) (touched_accounts (e_touches (cr_evm res))) y = (Ok entries, x')"
    "r = \<lparr>tr_gas = max (gas_finalized (e_gas (cr_evm res)) (replay_gas_costs t (access_list_cost ctx) (length (cr_ret res)))
         (e_reverted (cr_evm res))) (replay_gas_floor (tx_input t)), tr_ret = cr_ret res,
       tr_rev = e_reverted (cr_evm res),
       tr_state = map_of (rev (map (\<lambda>(a, e). (addr_text E a, entry_json E e)) entries))\<rparr>"
    by (auto simp: as_tx_result_def as_state_def bindM_Ok_iff returnM_def Let_def)
  with ctx run rest(2) show thesis by (intro that) simp_all
qed

text \<open>C17. What a replayed transaction reports: one entry for every account its run touched, in order, showing the
  balance, nonce, code hash and touched slots that the world holds when it is done; making the report changes nothing
  of that world.\<close>

theorem replay_reports_state:
  assumes "replay_tx fuel H E hdr t x = (Ok (r, traces), x')"
  shows "\<exists>ctx res y entries. replay_context t (h_base_fee hdr) = (Ok ctx :: (tx_context, replay_error) res) \<and>
    runner_apply fuel H (replay_runner H hdr t) (ext_reset ctx x) = (Ok res, y) \<and> same_views H y x' \<and>
    tr_state r = map_of (rev (map (\<lambda>(a, e). (addr_text E a, entry_json E e)) entries)) \<and>
    map fst entries = touched_accounts (e_touches (cr_evm res)) \<and>
    (\<forall>(a, e) \<in> set entries. entry_shows H (e_touches (cr_evm res)) x' a e)"
proof -
  obtain ctx res y entries where ctx: "replay_context t (h_base_fee hdr) = (Ok ctx :: (tx_context, replay_error) res)"
    and run: "runner_apply fuel H (replay_runner H hdr t) (ext_reset ctx x) = (Ok res, y)"
    and entries: "replay_entries H (e_touches (cr_evm res)) (touched_accounts (e_touches (cr_evm res))) y = (Ok entries, x')"
    and state: "tr_state r = map_of (rev (map (\<lambda>(a, e). (addr_text E a, entry_json E e)) entries))"
    using assms by (rule replay_tx_Ok)
  from replay_entries_shown [OF entries] have "same_views H y x'"
    "map fst entries = touched_accounts (e_touches (cr_evm res))"
    "\<forall>(a, e) \<in> set entries. entry_shows H (e_touches (cr_evm res)) x' a e"
    using entry_shows_views [of H y x' "e_touches (cr_evm res)"] by (auto split: prod.splits)
  with ctx run state show ?thesis by blast
qed

theorem replay_reports_state_witness:
  "\<exists>r traces x' y. replay_tx 80000 demo_host demo_eth demo_quiet_header (demo_tx (Some 0x42)) demo_world = (Ok (r, traces), x') \<and>
     storage_view x' = storage_view y \<and> balance_view x' = balance_view y"
proof -
  obtain r traces x' where run: "replay_tx 80000 demo_host demo_eth demo_quiet_header (demo_tx (Some 0x42)) demo_world
      = (Ok (r, traces), x')" using demo_replayed_call by blast
  from replay_reports_state [OF this] run show ?thesis unfolding same_views_def by blast
qed

section \<open>Its gas\<close>

lemma replay_runner_call:
  "r_call (replay_runner H hdr t) = \<lparr>c_data = tx_input t, c_value = tx_value t, c_from = tx_from t,
     c_to = (case tx_to t of Some a \<Rightarrow> a | None \<Rightarrow> addr_zero), c_gas = tx_gas_limit t\<rparr>"
  "r_header (replay_runner H hdr t) = hdr" "r_code (replay_runner H hdr t) = []"
  by (simp_all add: replay_runner_def executing.configured executing.setters_commute(2) execute_ready_def
      execute_with_value_def execute_with_gas_def execute_with_sender_def execute_with_header_def solenoid_execute_def Let_def)

lemma replay_costs_agree:
  assumes "tx_to t = Some a" "\<not> addr_is_zero a"
  shows "max (gas_finalized (e_gas e) (replay_gas_costs t alc n) (e_reverted e)) (replay_gas_floor (tx_input t)) =
    tx_gas_final (r_call (replay_runner H hdr t)) alc n e"
  using assms by (simp add: tx_gas_final_def tx_gas_costs_def replay_gas_costs_def replay_runner_call tx_gas_floor_def
      replay_gas_floor_def calldata_cost_def replay_data_cost_def Let_def)

lemma ext_reset_ctx: "x_tx_ctx (ext_reset ctx x) = ctx"
  by (simp add: ext_reset_def)

text \<open>C18. The gas a replayed call reports is the gas its sender was charged, the one of the fee event that ends its
  trace: the block runner works out again what the transaction cost, and arrives at the same number.\<close>

theorem replay_gas_is_charged:
  assumes "overflow_checks H" "unat (tx_gas_limit t) < 2 ^ 63" "tx_to t = Some a" "\<not> addr_is_zero a"
    and "replay_context t (h_base_fee hdr) = (Ok ctx :: (tx_context, replay_error) res)"
    and "0 \<le> runner_frame_gas (r_call (replay_runner H hdr t)) ctx"
      "runner_frame_gas (r_call (replay_runner H hdr t)) ctx + 2 \<le> int fuel"
    and "replay_tx fuel H E hdr t x = (Ok (r, traces), x')"
  shows "\<exists>res y gas price fee. runner_apply fuel H (replay_runner H hdr t) (ext_reset ctx x) = (Ok res, y) \<and>
    last (cr_tracer res) = \<lparr>ev_data = ED_Fee gas price fee, ev_depth = 1, ev_reverted = False\<rparr> \<and>
    word_of_i64 (tr_gas r) = (Ok gas :: (u256, exec_error) res) \<and> 21000 \<le> tr_gas r"
proof -
  let ?R = "replay_runner H hdr t" and ?x = "ext_reset ctx x"
  obtain ctx' res y where "replay_context t (h_base_fee hdr) = (Ok ctx' :: (tx_context, replay_error) res)"
    and run: "runner_apply fuel H ?R (ext_reset ctx' x) = (Ok res, y)"
    and gas: "tr_gas r = max (gas_finalized (e_gas (cr_evm res)) (replay_gas_costs t (access_list_cost ctx')
      (length (cr_ret res))) (e_reverted (cr_evm res))) (replay_gas_floor (tx_input t))"
    using assms(8) by (rule replay_tx_Ok)
  then have ctx: "ctx' = ctx" using assms(5) by simp
  obtain m where body: "runner_body fuel H ?R (fresh ?x) = (Ok (cr_ret res, cr_gas res), m)"
    and m: "m_evm m = cr_evm res" "m_trace m = cr_tracer res"
    using run by (auto simp: ctx runner_apply_def split: prod.splits res.splits)
  have small: "unat (c_gas (r_call ?R)) < 2 ^ 63" using assms(2) by (simp add: replay_runner_call)
  have "\<not> addr_is_zero (c_to (r_call ?R))" using assms(3,4) by (simp add: replay_runner_call)
  moreover have "0 \<le> runner_frame_gas (r_call ?R) (x_tx_ctx ?x)" "runner_frame_gas (r_call ?R) (x_tx_ctx ?x) + 2 \<le> int fuel"
    using assms(6,7) by (simp_all add: ext_reset_ctx)
  note runner_run(2) [OF assms(1) small this body]
  ultimately
  have "charged (r_call ?R) (access_list_cost ctx) (cr_ret res) m" by (simp add: call_done_def Let_def ext_reset_ctx)
  moreover have "tr_gas r = tx_gas_final (r_call ?R) (access_list_cost ctx) (length (cr_ret res)) (cr_evm res)"
    using gas by (simp only: replay_costs_agree [where H = H and hdr = hdr, OF assms(3,4)] ctx)
  ultimately show ?thesis using run m tx_gas_final_ge by (auto simp: charged_def ctx)
qed

theorem replay_gas_is_charged_witness:
  "\<exists>r traces x' gas. replay_tx 80000 demo_host demo_eth demo_quiet_header (demo_tx (Some 0x42)) demo_world = (Ok (r, traces), x') \<and>
     word_of_i64 (tr_gas r) = (Ok gas :: (u256, exec_error) res) \<and> 21000 \<le> tr_gas r"
proof -
  let ?t = "demo_tx (Some 0x42)" and ?call = "r_call (replay_runner demo_host demo_quiet_header (demo_tx (Some 0x42)))"
  obtain r traces x' where run: "replay_tx 80000 demo_host demo_eth demo_quiet_header ?t demo_world
      = (Ok (r, traces), x')" using demo_replayed_call by blast
  have t: "overflow_checks demo_host" "unat (tx_gas_limit ?t) < 2 ^ 63" "tx_to ?t = Some 0x42" "\<not> addr_is_zero 0x42"
    "replay_context ?t (h_base_fee demo_quiet_header) = (Ok demo_ctx :: (tx_context, replay_error) res)"
    by (simp_all add: demo_host_def demo_tx_def addr_is_zero_iff demo_tx_context [unfolded demo_tx_def])
  have "runner_frame_gas ?call demo_ctx = 79000"
    by (simp add: demo_tx_runner runner_frame_gas_def upfront_total_def upfront_gas_def addr_is_zero_iff calldata_cost_def
        access_list_cost_def demo_ctx_def)
  then have "0 \<le> runner_frame_gas ?call demo_ctx" "runner_frame_gas ?call demo_ctx + 2 \<le> int 80000" by simp_all
  from replay_gas_is_charged [OF t this run] run show ?thesis by blast
qed

text \<open>Between the transactions of a block, what a destroyed account had before the block comes back.\<close>

lemma reset_revives:
  assumes "a \<in> set (x_destroyed_accounts x)" "x_remote x = Some r"
  shows "balance_view (ext_reset ctx x) a = rm_balance r a" "nonce_view (ext_reset ctx x) a = rm_nonce r a"
    "storage_view (ext_reset ctx x) (a, k) = rm_storage r a k"
proof -
  have "x_state (ext_reset ctx x) a = None" using assms(1) by (simp add: ext_reset_def foldl_delete)
  moreover have "x_remote (ext_reset ctx x) = Some r" using assms(2) by (simp add: ext_reset_def)
  ultimately show "balance_view (ext_reset ctx x) a = rm_balance r a" "nonce_view (ext_reset ctx x) a = rm_nonce r a"
    "storage_view (ext_reset ctx x) (a, k) = rm_storage r a k"
    by (simp_all add: balance_view_def nonce_view_def account_view_def storage_view_def cached_slot_def)
qed

section \<open>Replayed creations\<close>











section \<open>The block\<close>

text \<open>The names under which a block dumps what differs.\<close>

definition bench_files :: "nat \<Rightarrow> nat \<Rightarrow> string set" where
  "bench_files block_number idx =
     {trace_file ''revm'' block_number idx, trace_file ''sole'' block_number idx,
      state_file ''revm'' block_number idx, state_file ''sole'' block_number idx}"

lemma dump_filtered_elsewhere: "p \<noteq> path \<Longrightarrow> snd (dump_filtered D path es f d) p = d p"
  by (auto simp: dump_filtered_def Let_def split: prod.splits)

lemma dump_all_elsewhere: "p \<noteq> path \<Longrightarrow> snd (dump_all D path es d) p = d p"
  using dump_filtered_elsewhere [of p path D es "\<lambda>_. True" d]
  by (auto simp: dump_all_def bindM_def returnM_def split: prod.splits res.splits)

lemma dump_difference_elsewhere:
  assumes "p \<notin> bench_files block_number idx"
  shows "dump_difference B block_number idx revm sole d p = d p"
  using assms by (auto simp: dump_difference_def bench_files_def Let_def write_file_def dump_filtered_elsewhere
      dump_all_elsewhere)

lemma replay_compare_step:
  assumes "replay_compare fuel H B hdr n idx revm t s = (Ok (), s')"
  shows "bn_matched s' \<le> bn_matched s + 1" "bn_disk s' \<noteq> bn_disk s \<Longrightarrow> bn_matched s' = bn_matched s"
    "p \<notin> bench_files n idx \<Longrightarrow> bn_disk s' p = bn_disk s p"
    "bn_ext s' = snd (replay_tx fuel H (be_eth B) hdr t (bn_ext s))"
  using assms
  by (auto simp: replay_compare_def dump_difference_elsewhere split: option.splits prod.splits res.splits if_splits)

lemma replay_loop_steps:
  assumes "replay_loop fuel H B hdr n idx rts s = (Ok (), s')"
  shows "bn_matched s' \<le> bn_matched s + length rts \<and>
    (bn_disk s' \<noteq> bn_disk s \<longrightarrow> bn_matched s' < bn_matched s + length rts) \<and>
    (\<forall>p. (\<forall>i \<in> {idx ..< idx + length rts}. p \<notin> bench_files n i) \<longrightarrow> bn_disk s' p = bn_disk s p) \<and>
    bn_ext s' = fold (\<lambda>t x. snd (replay_tx fuel H (be_eth B) hdr t x)) (map snd rts) (bn_ext s)"
  using assms
proof (induction rts arbitrary: idx s)
  case Nil
  then show ?case by (simp add: returnM_def)
next
  case (Cons rt rts)
  obtain revm t where rt: "rt = (revm, t)" by (cases rt)
  from Cons.prems obtain s1 where one: "replay_compare fuel H B hdr n idx revm t s = (Ok (), s1)"
    and rest: "replay_loop fuel H B hdr n (idx + 1) rts s1 = (Ok (), s')"
    by (auto simp: rt seqM_def bindM_Ok_iff)
  have "\<forall>p. (\<forall>i \<in> {idx ..< idx + length (rt # rts)}. p \<notin> bench_files n i) \<longrightarrow> bn_disk s' p = bn_disk s p"
    using Cons.IH [OF rest] replay_compare_step(3) [OF one] by auto
  moreover have "bn_disk s' \<noteq> bn_disk s \<longrightarrow> bn_matched s' < bn_matched s + length (rt # rts)"
    using Cons.IH [OF rest] replay_compare_step(1,2) [OF one] by (cases "bn_disk s1 = bn_disk s") auto
  ultimately show ?case
    using Cons.IH [OF rest] replay_compare_step(1,4) [OF one] by (simp add: rt)
qed

text \<open>C20. A block that is replayed to its end leaves the world that its transactions, one after the other, lead to,
  whatever the other machine answered and whether they failed; it counts at most its transactions as matched, writes
  only the files named after a transaction of the block, and none when all of them match.\<close>

theorem replay_block_end:
  assumes "replay_block fuel H B hdr block_number revm txs x d = (Ok (), s)"
  shows "bn_ext s = fold (\<lambda>t x. snd (replay_tx fuel H (be_eth B) hdr t x)) txs x \<and>
    bn_matched s \<le> length txs \<and> (bn_matched s = length txs \<longrightarrow> bn_disk s = d) \<and>
    (\<forall>p. (\<forall>i < length txs. p \<notin> bench_files block_number i) \<longrightarrow> bn_disk s p = d p)"
proof -
  have len: "length revm = length txs" and "replay_loop fuel H B hdr block_number 0 (zip revm txs)
      \<lparr>bn_ext = x, bn_disk = d, bn_matched = 0\<rparr> = (Ok (), s)"
    using assms by (simp_all add: replay_block_def Let_def split: if_splits)
  from replay_loop_steps [OF this(2)] len show ?thesis by auto
qed

definition demo_bench :: "(unit, unit, unit) bench_env" where
  "demo_bench = \<lparr>be_eth = demo_eth, be_dump = \<lparr>to_vec = (\<lambda>_. None), removable = (\<lambda>_. True), openable = (\<lambda>_. True)\<rparr>,
     be_pretty = (\<lambda>_. None)\<rparr>"

theorem replay_block_end_witness:
  "\<exists>s. replay_block 80000 demo_host demo_bench demo_quiet_header 7
      [Some (\<lparr>tr_gas = 0, tr_ret = [1], tr_rev = False, tr_state = Map.empty\<rparr>, [])] [demo_tx (Some 0x42)] demo_world Map.empty
      = (Ok (), s) \<and>
    bn_ext s = snd (replay_tx 80000 demo_host demo_eth demo_quiet_header (demo_tx (Some 0x42)) demo_world)"
  (is "\<exists>s. replay_block _ _ _ _ _ ?revm ?txs _ _ = _ \<and> _")
proof -
  obtain r traces x' where run: "replay_tx 80000 demo_host demo_eth demo_quiet_header (demo_tx (Some 0x42)) demo_world
      = (Ok (r, traces), x')" using demo_replayed_call by blast
  then obtain s where "replay_block 80000 demo_host demo_bench demo_quiet_header 7 ?revm ?txs demo_world Map.empty = (Ok (), s)"
    by (simp add: replay_block_def replay_compare_def demo_bench_def seqM_def bindM_def returnM_def Let_def)
  from replay_block_end [OF this] this show ?thesis by (auto simp: demo_bench_def)
qed

end
