(* ===== verification/BrowserDemo.thy ===== *)
theory BrowserDemo
  imports Replay
begin

text \<open>
  The browser demo (\<open>wasm-demo/src/lib.rs\<close>): questions about blocks, the price quote asked of a
  node and computed by the interpreter, and the trace of one transaction. A \<open>JsValue\<close> error is the
  constructor its message is made from; the console log, the \<open>JsValue\<close> glue and the text of a quote,
  whose numbers are floating point, are left out. The interpreter is the one of 64-bit builds.
\<close>

record full_block =
  bk_header :: header
  bk_transactions :: "tx list"

datatype demo_error =
    DE_BlockNumber
  | DE_TxIndex
  | DE_Amount
  | DE_Client client_error
  | DE_OutOfRange nat nat
  | DE_State client_error
  | DE_Execution exec_error
  | DE_Serialize
  | DE_Hex
  | DE_ReturnData nat

text \<open>The node's side of a request, and what the callback was called with.\<close>

record 's page =
  pg_node :: 's
  pg_called :: "string list"

type_synonym ('s, 'a) page_m = "('s page, demo_error, 'a) monad"

definition on_node :: "(client_error \<Rightarrow> demo_error) \<Rightarrow> ('s, 'a) client_m \<Rightarrow> ('s, 'a) page_m" where
  "on_node err c = (\<lambda>p. case c (pg_node p) of
     (Ok a, s) \<Rightarrow> (Ok a, p\<lparr>pg_node := s\<rparr>)
   | (Err e, s) \<Rightarrow> (Err (err e), p\<lparr>pg_node := s\<rparr>)
   | (Panic, s) \<Rightarrow> (Panic, p\<lparr>pg_node := s\<rparr>)
   | (OutOfFuel, s) \<Rightarrow> (OutOfFuel, p\<lparr>pg_node := s\<rparr>))"

text \<open>\<open>str::parse\<close> of an unsigned integer of \<open>width\<close> bits: an optional plus sign and decimal digits.\<close>

fun parse_digits :: "nat \<Rightarrow> string \<Rightarrow> nat option" where
  "parse_digits acc [] = Some acc"
| "parse_digits acc (c # cs) =
     (let n = of_char c :: nat in if 48 \<le> n \<and> n \<le> 57 then parse_digits (acc * 10 + (n - 48)) cs else None)"

definition parse_unsigned :: "nat \<Rightarrow> string \<Rightarrow> nat option" where
  "parse_unsigned width s =
     (let digits = (if s \<noteq> [] \<and> hd s = CHR ''+'' then tl s else s) in
      if digits = [] then None
      else (case parse_digits 0 digits of Some n \<Rightarrow> (if n < 2 ^ width then Some n else None) | None \<Rightarrow> None))"

definition parse_param :: "nat \<Rightarrow> demo_error \<Rightarrow> string \<Rightarrow> ('s, nat) page_m" where
  "parse_param width err s = (case parse_unsigned width s of Some n \<Rightarrow> returnM n | None \<Rightarrow> throwM err)"

section \<open>Blocks\<close>

definition get_latest_block_number :: "('s, 'h, full_block) eth_env \<Rightarrow> string \<Rightarrow> ('s, nat \<times> string) page_m" where
  "get_latest_block_number E rpc_url = on_node DE_Client (eth_get_latest_block E \<lparr>eth_url = rpc_url\<rparr>)"

text \<open>A block and one of its transactions; \<open>usize\<close> has 32 bits on \<open>wasm32\<close>.\<close>

definition block_and_tx ::
    "('s, 'h, full_block) eth_env \<Rightarrow> string \<Rightarrow> string \<Rightarrow> string \<Rightarrow> ('s, nat \<times> full_block \<times> tx) page_m" where
  "block_and_tx E rpc_url block_number index =
     bindM (parse_param 64 DE_BlockNumber block_number) (\<lambda>block_number.
     bindM (parse_param 32 DE_TxIndex index) (\<lambda>index.
     bindM (on_node DE_Client (eth_get_full_block E \<lparr>eth_url = rpc_url\<rparr> (of_nat block_number))) (\<lambda>block.
       if index < length (bk_transactions block)
       then returnM (block_number, block, bk_transactions block ! index)
       else throwM (DE_OutOfRange index (length (bk_transactions block))))))"

definition tx_hash_text :: "('s, 'h, 'b) eth_env \<Rightarrow> tx \<Rightarrow> string" where
  "tx_hash_text E t = ''0x'' @ ec_hex_encode E (into_bytes (tx_hash t))"

definition get_transaction_hash ::
    "('s, 'h, full_block) eth_env \<Rightarrow> string \<Rightarrow> string \<Rightarrow> string \<Rightarrow> ('s, string) page_m" where
  "get_transaction_hash E rpc_url block_number index =
     bindM (block_and_tx E rpc_url block_number index) (\<lambda>(_, _, t). returnM (tx_hash_text E t))"

definition get_latest_block_info :: "('s, 'h, full_block) eth_env \<Rightarrow> string \<Rightarrow> ('s, nat \<times> nat) page_m" where
  "get_latest_block_info E rpc_url =
     bindM (on_node DE_Client (eth_get_latest_block E \<lparr>eth_url = rpc_url\<rparr>)) (\<lambda>(block_number, _).
     bindM (on_node DE_Client (eth_get_full_block E \<lparr>eth_url = rpc_url\<rparr> (of_nat block_number))) (\<lambda>block.
       returnM (block_number, length (bk_transactions block))))"

definition get_block_info :: "('s, 'h, full_block) eth_env \<Rightarrow> string \<Rightarrow> string \<Rightarrow> ('s, nat \<times> nat) page_m" where
  "get_block_info E rpc_url block_number =
     bindM (parse_param 64 DE_BlockNumber block_number) (\<lambda>block_number.
     bindM (on_node DE_Client (eth_get_full_block E \<lparr>eth_url = rpc_url\<rparr> (of_nat block_number))) (\<lambda>block.
       returnM (block_number, length (bk_transactions block))))"

section \<open>Quotes\<close>

definition quoter :: addr160 where "quoter = 0x61fFE014bA17989E743c5F6cB21bF9697530B21e"
definition weth_address :: addr160 where "weth_address = 0xc02aaa39b223fe8d0a0e5c4f27ead9083c756cc2"
definition usdc_address :: addr160 where "usdc_address = 0xa0b86991c6218b36c1d19d4a2e9eb0ce3606eb48"
definition quote_from :: addr160 where "quote_from = 0xb18f13b8fde294e0147188a78d5b1328f206f4e2"

definition quote_method :: string where
  "quote_method = ''quoteExactInputSingle((address,address,uint256,uint24,uint160))''"

definition quote_args :: "u256 \<Rightarrow> bytes" where
  "quote_args amount_in = into_bytes (addr_as_word weth_address) @ into_bytes (addr_as_word usdc_address) @
     into_bytes amount_in @ into_bytes 3000 @ into_bytes 0"

definition quote_calldata :: "host \<Rightarrow> u256 \<Rightarrow> bytes" where
  "quote_calldata H amount_in = take 4 (keccak256 H (str_bytes quote_method)) @ quote_args amount_in"

record quote =
  qu_amount_in :: u256
  qu_amount_out :: u256
  qu_sqrt_price :: u256
  qu_ticks_crossed :: u256
  qu_gas_estimate :: u64

text \<open>The numbers of a quote are narrowed: to 128 bits for the prices, to 64 for the gas.\<close>

definition as_u128 :: "u256 \<Rightarrow> (u256, 'e) res" where
  "as_u128 w = (if unat w < 2 ^ 128 then Ok w else Panic)"

definition read_quote :: "u256 \<Rightarrow> bytes \<Rightarrow> (quote, demo_error) res" where
  "read_quote amount_in ret =
     (if length ret \<ge> 128 then
        (let amount_out = from_bytes (sub_list 0 32 ret);
             sqrt_price_x96_after = from_bytes (sub_list 32 64 ret);
             initialized_ticks_crossed = from_bytes (sub_list 64 96 ret);
             gas_estimate = from_bytes (sub_list 96 128 ret)
         in res_bind (as_u128 sqrt_price_x96_after) (\<lambda>_.
            res_bind (as_u128 amount_in) (\<lambda>_.
            res_bind (as_u128 amount_out) (\<lambda>_.
            res_bind (as_u64 gas_estimate) (\<lambda>gas.
              Ok \<lparr>qu_amount_in = amount_in, qu_amount_out = amount_out, qu_sqrt_price = sqrt_price_x96_after,
                qu_ticks_crossed = initialized_ticks_crossed, qu_gas_estimate = gas\<rparr>)))))
      else Err (DE_ReturnData (length ret)))"

definition quote_weth_to_usdc ::
    "host \<Rightarrow> ('s, 'h, full_block) eth_env \<Rightarrow> string \<Rightarrow> string \<Rightarrow> ('s, quote) page_m" where
  "quote_weth_to_usdc H E rpc_url amount_weth =
     bindM (parse_param 128 DE_Amount amount_weth) (\<lambda>amount.
     let amount_in = of_nat amount in
     bindM (on_node DE_Client (eth_eth_call E \<lparr>eth_url = rpc_url\<rparr> quoter (quote_calldata H amount_in))) (\<lambda>result_hex.
       case ec_hex_decode E (strip_0x result_hex) of
         None \<Rightarrow> throwM DE_Hex
       | Some result_bytes \<Rightarrow> liftM (read_quote amount_in result_bytes)))"

definition quote_runner :: "host \<Rightarrow> header \<Rightarrow> u256 \<Rightarrow> runner" where
  "quote_runner H hdr amount_in =
     execute_ready (execute_with_gas 1000000 (execute_with_sender quote_from (execute_with_header hdr
       (solenoid_execute H quoter quote_method (quote_args amount_in)))))"

text \<open>\<open>number - 1\<close> on 64 bits.\<close>

definition parent_number :: "host \<Rightarrow> nat \<Rightarrow> (nat, 'e) res" where
  "parent_number H n = (if n = 0 then (if overflow_checks H then Panic else Ok (2 ^ 64 - 1)) else Ok (n - 1))"

text \<open>A run of the builders; an error becomes the page's.\<close>

definition run_on :: "nat \<Rightarrow> host \<Rightarrow> runner \<Rightarrow> ext \<Rightarrow> ('s, call_result) page_m" where
  "run_on fuel H R x = liftM (case fst (runner_apply fuel H R x) of
     Ok result \<Rightarrow> Ok result | Err e \<Rightarrow> Err (DE_Execution e) | Panic \<Rightarrow> Panic | OutOfFuel \<Rightarrow> OutOfFuel)"

text \<open>The events the two functions show.\<close>

fun quote_shows :: "event_data \<Rightarrow> bool" where
  "quote_shows (ED_Call _ _ _ _ _ _) = True"
| "quote_shows (ED_Return _ _ _ _) = True"
| "quote_shows (ED_State _) = True"
| "quote_shows (ED_Account _) = True"
| "quote_shows (ED_Halt _) = True"
| "quote_shows _ = False"

fun trace_shows :: "event_data \<Rightarrow> bool" where
  "trace_shows (ED_Call _ _ _ _ _ _) = True"
| "trace_shows (ED_Return _ _ _ _) = True"
| "trace_shows (ED_State _) = True"
| "trace_shows (ED_Account _) = True"
| "trace_shows (ED_Fee _ _ _) = True"
| "trace_shows (ED_Halt _) = True"
| "trace_shows _ = False"

definition quote_weth_to_usdc_solenoid ::
    "nat \<Rightarrow> host \<Rightarrow> ('s, header, full_block) eth_env \<Rightarrow> (event \<Rightarrow> string option) \<Rightarrow> string \<Rightarrow> string \<Rightarrow> ('s, quote) page_m" where
  "quote_weth_to_usdc_solenoid fuel H E to_json rpc_url amount_weth = (let C = \<lparr>eth_url = rpc_url\<rparr> in
     bindM (parse_param 128 DE_Amount amount_weth) (\<lambda>amount.
     let amount_in = of_nat amount in
     bindM (on_node DE_Client (eth_get_latest_block E C)) (\<lambda>(latest_block_number, _).
     bindM (on_node DE_Client (eth_get_block_header E C (of_nat latest_block_number))) (\<lambda>header.
     bindM (liftM (parent_number H latest_block_number)) (\<lambda>parent.
     bindM (on_node DE_State (ext_at_number E (of_nat parent) C)) (\<lambda>ext.
     bindM (run_on fuel H (quote_runner H header amount_in) ext) (\<lambda>result.
       if list_all (\<lambda>e. quote_shows (ev_data e) \<longrightarrow> to_json e \<noteq> None) (cr_tracer result)
       then liftM (read_quote amount_in (cr_ret result)) else panicM)))))))"

section \<open>The trace of a transaction\<close>

fun call_back :: "(event \<Rightarrow> string option) \<Rightarrow> event list \<Rightarrow> ('s, unit) page_m" where
  "call_back to_json [] = returnM ()"
| "call_back to_json (e # es) =
     (if \<not> trace_shows (ev_data e) then call_back to_json es
      else (case to_json e of
          None \<Rightarrow> throwM DE_Serialize
        | Some json \<Rightarrow> seqM (modifyM (\<lambda>p. p\<lparr>pg_called := pg_called p @ [json]\<rparr>)) (call_back to_json es)))"

definition trace_transaction ::
    "nat \<Rightarrow> host \<Rightarrow> ('s, 'h, full_block) eth_env \<Rightarrow> (event \<Rightarrow> string option) \<Rightarrow> (gas_result \<Rightarrow> string option) \<Rightarrow>
      string \<Rightarrow> string \<Rightarrow> string \<Rightarrow> ('s, string list) page_m" where
  "trace_transaction fuel H E to_json gas_json rpc_url block_number index =
     bindM (block_and_tx E rpc_url block_number index) (\<lambda>(block_number, block, t).
     bindM (liftM (parent_number H block_number)) (\<lambda>parent.
     bindM (on_node DE_State (ext_at_number E (of_nat parent) \<lparr>eth_url = rpc_url\<rparr>)) (\<lambda>ext.
     bindM (liftM (replay_context t (h_base_fee (bk_header block)))) (\<lambda>tx_ctx.
     let ext = ext_reset tx_ctx ext in
     bindM (run_on fuel H (replay_runner H (bk_header block) t) ext) (\<lambda>result.
     seqM (call_back to_json (fst (log_take (cr_tracer result))))
       (case gas_json (cr_gas result) of
          Some gas_ret \<Rightarrow> returnM [tx_hash_text E t, gas_ret]
        | None \<Rightarrow> throwM DE_Serialize))))))"

end
