(* ===== verification/BrowserProps.thy ===== *)
theory BrowserProps
  imports BrowserDemo ReplayDemo
begin

text \<open>Properties of the browser demo: what the trace of a transaction is a trace of, and that its two quotes ask the
  same question.\<close>

section \<open>Pages\<close>

lemma on_node_Ok: "on_node err c p = (Ok a, p') \<longleftrightarrow> (\<exists>s. c (pg_node p) = (Ok a, s) \<and> p' = p\<lparr>pg_node := s\<rparr>)"
  by (auto simp: on_node_def split: prod.splits res.splits)

lemma run_on_Ok: "run_on fuel H R x p = (Ok result, p') \<longleftrightarrow> (\<exists>y. runner_apply fuel H R x = (Ok result, y)) \<and> p' = p"
  by (cases "runner_apply fuel H R x") (auto simp: run_on_def liftM_def split: res.splits)

lemma parse_param_Ok: "parse_param w err s p = (Ok n, p') \<longleftrightarrow> parse_unsigned w s = Some n \<and> p' = p"
  by (auto simp: parse_param_def returnM_def throwM_def split: option.splits)

lemma call_back_Ok:
  assumes "call_back to_json es p = (Ok (), p')"
  shows "pg_node p' = pg_node p \<and> map Some (drop (length (pg_called p)) (pg_called p')) =
      map to_json (filter (\<lambda>e. trace_shows (ev_data e)) es) \<and> take (length (pg_called p)) (pg_called p') = pg_called p"
  using assms
proof (induction es arbitrary: p)
  case Nil
  then show ?case by (simp add: returnM_def)
next
  case (Cons e es)
  show ?case
  proof (cases "trace_shows (ev_data e)")
    case True
    with Cons.prems obtain json where json: "to_json e = Some json"
      and rest: "call_back to_json es (p\<lparr>pg_called := pg_called p @ [json]\<rparr>) = (Ok (), p')"
      by (auto simp: seqM_def bindM_Ok_iff modifyM_def throwM_def split: option.splits)
    let ?n = "length (pg_called p)"
    from Cons.IH [OF rest] have tk: "take (Suc ?n) (pg_called p') = pg_called p @ [json]"
      and dr: "map Some (drop (Suc ?n) (pg_called p')) = map to_json (filter (\<lambda>e. trace_shows (ev_data e)) es)"
      and node: "pg_node p' = pg_node p" by simp_all
    have "?n < length (pg_called p')" using arg_cong [OF tk, of length] by simp
    then have "drop ?n (pg_called p') = pg_called p' ! ?n # drop (Suc ?n) (pg_called p')" by (rule Cons_nth_drop_Suc [symmetric])
    moreover have "pg_called p' ! ?n = json" using arg_cong [OF tk, of "\<lambda>xs. xs ! ?n"] by simp
    moreover have "take ?n (pg_called p') = pg_called p"
      using arg_cong [OF tk, of "take ?n"] by simp
    ultimately show ?thesis using dr node True json by simp
  next
    case False
    with Cons show ?thesis by simp
  qed
qed

lemma block_and_tx_Ok:
  assumes "block_and_tx E rpc_url block_number index p = (Ok (n, block, t), p')"
  shows "parse_unsigned 64 block_number = Some n \<and> pg_called p' = pg_called p \<and>
    (\<exists>i. parse_unsigned 32 index = Some i \<and> i < length (bk_transactions block) \<and> t = bk_transactions block ! i) \<and>
    eth_get_full_block E \<lparr>eth_url = rpc_url\<rparr> (of_nat n) (pg_node p) = (Ok block, pg_node p')"
  using assms by (auto simp: block_and_tx_def bindM_Ok_iff parse_param_Ok on_node_Ok returnM_def throwM_def split: if_splits)

section \<open>Traces\<close>

text \<open>C22. The browser traces a transaction on the state of the block before its own, with a fresh context and nothing
  else: the transactions before it in its block are not applied, whatever its index. What it hands to the page are the
  calls, returns, state, account and fee events and halts of that run, in order.\<close>

theorem trace_runs_on_parent_state:
  assumes "trace_transaction fuel H E to_json gas_json rpc_url block_number index p = (Ok shown, p')"
  shows "\<exists>n i block t s ext ctx result y.
    parse_unsigned 64 block_number = Some n \<and> parse_unsigned 32 index = Some i \<and>
    eth_get_full_block E \<lparr>eth_url = rpc_url\<rparr> (of_nat n) (pg_node p) = (Ok block, s) \<and>
    i < length (bk_transactions block) \<and> t = bk_transactions block ! i \<and>
    (\<exists>parent s'. parent_number H n = (Ok parent :: (nat, demo_error) res) \<and>
       ext_at_number E (of_nat parent) \<lparr>eth_url = rpc_url\<rparr> s = (Ok ext, s')) \<and>
    replay_context t (h_base_fee (bk_header block)) = (Ok ctx :: (tx_context, demo_error) res) \<and>
    runner_apply fuel H (replay_runner H (bk_header block) t) (ext_reset ctx ext) = (Ok result, y) \<and>
    map Some (drop (length (pg_called p)) (pg_called p')) =
      map to_json (filter (\<lambda>e. trace_shows (ev_data e)) (cr_tracer result)) \<and>
    (\<exists>gas. gas_json (cr_gas result) = Some gas \<and> shown = [tx_hash_text E t, gas])"
proof -
  from assms obtain n block t p1 parent ext p2 ctx result y p3 gas where
      found: "block_and_tx E rpc_url block_number index p = (Ok (n, block, t), p1)"
    and parent: "parent_number H n = (Ok parent :: (nat, demo_error) res)"
    and pinned: "on_node DE_State (ext_at_number E (of_nat parent) \<lparr>eth_url = rpc_url\<rparr>) p1 = (Ok ext, p2)"
    and ctx: "replay_context t (h_base_fee (bk_header block)) = (Ok ctx :: (tx_context, demo_error) res)"
    and run: "runner_apply fuel H (replay_runner H (bk_header block) t) (ext_reset ctx ext) = (Ok result, y)"
    and called: "call_back to_json (cr_tracer result) p2 = (Ok (), p3)"
    and gas: "gas_json (cr_gas result) = Some gas" "shown = [tx_hash_text E t, gas]" "p' = p3"
    by (auto simp: trace_transaction_def bindM_Ok_iff liftM_def run_on_Ok seqM_def log_take_def returnM_def throwM_def
        Let_def split: option.splits)
  obtain s' where s': "ext_at_number E (of_nat parent) \<lparr>eth_url = rpc_url\<rparr> (pg_node p1) = (Ok ext, s')"
    and p2: "pg_called p2 = pg_called p1" using pinned by (auto simp: on_node_Ok)
  from block_and_tx_Ok [OF found] have "pg_called p1 = pg_called p" by blast
  with call_back_Ok [OF called] p2 gas(3) have "map Some (drop (length (pg_called p)) (pg_called p')) =
      map to_json (filter (\<lambda>e. trace_shows (ev_data e)) (cr_tracer result))" by simp
  with block_and_tx_Ok [OF found] parent s' ctx run gas(1,2) show ?thesis by blast
qed

text \<open>A node that serves one block with one creation, over a state where all is zero.\<close>

definition demo_page :: "(unit, header, full_block) eth_env" where
  "demo_page = \<lparr>ec_post = (\<lambda>_ body s. (Some (200, Some (JObject [(''result'',
       if json_index ''method'' body = JString ''eth_getBlockByNumber''
       then JObject [(''number'', JString ''0x1''), (''hash'', JString ''0x2'')] else JString ''0x0'')])), s)),
     ec_hex_encode = map (\<lambda>b. char_of (unat b)), ec_hex_decode = (\<lambda>_. Some []), ec_radix16 = (\<lambda>_. Some 0),
     ec_key_text = (\<lambda>_. []), ec_header = (\<lambda>_. None), ec_header_hash = (\<lambda>_. 0),
     ec_block = (\<lambda>_. Some \<lparr>bk_header = demo_quiet_header, bk_transactions = [demo_tx None]\<rparr>)\<rparr>"

definition demo_parent :: ext where
  "demo_parent = ext_at_hash demo_page ''0x2'' \<lparr>eth_url = ''u''\<rparr> ()"

lemma demo_page_rpc:
  "rpc demo_page C (block_request n f) s = (Ok (JObject [(''number'', JString ''0x1''), (''hash'', JString ''0x2'')]), s)"
  "m \<noteq> ''eth_getBlockByNumber'' \<Longrightarrow> rpc demo_page C (request_body m ps) s = (Ok (JString ''0x0''), s)"
  by (simp_all add: rpc_def demo_page_def block_request_def request_body_def json_index_def Let_def)

lemma demo_parent_remote:
  "\<exists>r. x_remote demo_parent = Some r \<and> (\<forall>a. rm_balance r a = Some 0 \<and> rm_nonce r a = Some 0 \<and> rm_code r a = Some [])"
  by (simp add: demo_parent_def ext_at_hash_def client_remote_def ok_value_def eth_get_balance_def eth_get_nonce_def
      eth_get_code_def balance_request_def nonce_request_def code_request_def demo_page_rpc bindM_def liftM_def
      hex_to_word_def hex_str_def hex_to_vec_def word_from_hex_def)
   (simp add: demo_page_def)

definition demo_fork :: ext where
  "demo_fork = ext_reset demo_ctx demo_parent"

lemma demo_parent_run:
  "\<exists>result y. runner_apply 80000 demo_host (replay_runner demo_host demo_quiet_header (demo_tx None)) demo_fork = (Ok result, y)"
proof -
  obtain r where r: "x_remote demo_fork = Some r"
    "\<And>a. rm_balance r a = Some 0" "\<And>a. rm_nonce r a = Some 0" "\<And>a. rm_code r a = Some []"
    using demo_parent_remote by (auto simp: demo_fork_def ext_reset_def)
  have x: "x_state demo_fork = Map.empty" "x_accessed_addresses demo_fork = {}" "x_tx_ctx demo_fork = demo_ctx"
    "x_created_accounts demo_fork = []"
    by (simp_all add: demo_fork_def ext_reset_def demo_parent_def ext_at_hash_def ext_local_def)
  show ?thesis
    unfolding demo_tx_runner using demo_created
    by (simp add: r x query_def runner_apply_def runner_body_def runner_code_def runner_gas_def runner_created_def runner_endow_def
      upfront_gas_def demo_defs register_created_def demo_ctx_def entry_or_default_def ext_pull_def
      account_get_def div_ceil_def runner_create_def empty_code empty_frame_run announce_call_def context_default_def
      code_deposit_def runner_coinbase_def install_code_def nonce_recorded_def nonce_plus_one_def set_code_def
      charge_sender_def set_value_def gas_report_def gas_finalized_def gas_new_def gas_remaining_def trunc_div_def
      word_of_i64_def word_sub_def overflowing_sub_def Let_def)
qed

lemma call_back_returns: "\<exists>p'. call_back (\<lambda>_. Some j) es p = (Ok (), p')"
  by (induction es arbitrary: p) (auto simp: returnM_def seqM_def bindM_def modifyM_def)

theorem trace_runs_on_parent_state_witness:
  "\<exists>p'. trace_transaction 80000 demo_host demo_page (\<lambda>_. Some ''e'') (\<lambda>_. Some ''g'') ''u'' ''1'' ''0''
      \<lparr>pg_node = (), pg_called = []\<rparr> = (Ok [tx_hash_text demo_page (demo_tx None), ''g''], p') \<and> set (pg_called p') \<subseteq> {''e''}"
proof -
  let ?p = "\<lparr>pg_node = (), pg_called = []\<rparr> :: unit page"
  obtain result y where run: "runner_apply 80000 demo_host (replay_runner demo_host demo_quiet_header (demo_tx None))
      (ext_reset demo_ctx demo_parent) = (Ok result, y)" using demo_parent_run unfolding demo_fork_def by blast
  have parse: "parse_unsigned 64 ''1'' = Some 1" "parse_unsigned 32 ''0'' = Some 0" by code_simp+
  have block: "block_and_tx demo_page ''u'' ''1'' ''0'' ?p =
      (Ok (1, \<lparr>bk_header = demo_quiet_header, bk_transactions = [demo_tx None]\<rparr>, demo_tx None), ?p)"
    by (simp add: block_and_tx_def parse_param_def parse on_node_def eth_get_full_block_def demo_page_rpc bindM_def returnM_def)
      (simp add: demo_page_def returnM_def)
  have state: "on_node DE_State (ext_at_number demo_page 0 \<lparr>eth_url = ''u''\<rparr>) ?p = (Ok demo_parent, ?p)"
    by (simp add: on_node_def ext_at_number_def eth_get_block_by_number_def demo_page_rpc bindM_def liftM_def
        number_and_hash_def json_index_def hex_to_u64_def hex_str_def u64_from_radix16_def radix_digit_def char_lower_def
        getsM_def demo_parent_def)
  obtain p' where "call_back (\<lambda>_. Some ''e'') (cr_tracer result) ?p = (Ok (), p')" using call_back_returns by blast
  then have "trace_transaction 80000 demo_host demo_page (\<lambda>_. Some ''e'') (\<lambda>_. Some ''g'') ''u'' ''1'' ''0'' ?p
      = (Ok [tx_hash_text demo_page (demo_tx None), ''g''], p')"
    using run by (simp add: trace_transaction_def block state parent_number_def bindM_def seqM_def liftM_def returnM_def
        demo_tx_context run_on_def log_take_def Let_def)
  note ran = this
  from trace_runs_on_parent_state [OF ran] obtain es where "map Some (drop (length (pg_called ?p)) (pg_called p')) =
      map (\<lambda>_ :: event. Some ''e'') es" by blast
  then have "set (map Some (pg_called p')) = set (map (\<lambda>_ :: event. Some ''e'') es)" by simp
  then have "set (pg_called p') \<subseteq> {''e''}" by (auto simp: image_def set_eq_iff)
  with ran show ?thesis by blast
qed

text \<open>The genesis block has no parent.\<close>

lemma genesis_panics: "overflow_checks H \<Longrightarrow> parent_number H 0 = Panic"
  by (simp add: parent_number_def)

section \<open>Quotes\<close>

text \<open>The interpreter is asked what the node is asked.\<close>

lemma quotes_ask_the_same:
  "c_data (r_call (quote_runner H hdr amount_in)) = quote_calldata H amount_in"
  "c_to (r_call (quote_runner H hdr amount_in)) = quoter"
  by (simp_all add: quote_runner_def execute_ready_def execute_with_gas_def execute_with_sender_def
      execute_with_header_def solenoid_execute_def quote_calldata_def quote_method_def Let_def)

lemma quote_calldata_length:
  assumes "length (keccak256 H (str_bytes quote_method)) = 32"
  shows "length (quote_calldata H amount_in) = 164"
  using assms by (simp add: quote_calldata_def quote_args_def into_bytes_def)

end
