(* ===== verification/Spec2Isabelle.thy ===== *)
theory Spec2Isabelle
  imports SolenoidProps EthClientProps TracerProps AddressText Allocator CheckStepping ReplayProps BrowserProps
begin

text \<open>
  \<^bold>\<open>A verification development for solenoid, an Ethereum virtual machine in Rust.\<close>

  \<^bold>\<open>The program.\<close> solenoid executes Ethereum transactions on top of a remote node: the crate
  \<open>evm-common\<close> holds words, addresses, blocks and hexadecimal conversions; \<open>evm-event\<close> the
  events of an execution trace; \<open>src/opcodes.rs\<close> and \<open>src/decoder.rs\<close> turn bytecode into
  instructions and a jump table; \<open>src/ext.rs\<close> is the world state, a cache of accounts that pulls
  what it misses from the node and tracks warm addresses and slots; \<open>src/precompiles.rs\<close> holds
  the precompiled contracts; \<open>src/executor.rs\<close> is the interpreter: one frame is an \<open>Evm\<close>
  (stack, memory, gas, journal of touches), \<open>execute_instruction\<close> is one step,
  \<open>execute_with_context\<close> runs a frame, \<open>call\<close> and \<open>create\<close> start nested frames on the shared
  \<open>Ext\<close>, and \<open>execute\<close> runs a transaction from the intrinsic gas to the fees.

  \<^bold>\<open>The theories, in the order of the calls.\<close>
  \<^item> \<open>Prelude\<close>: machine types; results (\<open>Ok\<close>, \<open>Err\<close>, \<open>Panic\<close>, \<open>OutOfFuel\<close>); the
    state-and-error monad the executor is written in, with its rules;
    big-endian byte strings; slices with their range checks.
  \<^item> \<open>EvmWord\<close>, \<open>HexCodec\<close>, \<open>EvmAddress\<close>, \<open>EvmBlock\<close> (\<open>evm-common/src\<close>) and \<open>EvmEvent\<close>
    (\<open>evm-event/src/lib.rs\<close>, \<open>src/tracer.rs\<close>): words and their conversions, the hex decoder,
    addresses of created contracts (with RLP as the specification), blob gas prices, events;
    the locale \<open>event_tracer\<close> is the contract of the trait \<open>EventTracer\<close>, interpreted on
    the logging tracer.
  \<^item> \<open>Opcodes\<close> (\<open>src/opcodes.rs\<close>, \<open>src/decoder.rs\<close>): the table, the decoder, the binary
    search of the jump table; the inductive predicate \<open>instr_start\<close> is the specification of
    instruction boundaries.
  \<^item> \<open>Host\<close>: what is not in the repository, as the fields of a record that every definition
    needing one of them takes as an argument: build options (overflow checks, the tracing
    feature), Keccak-256, the \<open>i256\<close> crate, the cryptography of the precompiled contracts.
    \<open>host_ok\<close> states their documented behaviour, \<open>demo_host\<close> satisfies it.
  \<^item> \<open>Ext\<close> (\<open>src/ext.rs\<close>): accounts, lazy loading from the remote node (the functions of the
    record \<open>remote\<close>), warm sets, access lists. The locales \<open>lazy_state\<close> and \<open>lazy_store\<close>
    state what a client may rely on (reads return the abstract state and leave it as it is; a write
    is read back) and are interpreted on balances, nonces, code and storage.
  \<^item> \<open>Precompiles\<close> (\<open>src/precompiles.rs\<close>): addresses, prices, argument parsing; modular
    exponentiation and BLAKE2 in full.
  \<^item> \<open>Machine\<close> (\<open>src/executor.rs\<close>, lines 24 to 345): \<open>Gas\<close>, \<open>AccountTouch\<close>, \<open>Evm\<close> and its
    methods, \<open>Context\<close>, the frame's parameters. \<open>FrameLogic\<close> is the program logic of frames:
    the invariant \<open>frame_inv\<close> and the triples \<open>quiet\<close>, \<open>priced\<close>, \<open>metered\<close>, \<open>lawful\<close>
    with rules for every monadic combinator.
  \<^item> \<open>ArithOps\<close>, \<open>EnvOps\<close>, \<open>MemOps\<close>: one definition per arm of \<open>execute_instruction\<close>.
    \<open>Calls\<close>: \<open>call\<close>, \<open>create\<close> and their six instructions, over a parameter for the
    executor of nested frames; \<open>CallLaws\<close>: the locale \<open>sub_executor\<close>, what they rely on of it,
    and what they guarantee in return.
  \<^item> \<open>Executor\<close>: dispatch, loop, transactions. \<open>ExecutorLaws\<close>: the interpretation of
    \<open>sub_executor\<close> on the interpreter itself, by induction on the fuel. \<open>Fuel\<close>: more fuel
    never changes a result. \<open>Steps\<close>: reflexive and transitive relations that monadic computations
    preserve, with the locale \<open>step_relation\<close>. \<open>Journal\<close>: what the touches of a frame record, and that undoing
    them restores storage and transient storage; \<open>step_relation\<close> carries the
    rules, interpreted on the neutral and the journaled computations.
  \<^item> \<open>JournalLaws\<close>: the journal of calls, creations and whole frames, with the locale
    \<open>journaling_executor\<close> (it extends \<open>sub_executor\<close> by the promise that the journal of a
    frame undoes all it wrote), interpreted on the interpreter. \<open>Transactions\<close>: postconditions
    of the steps of \<open>execute\<close> around the top frame.
  \<^item> \<open>Solenoid\<close> (\<open>src/solenoid.rs\<close>): the three builders as records, and \<open>Runner::apply\<close> in the
    pieces of its body. \<open>SolenoidLaws\<close>: what each piece keeps, and what a whole run gives;
    \<open>RunnerDemo\<close>: the runs the witnesses are taken from; \<open>SolenoidProps\<close>: the properties.
  \<^item> \<open>ProxyCache\<close> (\<open>rpc-proxy/src/cache.rs\<close>): the cache of the proxy, key-value stores for
    balances, nonces and slots and compressed files for code, blocks and transactions; the
    crates it stands on are the fields of \<open>cache_env\<close>. \<open>ProxyCacheLaws\<close>: encodings and keys, the
    locale \<open>answer_cache\<close> (a put is read back, other keys are left alone) interpreted on all six
    stores, and the links from block numbers to blocks.
  \<^item> \<open>Proxy\<close> (\<open>rpc-proxy/src/retry.rs\<close>, \<open>main.rs\<close>): retries with growing delays, forwarding to the
    upstream node (the field \<open>upstream\<close> of \<open>proxy_env\<close>), every request handler. \<open>ProxyLaws\<close>: what a
    handler does on a hit and on a miss; the locale \<open>served_cache\<close> is what a handler relies on of its
    store, interpreted for each of them. \<open>ProxyProps\<close>: the properties of requests and sessions.
  \<^item> \<open>EthClient\<close> (\<open>src/eth.rs\<close>, the constructors of \<open>src/ext.rs\<close>): the requests of the JSON-RPC client,
    the reading of their results, and the record \<open>remote\<close> they fill. \<open>EthClientProps\<close>: the client on
    a node that serves a state, alone and behind the proxy.
  \<^item> \<open>EvmTracer\<close> (\<open>evm-tracer/src/lib.rs\<close>, \<open>aux.rs\<close>): the inspector that records what \<open>revm\<close> does as
    events, by its hooks; names of opcodes, hexadecimal payloads. \<open>TracerProps\<close>: its properties,
    against a recursive reference on the tree of an execution.
  \<^item> \<open>TraceCompare\<close> (\<open>evm-event/src/lib.rs\<close>, \<open>evm-tracer/src/aux.rs\<close>, \<open>examples/check.rs\<close>): equality of
    events, dumping them line by line, the non-interactive check of two dumps. \<open>CompareProps\<close>: its
    properties. \<open>CheckStepping\<close>: its interactive mode, over a list of keys.
  \<^item> \<open>Replay\<close> (\<open>examples/runner.rs\<close>): a block run transaction by transaction through the builders of
    \<open>Solenoid\<close> on one \<open>Ext\<close>, the report on the state each run touched, and the comparison with the answers of
    \<open>revm\<close> (a list). \<open>ReplayDemo\<close>: two transactions replayed on concrete input; \<open>ReplayProps\<close>: the properties.
  \<^item> \<open>BrowserDemo\<close> (\<open>wasm-demo/src/lib.rs\<close>): what the browser asks of a node, its quotes and the trace of a
    transaction, composed of \<open>EthClient\<close>, \<open>Ext\<close> and \<open>Replay\<close>. \<open>BrowserProps\<close>: what that trace is a trace of.
  \<^item> \<open>Allocator\<close> (\<open>src/allocator.rs\<close>): the counting allocator; its runs are the inductive predicate
    \<open>alloc_run\<close> over the multiset of live blocks. \<open>AddressText\<close>: the textual form of addresses.
  \<^item> \<open>DataProps\<close>, \<open>InstrProps\<close>, \<open>FlowProps\<close>, \<open>FrameProps\<close>, \<open>AtomicProps\<close>: the properties,
    grouped as data and state; instructions; memory, storage and control flow; frames; failed
    calls, rolled back frames and whole transactions. \<open>DemoRuns\<close> holds the runs that witnesses
    are taken from.

  \<^bold>\<open>What the theorems show.\<close> Frames: every run ends, within the gas it was given, in a result
  (the interpreter turns every \<open>Err\<close> of a step into a halt); the stack, memory and memory price
  invariant holds at every turn; exceptional halts consume all gas; depth limit and 63/64
  rule; a reverted journal restores the storage. Atomicity: a call that fails, and a transaction
  that ends reverted, leave persistent and transient storage as they were, however many frames
  wrote to it; a transaction terminates and its charge lies between 21000 and its gas limit (or
  the floor of its call data). Instructions: functional behaviour of
  arithmetic, shifts, stack, memory, jumps and \<open>SSTORE\<close> with its prices and refunds; protection
  of static calls. Data: decoding against the specification of instruction boundaries, jump
  resolution, encodings and their round trips, lazy state, access lists, precompiled contracts.
  Runs of the builders: they terminate, report gas within the limit, restore the storage when
  reverted, and install the code of a creation with its hash. Proxy: an answered request is answered
  from the cache afterwards, with the same value; what is not answered is not cached; lookups of
  different slots, addresses and blocks do not interfere; no block link dangles; the number of
  attempts and the pauses between them are exact; offline, cacheable requests never reach the node.
  Client: a state pinned to a block reads what the node serves, directly and through the proxy, but
  the proxy caches none of these reads. Inspector: the recorded events are those of the execution;
  its opcode names are those of the table. Allocator: a report gives the bytes in live blocks.
  Replay: what is reported of an account is what the state holds of it, the reported gas of a call is what
  its sender was charged, a replayed creation never runs its init code, and a block leaves the state its
  transactions lead to and dumps nothing when all match. Check: when exactly two dumps match. Browser: a
  transaction is traced on the state of the parent block.

  \<^bold>\<open>Bounds and fuel.\<close> \<open>usize\<close> is 64 bits wide (the 32-bit variant of \<open>as_usize\<close> is
  \<open>as_usize_wasm32\<close>). \<open>alloc_limit\<close> (64 GiB) is the size at which growing the memory fails, which
  aborts the program: a panic of the model. The interpreter is structurally recursive in
  fuel; \<open>FrameProps\<close> shows that the remaining gas plus 2 is enough, and that any larger fuel
  gives the same. Gas is kept as \<open>int\<close>, with the
  wrap-around of \<open>i64\<close> written out where a price can leave the range (\<open>LOG\<close>, intrinsic gas);
  theorems on frames assume a build with overflow checks, because without them \<open>LOG\<close> has a
  negative price for some sizes (\<open>log_price_wraps\<close>).

  \<^bold>\<open>Not modelled.\<close> Console output (\<open>log\<close>) and the \<open>debug\<close> JSON of trace events, except for
  the range checks of the slices it takes; asynchrony (every \<open>await\<close> is a call, and the proxy
  serves one request at a time); the transport of HTTP, and what \<open>reqwest\<close>, \<open>serde_json\<close>, \<open>hex\<close>,
  \<open>flate2\<close> and \<open>yakvdb\<close> do beyond the contracts stated for them; starting and stopping the proxy, its
  routes and its logging; running \<open>revm\<close> itself (\<open>trace_all\<close>, \<open>trace_one\<close>, \<open>run.rs\<close>), which configures
  a third-party machine; the comparison of state files in \<open>check.rs\<close>, which only prints, the command line and terminal reports of
  \<open>runner.rs\<close>; the text of quotes in the browser, whose prices are floating point, and 32-bit \<open>usize\<close> in the
  interpreter it runs; the other examples, which are drivers that call these components and print.
\<close>

end
